(* ===== verification/Prelude.thy ===== *)
theory Prelude
  imports Main "HOL-Library.Sublist"
begin

text \<open>
  Shared vocabulary of the development.

  \<^item> \<open>build\<close>: the value of \<open>DCHECK_IS_ON()\<close>. A \<open>DCHECK\<close> ends the process in a
    \<open>Debug\<close> build and is no code at all in a \<open>Release\<close> build.
  \<^item> \<open>abort\<close> and \<open>result\<close>: a call either returns (\<open>Inr\<close>) or ends the process
    (\<open>Inl\<close>), with the source text of the check that failed, of the library call outside its
    precondition, or of the call that threw.
  \<^item> \<open>runner\<close>: the strand or task runner a piece of code executes on.
  \<^item> \<open>error_code\<close>: the values of \<open>boost::system::error_code\<close> that the source compares
    with; every other failure is \<open>OtherError n\<close>.
  \<^item> \<open>reach\<close> and the locale \<open>invariant_machine\<close>: reachable states of a step relation
    and the one induction every state machine of the development uses.
\<close>

named_theorems result_simps \<open>rules for sequencing, checks and emitted effects\<close>

subsection \<open>Builds, aborts, results\<close>

datatype build = Debug | Release

datatype abort =
    DCHECK string
  | CHECK string
  | NOTREACHED string
  | UNDEFINED string
  | THROWN string

type_synonym 'a result = "abort + 'a"

text \<open>\<open>DCHECK(cond); k\<close>, \<open>CHECK(cond); k\<close> and \<open>NOTREACHED(); k\<close>.\<close>

definition dcheck :: "build \<Rightarrow> string \<Rightarrow> bool \<Rightarrow> 'a result \<Rightarrow> 'a result" where
  "dcheck b what cond k = (if b = Debug \<and> \<not> cond then Inl (DCHECK what) else k)"

definition check :: "string \<Rightarrow> bool \<Rightarrow> 'a result \<Rightarrow> 'a result" where
  "check what cond k = (if cond then k else Inl (CHECK what))"

definition notreached :: "build \<Rightarrow> string \<Rightarrow> 'a result \<Rightarrow> 'a result" where
  "notreached b what k = (if b = Debug then Inl (NOTREACHED what) else k)"

text \<open>A library call whose documented precondition is \<open>cond\<close>; without it the behaviour is undefined.\<close>

definition requires :: "string \<Rightarrow> bool \<Rightarrow> 'a result \<Rightarrow> 'a result" where
  "requires what cond k = (if cond then k else Inl (UNDEFINED what))"

text \<open>A call that throws unless \<open>cond\<close>; no handler of the source catches, so the exception ends the process.\<close>

definition throws_unless :: "string \<Rightarrow> bool \<Rightarrow> 'a result \<Rightarrow> 'a result" where
  "throws_unless what cond k = (if cond then k else Inl (THROWN what))"

text \<open>Sequencing, and effects emitted before the rest of a handler.\<close>

definition andThen :: "'a result \<Rightarrow> ('a \<Rightarrow> 'b result) \<Rightarrow> 'b result" where
  "andThen m f = (case m of Inl a \<Rightarrow> Inl a | Inr x \<Rightarrow> f x)"

definition emit :: "'e list \<Rightarrow> ('s \<times> 'e list) result \<Rightarrow> ('s \<times> 'e list) result" where
  "emit es m = andThen m (\<lambda>(s, es'). Inr (s, es @ es'))"

definition returns :: "'a result \<Rightarrow> bool" where
  "returns m = (case m of Inl _ \<Rightarrow> False | Inr _ \<Rightarrow> True)"

lemma dcheck_True [simp]: "dcheck b w True k = k"
  by (simp add: dcheck_def)

lemma dcheck_Release [simp]: "dcheck Release w c k = k"
  by (simp add: dcheck_def)

lemma dcheck_Debug_False [simp]: "dcheck Debug w False k = Inl (DCHECK w)"
  by (simp add: dcheck_def)

lemma dcheck_Inr [result_simps]: "dcheck b w c k = Inr x \<longleftrightarrow> (b = Debug \<longrightarrow> c) \<and> k = Inr x"
  by (auto simp: dcheck_def)

lemma dcheck_pass [result_simps]: "c \<Longrightarrow> dcheck b w c k = k"
  by (simp add: dcheck_def)

lemma check_True [simp]: "check w True k = k"
  by (simp add: check_def)

lemma check_False [simp]: "check w False k = Inl (CHECK w)"
  by (simp add: check_def)

lemma check_Inr [result_simps]: "check w c k = Inr x \<longleftrightarrow> c \<and> k = Inr x"
  by (auto simp: check_def)

lemma requires_True [simp]: "requires w True k = k"
  by (simp add: requires_def)

lemma requires_False [simp]: "requires w False k = Inl (UNDEFINED w)"
  by (simp add: requires_def)

lemma requires_Inr [result_simps]: "requires w c k = Inr x \<longleftrightarrow> c \<and> k = Inr x"
  by (auto simp: requires_def)

lemma throws_unless_True [simp]: "throws_unless w True k = k"
  by (simp add: throws_unless_def)

lemma throws_unless_False [simp]: "throws_unless w False k = Inl (THROWN w)"
  by (simp add: throws_unless_def)

lemma notreached_simps [simp]:
  "notreached Debug w k = Inl (NOTREACHED w)"
  "notreached Release w k = k"
  by (simp_all add: notreached_def)

lemma notreached_Inr [result_simps]: "notreached b w k = Inr x \<longleftrightarrow> b = Release \<and> k = Inr x"
  by (cases b) auto

lemma andThen_simps [simp]:
  "andThen (Inl a) f = Inl a"
  "andThen (Inr x) f = f x"
  by (simp_all add: andThen_def)

lemma andThen_Inr [result_simps]: "andThen m f = Inr y \<longleftrightarrow> (\<exists>x. m = Inr x \<and> f x = Inr y)"
  by (cases m) auto

lemma emit_simps [simp]:
  "emit es (Inl a) = Inl a"
  "emit es (Inr (s, es')) = Inr (s, es @ es')"
  by (simp_all add: emit_def)

lemma emit_Inr [result_simps]:
  "emit es m = Inr (s, es2) \<longleftrightarrow> (\<exists>es'. m = Inr (s, es') \<and> es2 = es @ es')"
  by (cases m) (auto simp: emit_def)

lemma returns_simps [simp]:
  "returns (Inl a) = False"
  "returns (Inr x) = True"
  by (simp_all add: returns_def)

lemma returns_iff: "returns m \<longleftrightarrow> (\<exists>x. m = Inr x)"
  by (cases m) auto

text \<open>A loop whose body may end the process.\<close>

fun foldM :: "('x \<Rightarrow> 's \<Rightarrow> 's result) \<Rightarrow> 'x list \<Rightarrow> 's \<Rightarrow> 's result" where
  "foldM f [] s = Inr s"
| "foldM f (x # xs) s = andThen (f x s) (foldM f xs)"

lemma foldM_append: "foldM f (xs @ ys) s = andThen (foldM f xs s) (foldM f ys)"
proof (induction xs arbitrary: s)
  case Nil
  then show ?case by simp
next
  case (Cons x xs)
  then show ?case by (cases "f x s") auto
qed

text \<open>
  The loop rule: an invariant \<open>P done s\<close> about the processed prefix, under which the body
  returns and extends the prefix.
\<close>

lemma foldM_rule:
  assumes "P [] s"
    and "\<And>ys x zs s. xs = ys @ x # zs \<Longrightarrow> P ys s \<Longrightarrow> \<exists>s'. f x s = Inr s' \<and> P (ys @ [x]) s'"
  shows "\<exists>s'. foldM f xs s = Inr s' \<and> P xs s'"
  using assms
proof (induction xs arbitrary: s rule: rev_induct)
  case Nil
  then show ?case by simp
next
  case (snoc x xs)
  have "\<exists>s'. foldM f xs s = Inr s' \<and> P xs s'"
  proof (rule snoc.IH [OF snoc.prems(1)])
    fix ys y zs t
    assume "xs = ys @ y # zs" and "P ys t"
    then show "\<exists>s'. f y t = Inr s' \<and> P (ys @ [y]) s'"
      using snoc.prems(2) [of ys y "zs @ [x]" t] by simp
  qed
  then obtain s' where s': "foldM f xs s = Inr s'" "P xs s'" by blast
  with snoc.prems(2) [of xs x "[]" s'] show ?case
    by (auto simp: foldM_append)
qed

text \<open>A loop ends the process if one of its bodies does, whatever the others do before it.\<close>

lemma foldM_fails:
  assumes "e \<in> set xs" and "P s"
    and "\<And>s. P s \<Longrightarrow> \<exists>a. f e s = Inl a"
    and "\<And>x s s'. x \<noteq> e \<Longrightarrow> P s \<Longrightarrow> f x s = Inr s' \<Longrightarrow> P s'"
  shows "\<exists>a. foldM f xs s = Inl a"
  using assms(1,2)
proof (induction xs arbitrary: s)
  case Nil
  then show ?case by simp
next
  case (Cons x xs)
  show ?case
  proof (cases "f x s")
    case (Inl a)
    then show ?thesis by simp
  next
    case (Inr s')
    with assms(3) [OF Cons.prems(2)] have "x \<noteq> e" by auto
    with Cons Inr assms(4) [OF _ Cons.prems(2) Inr] show ?thesis by simp
  qed
qed

text \<open>Moved-from objects: the value is here, or \<open>std::move\<close> has taken it.\<close>

datatype 'a movable = Here 'a | MovedFrom

definition take_value :: "string \<Rightarrow> 'a movable \<Rightarrow> ('a \<Rightarrow> 'b result) \<Rightarrow> 'b result" where
  "take_value what m k = (case m of Here x \<Rightarrow> k x | MovedFrom \<Rightarrow> Inl (UNDEFINED what))"

lemma take_value_simps [simp]:
  "take_value w (Here x) k = k x"
  "take_value w MovedFrom k = Inl (UNDEFINED w)"
  by (simp_all add: take_value_def)

lemma take_value_Inr [result_simps]:
  "take_value w m k = Inr y \<longleftrightarrow> (\<exists>x. m = Here x \<and> k x = Inr y)"
  by (cases m) auto

subsection \<open>Runners, error codes\<close>

datatype runner = ConnectionStrand | AcceptorStrand | RegistrySequence | MainLoop

text \<open>What a handler observes of the process it runs in: the build and the runner.\<close>

record exec_env =
  bld :: build
  on_runner :: runner

text \<open>\<open>DCHECK_RUN_ON_STRAND\<close>, \<open>DCHECK(strand.running_in_this_thread())\<close>,
  \<open>DCHECK(registry.RunsTasksInCurrentSequence())\<close>.\<close>

definition run_on :: "exec_env \<Rightarrow> runner \<Rightarrow> 'a result \<Rightarrow> 'a result" where
  "run_on E r k = dcheck (bld E) ''DCHECK_RUN_ON'' (on_runner E = r) k"

lemma run_on_same [simp]: "on_runner E = r \<Longrightarrow> run_on E r k = k"
  by (simp add: run_on_def)

lemma run_on_Inr [result_simps]:
  "run_on E r k = Inr x \<longleftrightarrow> (bld E = Debug \<longrightarrow> on_runner E = r) \<and> k = Inr x"
  by (simp add: run_on_def dcheck_Inr)

datatype error_code =
    Success
  | EndOfStream          \<comment> \<open>\<open>beast::http::error::end_of_stream\<close>\<close>
  | StreamTruncated      \<comment> \<open>\<open>asio::ssl::error::stream_truncated\<close>\<close>
  | OperationAborted     \<comment> \<open>\<open>asio::error::operation_aborted\<close>\<close>
  | WebsocketClosed      \<comment> \<open>\<open>beast::websocket::error::closed\<close>\<close>
  | TimedOut             \<comment> \<open>\<open>beast::error::timeout\<close>\<close>
  | ConnectionAborted    \<comment> \<open>\<open>asio::error::connection_aborted\<close>\<close>
  | NoSuchFile           \<comment> \<open>\<open>system::errc::no_such_file_or_directory\<close>\<close>
  | OtherError nat

text \<open>\<open>if(ec)\<close>: the code is not the success value.\<close>

definition failed :: "error_code \<Rightarrow> bool" where
  "failed ec = (ec \<noteq> Success)"

lemma failed_simps [simp]:
  "\<not> failed Success"
  "failed EndOfStream" "failed StreamTruncated" "failed OperationAborted"
  "failed WebsocketClosed" "failed TimedOut" "failed ConnectionAborted"
  "failed NoSuchFile" "failed (OtherError n)"
  by (simp_all add: failed_def)

lemma not_failed: "\<not> failed ec \<longleftrightarrow> ec = Success"
  by (simp add: failed_def)

subsection \<open>Reachable states\<close>

inductive reach :: "('s \<Rightarrow> bool) \<Rightarrow> ('s \<Rightarrow> 's \<Rightarrow> bool) \<Rightarrow> 's \<Rightarrow> bool"
  for init :: "'s \<Rightarrow> bool" and step :: "'s \<Rightarrow> 's \<Rightarrow> bool" where
  reach_init: "init s \<Longrightarrow> reach init step s"
| reach_step: "reach init step s \<Longrightarrow> step s t \<Longrightarrow> reach init step t"

locale invariant_machine =
  fixes start :: "'s \<Rightarrow> bool"
    and trans :: "'s \<Rightarrow> 's \<Rightarrow> bool"
    and inv :: "'s \<Rightarrow> bool"
  assumes inv_start: "start s \<Longrightarrow> inv s"
    and inv_trans: "inv s \<Longrightarrow> trans s t \<Longrightarrow> inv t"
begin

lemma reach_inv: "reach start trans s \<Longrightarrow> inv s"
  by (induction rule: reach.induct) (auto intro: inv_start inv_trans)

lemma reach_trans_inv: "reach start trans s \<Longrightarrow> trans s t \<Longrightarrow> inv t"
  by (rule inv_trans [OF reach_inv])

end

text \<open>
  A simulation: every step of the detailed machine is a step of the abstract one, from related states to
  related states. What is reachable in the one is then related to something reachable in the other.
\<close>

locale simulation =
  fixes start :: "'s \<Rightarrow> bool" and trans :: "'s \<Rightarrow> 's \<Rightarrow> bool"
    and abs_start :: "'t \<Rightarrow> bool" and abs_trans :: "'t \<Rightarrow> 't \<Rightarrow> bool"
    and rel :: "'s \<Rightarrow> 't \<Rightarrow> bool"
  assumes sim_start: "start s \<Longrightarrow> \<exists>a. abs_start a \<and> rel s a"
    and sim_trans: "rel s a \<Longrightarrow> trans s t \<Longrightarrow> \<exists>a'. abs_trans a a' \<and> rel t a'"
begin

lemma simulates: "reach start trans s \<Longrightarrow> \<exists>a. reach abs_start abs_trans a \<and> rel s a"
proof (induction rule: reach.induct)
  case (reach_init s)
  then show ?case using sim_start by (blast intro: reach.reach_init)
next
  case (reach_step s t)
  then show ?case using sim_trans by (blast intro: reach.reach_step)
qed

end

subsection \<open>Substrings\<close>

text \<open>\<open>string_view::find(pat) != npos\<close>.\<close>

fun contains :: "string \<Rightarrow> string \<Rightarrow> bool" where
  "contains pat [] = (pat = [])"
| "contains pat (c # s) = (prefix pat (c # s) \<or> contains pat s)"

lemma contains_iff: "contains pat s \<longleftrightarrow> (\<exists>p q. s = p @ pat @ q)"
proof (induction s)
  case Nil
  then show ?case by auto
next
  case (Cons c s)
  have "contains pat (c # s) \<longleftrightarrow> (\<exists>q. c # s = pat @ q) \<or> (\<exists>p q. s = p @ pat @ q)"
    using Cons by (simp add: prefix_def)
  also have "\<dots> \<longleftrightarrow> (\<exists>p q. c # s = p @ pat @ q)"
  proof
    assume "(\<exists>q. c # s = pat @ q) \<or> (\<exists>p q. s = p @ pat @ q)"
    then show "\<exists>p q. c # s = p @ pat @ q"
      by (metis append_Cons append_Nil)
  next
    assume "\<exists>p q. c # s = p @ pat @ q"
    then obtain p q where "c # s = p @ pat @ q" by blast
    then show "(\<exists>q. c # s = pat @ q) \<or> (\<exists>p q. s = p @ pat @ q)"
      by (cases p) auto
  qed
  finally show ?case .
qed

end
