(* ===== verification/Sockets.thy ===== *)
theory Sockets
  imports Prelude
begin

text \<open>
  TCP sockets and streams as the source uses them: \<open>src/util/close_socket_unsafe.cc\<close>,
  \<open>include/flexnet/util/close_socket_unsafe.hpp\<close>,
  \<open>include/flexnet/util/limited_tcp_stream.hpp\<close>.

  The socket itself is Boost.Asio's: a value of an arbitrary type \<open>'s\<close> with the three calls
  the source makes on it, given by a \<open>socket_api\<close>. \<open>socket_laws\<close> is what Asio documents
  and the comment in \<open>closeSocketUnsafe\<close> repeats: after \<open>close\<close> the descriptor is closed,
  even if an error is reported.
\<close>

record 's socket_api =
  is_open :: "'s \<Rightarrow> bool"
  shutdown_both :: "'s \<Rightarrow> 's \<times> error_code"
  close_fd :: "'s \<Rightarrow> 's \<times> error_code"

definition socket_laws :: "'s socket_api \<Rightarrow> bool" where
  "socket_laws A = (\<forall>s. \<not> is_open A (fst (close_fd A s)))"

text \<open>The two warnings the function may log: the error of \<open>shutdown\<close>, the error of \<open>close\<close>.\<close>

datatype close_log = ShutdownError error_code | CloseError error_code | AlreadyClosed

definition log_if_failed :: "(error_code \<Rightarrow> close_log) \<Rightarrow> error_code \<Rightarrow> close_log list" where
  "log_if_failed f ec = (if failed ec then [f ec] else [])"

definition closeSocketUnsafe :: "'s socket_api \<Rightarrow> 's \<Rightarrow> 's \<times> close_log list" where
  "closeSocketUnsafe A socket =
     (if is_open A socket then
        (let (socket, ec) = shutdown_both A socket;
             log1 = log_if_failed ShutdownError ec;
             (socket, ec) = close_fd A socket;
             log2 = log_if_failed CloseError ec
         in (socket, log1 @ log2))
      else (socket, [AlreadyClosed]))"

lemma closeSocketUnsafe_closed:
  "socket_laws A \<Longrightarrow> \<not> is_open A (fst (closeSocketUnsafe A s))"
  by (auto simp: closeSocketUnsafe_def socket_laws_def Let_def split: prod.splits)
     (metis fst_conv)

lemma closeSocketUnsafe_idle: "\<not> is_open A s \<Longrightarrow> closeSocketUnsafe A s = (s, [AlreadyClosed])"
  by (simp add: closeSocketUnsafe_def)

text \<open>
  \<open>boost::beast::limited_tcp_stream\<close>: a socket, a deadline and the limits of
  \<open>simple_rate_policy\<close>. The fields record what the source last configured.
\<close>

datatype expiry = NoDeadline | ExpiresNever | ExpiresAfter nat

record 's tcp_stream =
  socket :: 's
  expiry :: expiry
  read_limit :: "nat option"
  write_limit :: "nat option"

definition stream_of_socket :: "'s \<Rightarrow> 's tcp_stream" where
  "stream_of_socket s = \<lparr>socket = s, expiry = NoDeadline, read_limit = None, write_limit = None\<rparr>"

definition set_rate_limits :: "nat \<Rightarrow> nat \<Rightarrow> 's tcp_stream \<Rightarrow> 's tcp_stream" where
  "set_rate_limits r w st = st\<lparr>read_limit := Some r, write_limit := Some w\<rparr>"

lemma socket_stream_simps [simp]:
  "socket (stream_of_socket s) = s"
  "socket (set_rate_limits r w st) = socket st"
  "expiry (set_rate_limits r w st) = expiry st"
  by (simp_all add: stream_of_socket_def set_rate_limits_def)

text \<open>A concrete socket for evaluation: open or not, with the error codes its calls will report.\<close>

record demo_socket =
  demo_open :: bool
  demo_shutdown_ec :: error_code
  demo_close_ec :: error_code

definition demo_api :: "demo_socket socket_api" where
  "demo_api = \<lparr>
     is_open = demo_open,
     shutdown_both = (\<lambda>s. (s, demo_shutdown_ec s)),
     close_fd = (\<lambda>s. (s\<lparr>demo_open := False\<rparr>, demo_close_ec s))\<rparr>"

definition demo_conn :: demo_socket where
  "demo_conn = \<lparr>demo_open = True, demo_shutdown_ec = Success, demo_close_ec = Success\<rparr>"

lemma demo_api_laws: "socket_laws demo_api"
  by (simp add: socket_laws_def demo_api_def)

end
