(* ===== verification/Std_Map.thy ===== *)
theory Std_Map
  imports Prelude
begin

text \<open>
  \<open>std::map\<close> with a comparator, as the C++ standard library defines it: a list of entries
  sorted by the comparator, where two keys are the same key when neither is less than the
  other. The locale \<open>strict_weak_order\<close> is the requirement \<open>Compare\<close> that the standard
  puts on the comparator; its lemmas are the lookup laws of the map. Used by the MIME table
  (case-insensitive keys) and by the plugin configuration (plain \<open>std::string\<close> keys).
\<close>

type_synonym ('k, 'v) std_map = "('k \<times> 'v) list"

text \<open>\<open>m[k] = v\<close>: overwrite the entry of an equivalent key (the stored key stays), else insert.\<close>

fun std_map_put :: "('k \<Rightarrow> 'k \<Rightarrow> bool) \<Rightarrow> 'k \<Rightarrow> 'v \<Rightarrow> ('k, 'v) std_map \<Rightarrow> ('k, 'v) std_map" where
  "std_map_put lt k v [] = [(k, v)]"
| "std_map_put lt k v ((k', v') # m) =
     (if lt k' k then (k', v') # std_map_put lt k v m
      else if lt k k' then (k, v) # (k', v') # m
      else (k', v) # m)"

text \<open>\<open>m.find(k)\<close>: the first entry that is not less, unless the key is less than that one.\<close>

fun std_map_find :: "('k \<Rightarrow> 'k \<Rightarrow> bool) \<Rightarrow> 'k \<Rightarrow> ('k, 'v) std_map \<Rightarrow> 'v option" where
  "std_map_find lt k [] = None"
| "std_map_find lt k ((k', v') # m) =
     (if lt k' k then std_map_find lt k m
      else if lt k k' then None
      else Some v')"

text \<open>A sequence of assignments \<open>m[k1] = v1; m[k2] = v2; \<dots>\<close> on an empty map.\<close>

definition std_map_of :: "('k \<Rightarrow> 'k \<Rightarrow> bool) \<Rightarrow> ('k \<times> 'v) list \<Rightarrow> ('k, 'v) std_map" where
  "std_map_of lt kvs = fold (\<lambda>(k, v) m. std_map_put lt k v m) kvs []"

text \<open>The invariant of the container.\<close>

fun std_map_ok :: "('k \<Rightarrow> 'k \<Rightarrow> bool) \<Rightarrow> ('k, 'v) std_map \<Rightarrow> bool" where
  "std_map_ok lt [] = True"
| "std_map_ok lt ((k, v) # m) = ((\<forall>(k', v') \<in> set m. lt k k') \<and> std_map_ok lt m)"

text \<open>\<open>boost::algorithm::lexicographical_compare\<close> and \<open>std::string\<close>'s order have this shape.\<close>

fun lexicographical_compare :: "('c \<Rightarrow> 'c \<Rightarrow> bool) \<Rightarrow> 'c list \<Rightarrow> 'c list \<Rightarrow> bool" where
  "lexicographical_compare p xs [] = False"
| "lexicographical_compare p [] (y # ys) = True"
| "lexicographical_compare p (x # xs) (y # ys) =
     (if p x y then True else if p y x then False else lexicographical_compare p xs ys)"

locale strict_weak_order =
  fixes lt :: "'k \<Rightarrow> 'k \<Rightarrow> bool"
  assumes lt_irrefl: "\<not> lt x x"
    and lt_trans: "lt x y \<Longrightarrow> lt y z \<Longrightarrow> lt x z"
    and incomparable_trans:
      "\<not> lt x y \<Longrightarrow> \<not> lt y x \<Longrightarrow> \<not> lt y z \<Longrightarrow> \<not> lt z y \<Longrightarrow> \<not> lt x z \<and> \<not> lt z x"
begin

lemma lt_asym: "lt x y \<Longrightarrow> \<not> lt y x"
  using lt_irrefl lt_trans by blast

lemma lt_cong_left: "\<not> lt x y \<Longrightarrow> \<not> lt y x \<Longrightarrow> lt x z = lt y z"
  by (meson incomparable_trans lt_trans lt_asym)

lemma lt_cong_right: "\<not> lt x y \<Longrightarrow> \<not> lt y x \<Longrightarrow> lt z x = lt z y"
  by (meson incomparable_trans lt_trans lt_asym)

lemma put_keys:
  "(k', v') \<in> set (std_map_put lt k v m) \<Longrightarrow> k' = k \<or> (\<exists>v''. (k', v'') \<in> set m)"
  by (induction m) (auto split: if_splits)

lemma put_ok: "std_map_ok lt m \<Longrightarrow> std_map_ok lt (std_map_put lt k v m)"
proof (induction m)
  case Nil
  then show ?case by simp
next
  case (Cons e m)
  obtain k' v' where e: "e = (k', v')" by force
  from Cons e have IH: "std_map_ok lt (std_map_put lt k v m)" and ok: "std_map_ok lt m"
    and less: "\<And>a b. (a, b) \<in> set m \<Longrightarrow> lt k' a" by auto
  have "lt k' k \<Longrightarrow> (a, b) \<in> set (std_map_put lt k v m) \<Longrightarrow> lt k' a" for a b
    using put_keys [of a b k v m] less by auto
  moreover have "lt k k' \<Longrightarrow> (a, b) \<in> set m \<Longrightarrow> lt k a" for a b
    using less lt_trans by blast
  ultimately show ?case using e IH ok less by auto
qed

lemma find_below: "\<forall>(k', v') \<in> set m. lt k k' \<Longrightarrow> std_map_find lt k m = None"
  by (cases m) (auto dest: lt_asym)

lemma find_put_same:
  "\<not> lt j k \<Longrightarrow> \<not> lt k j \<Longrightarrow> std_map_find lt j (std_map_put lt k v m) = Some v"
proof (induction m)
  case Nil
  then show ?case by simp
next
  case (Cons e m)
  obtain k' v' where e: "e = (k', v')" by force
  have "lt k' j = lt k' k" "lt j k' = lt k k'"
    using lt_cong_right [OF Cons.prems] lt_cong_left [OF Cons.prems] by simp_all
  with Cons e show ?case by simp
qed

lemma find_put_other:
  "std_map_ok lt m \<Longrightarrow> lt j k \<or> lt k j \<Longrightarrow>
   std_map_find lt j (std_map_put lt k v m) = std_map_find lt j m"
proof (induction m)
  case Nil
  then show ?case by (auto dest: lt_asym)
next
  case (Cons e m)
  obtain k' v' where e: "e = (k', v')" by force
  show ?case
  proof (cases "lt k' k \<or> lt k k'")
    case True
    with Cons e show ?thesis
      by (auto dest: lt_asym lt_trans)
  next
    case False
    with Cons.prems e have "lt j k' \<or> lt k' j"
      using lt_cong_left lt_cong_right by blast
    with False e show ?thesis by (auto dest: lt_asym)
  qed
qed

lemma fold_put_ok:
  "std_map_ok lt m \<Longrightarrow> std_map_ok lt (fold (\<lambda>(k, v) m. std_map_put lt k v m) kvs m)"
  by (induction kvs arbitrary: m) (auto simp: put_ok)

lemma std_map_of_ok: "std_map_ok lt (std_map_of lt kvs)"
  by (simp add: std_map_of_def fold_put_ok)

text \<open>
  The lookup law: with \<open>norm\<close> a normal form that identifies exactly the equivalent keys, a
  map filled by assignments answers with the last assignment to an equivalent key.
\<close>

lemma find_fold_put:
  assumes norm: "\<And>x y. norm x = norm y \<longleftrightarrow> \<not> lt x y \<and> \<not> lt y x"
    and ok: "std_map_ok lt m"
  shows "std_map_find lt j (fold (\<lambda>(k, v) m. std_map_put lt k v m) kvs m) =
    (case map_of (rev (map (\<lambda>(k, v). (norm k, v)) kvs)) (norm j) of
       Some v \<Rightarrow> Some v | None \<Rightarrow> std_map_find lt j m)"
  using ok
proof (induction kvs arbitrary: m)
  case Nil
  then show ?case by simp
next
  case (Cons kv kvs)
  obtain k v where kv: "kv = (k, v)" by force
  have ok: "std_map_ok lt (std_map_put lt k v m)"
    using Cons.prems by (rule put_ok)
  have "std_map_find lt j (std_map_put lt k v m) =
      (if norm k = norm j then Some v else std_map_find lt j m)"
    using find_put_same [of j k v m] find_put_other [OF Cons.prems, of j k v] norm [of k j]
    by auto
  then show ?case
    by (auto simp: kv Cons.IH [OF ok] map_add_def map_of_append split: option.splits)
qed

lemma find_std_map_of:
  assumes "\<And>x y. norm x = norm y \<longleftrightarrow> \<not> lt x y \<and> \<not> lt y x"
  shows "std_map_find lt j (std_map_of lt kvs) =
    map_of (rev (map (\<lambda>(k, v). (norm k, v)) kvs)) (norm j)"
  using find_fold_put [OF assms, of "[]" j kvs]
  by (auto simp: std_map_of_def split: option.splits)

end

text \<open>Comparing element by element through a key function \<open>f\<close> into a linear order.\<close>

lemma lexicographical_compare_map:
  fixes f :: "'c \<Rightarrow> 'o::linorder"
  shows "lexicographical_compare (\<lambda>a b. f a < f b) xs ys =
    lexicographical_compare (<) (map f xs) (map f ys)"
proof (induction xs arbitrary: ys)
  case Nil
  then show ?case by (cases ys) auto
next
  case (Cons x xs)
  then show ?case by (cases ys) auto
qed

lemma lexicographical_compare_less_iff:
  fixes xs :: "'o::linorder list"
  shows "lexicographical_compare (<) xs ys \<longleftrightarrow> (xs, ys) \<in> lexord {(a, b). a < b}"
proof (induction xs arbitrary: ys)
  case Nil
  then show ?case by (cases ys) auto
next
  case (Cons x xs)
  then show ?case by (cases ys) auto
qed

lemma lexicographical_compare_swo:
  fixes f :: "'c \<Rightarrow> 'o::linorder"
  shows "strict_weak_order (lexicographical_compare (\<lambda>a b. f a < f b))"
    and "map f xs = map f ys \<longleftrightarrow>
      \<not> lexicographical_compare (\<lambda>a b. f a < f b) xs ys \<and>
      \<not> lexicographical_compare (\<lambda>a b. f a < f b) ys xs"
proof -
  let ?r = "{(a, b). a < (b::'o)}"
  let ?lt = "lexicographical_compare (\<lambda>a b. f a < f b)"
  have lt: "?lt us vs \<longleftrightarrow> (map f us, map f vs) \<in> lexord ?r" for us vs
    by (simp only: lexicographical_compare_map [of f us vs] lexicographical_compare_less_iff)
  have irr: "(us, us) \<notin> lexord ?r" for us :: "'o list"
    by (rule lexord_irreflexive) auto
  have tr: "(us, vs) \<in> lexord ?r \<Longrightarrow> (vs, ws) \<in> lexord ?r \<Longrightarrow> (us, ws) \<in> lexord ?r"
    for us vs ws :: "'o list"
    by (rule lexord_trans) (auto simp: trans_def)
  have tot: "(us, vs) \<in> lexord ?r \<or> us = vs \<or> (vs, us) \<in> lexord ?r" for us vs :: "'o list"
    by (rule lexord_linear) auto
  have equiv: "map f us = map f vs \<longleftrightarrow> \<not> ?lt us vs \<and> \<not> ?lt vs us" for us vs
    using lt irr tot [of "map f us" "map f vs"] by auto
  show "map f xs = map f ys \<longleftrightarrow> \<not> ?lt xs ys \<and> \<not> ?lt ys xs"
    by (rule equiv)
  show "strict_weak_order ?lt"
  proof (unfold_locales)
    show "\<not> ?lt x x" for x by (simp add: lt irr)
    show "?lt x y \<Longrightarrow> ?lt y z \<Longrightarrow> ?lt x z" for x y z
      by (simp add: lt) (rule tr)
    show "\<not> ?lt x y \<Longrightarrow> \<not> ?lt y x \<Longrightarrow> \<not> ?lt y z \<Longrightarrow> \<not> ?lt z y \<Longrightarrow> \<not> ?lt x z \<and> \<not> ?lt z x"
      for x y z
      using equiv [of x y] equiv [of y z] equiv [of x z] by simp
  qed
qed

end
