(* ===== verification/Mime_Type.thy ===== *)
theory Mime_Type
  imports Std_Map
begin

text \<open>
  \<open>src/util/mime_type.cpp\<close>, \<open>include/flexnet/util/mime_type.hpp\<close>: the media type of a file
  suffix. The class holds a \<open>std::map\<close> whose comparator ignores case and a default type; the
  constructor fills the map by assignments in the order of the source, split here in three
  lists. \<open>up\<close> stands for \<open>std::toupper\<close> in the locale that \<open>boost::algorithm::is_iless\<close>
  uses, as the value of the resulting \<open>char\<close>; \<open>classic_toupper\<close> is the one of the "C"
  locale. Not modelled: the thread-affinity check \<open>sequence_checker\<close>.
\<close>

type_synonym toupper = "char \<Rightarrow> int"

text \<open>\<open>boost::algorithm::is_iless\<close> on two characters.\<close>

definition is_iless :: "toupper \<Rightarrow> char \<Rightarrow> char \<Rightarrow> bool" where
  "is_iless up a b = (up a < up b)"

definition IgnoreCaseMimeTypeComparator :: "toupper \<Rightarrow> string \<Rightarrow> string \<Rightarrow> bool" where
  "IgnoreCaseMimeTypeComparator up s1 s2 = lexicographical_compare (is_iless up) s1 s2"

type_synonym MimeTypesMap = "(string, string) std_map"

record MimeType =
  mime_types :: MimeTypesMap
  default_mime_type :: string

definition mime_entries_1 :: "(string \<times> string) list" where
  "mime_entries_1 = [
    (''.'', ''application/x-''),
    (''.001'', ''application/x-001''),
    (''.301'', ''application/x-301''),
    (''.323'', ''text/h323''),
    (''.3gp'', ''video/3gpp''),
    (''.906'', ''application/x-906''),
    (''.907'', ''drawing/907''),
    (''.ivf'', ''video/x-ivf''),
    (''.a11'', ''application/x-a11''),
    (''.acp'', ''audio/x-mei-aac''),
    (''.ai'', ''application/postscript''),
    (''.aif'', ''audio/aiff''),
    (''.aifc'', ''audio/aiff''),
    (''.aiff'', ''audio/aiff''),
    (''.anv'', ''application/x-anv''),
    (''.asa'', ''text/asa''),
    (''.asf'', ''video/x-ms-asf''),
    (''.asp'', ''text/asp''),
    (''.asx'', ''video/x-ms-asf''),
    (''.au'', ''audio/basic''),
    (''.avi'', ''video/x-msvideo''),
    (''.awf'', ''application/vnd.adobe.workflow''),
    (''.biz'', ''text/xml''),
    (''.bmp'', ''application/x-MS-bmp''),
    (''.bot'', ''application/x-bot''),
    (''.c4t'', ''application/x-c4t''),
    (''.c90'', ''application/x-c90''),
    (''.cab'', ''application/x-shockwave-flash''),
    (''.cal'', ''application/x-cals''),
    (''.cat'', ''application/vnd.ms-pki.seccat''),
    (''.cdf'', ''application/x-netcdf''),
    (''.cdr'', ''application/x-cdr''),
    (''.cel'', ''application/x-cel''),
    (''.cer'', ''application/x-x509-ca-cert''),
    (''.cg4'', ''application/x-g4''),
    (''.cgm'', ''application/x-cgm''),
    (''.chm'', ''application/mshelp''),
    (''.cit'', ''application/x-cit''),
    (''.class'', ''java/*''),
    (''.cml'', ''text/xml''),
    (''.cmp'', ''application/x-cmp''),
    (''.cmx'', ''application/x-cmx''),
    (''.cot'', ''application/x-cot''),
    (''.crl'', ''application/pkix-crl''),
    (''.crt'', ''application/x-x509-ca-cert''),
    (''.csi'', ''application/x-csi''),
    (''.css'', ''text/css''),
    (''.cut'', ''application/x-cut''),
    (''.dbf'', ''application/x-dbf''),
    (''.dbm'', ''application/x-dbm''),
    (''.dbx'', ''application/x-dbx''),
    (''.dcd'', ''text/xml''),
    (''.dcx'', ''application/x-dcx''),
    (''.der'', ''application/x-x509-ca-cert''),
    (''.dgn'', ''application/x-dgn''),
    (''.dib'', ''application/x-dib''),
    (''.dll'', ''application/x-msdownload''),
    (''.doc'', ''application/msword''),
    (''.dot'', ''application/msword''),
    (''.drw'', ''application/x-drw''),
    (''.dtd'', ''text/xml''),
    (''.dwf'', ''application/x-dwf''),
    (''.dwg'', ''application/x-dwg''),
    (''.dxb'', ''application/x-dxb''),
    (''.dxf'', ''application/x-dxf''),
    (''.edn'', ''application/vnd.adobe.edn''),
    (''.emf'', ''application/x-emf''),
    (''.eml'', ''message/rfc822''),
    (''.ent'', ''text/xml''),
    (''.epi'', ''application/x-epi''),
    (''.eps'', ''application/postscript''),
    (''.etd'', ''application/x-ebx''),
    (''.exe'', ''application/x-msdownload''),
    (''.fax'', ''image/fax''),
    (''.fdf'', ''application/vnd.fdf''),
    (''.fif'', ''application/fractals''),
    (''.fo'', ''text/xml''),
    (''.frm'', ''application/x-frm''),
    (''.g4'', ''application/x-g4''),
    (''.gbr'', ''application/x-gbr''),
    (''.gif'', ''image/gif''),
    (''.gl2'', ''application/x-gl2''),
    (''.gp4'', ''application/x-gp4''),
    (''.gz'', ''application/x-gzip''),
    (''.hgl'', ''application/x-hgl''),
    (''.hlp'', ''application/mshelp''),
    (''.hmr'', ''application/x-hmr''),
    (''.hpg'', ''application/x-hpgl''),
    (''.hpl'', ''application/x-hpl''),
    (''.hqx'', ''application/mac-binhex40''),
    (''.hrf'', ''application/x-hrf''),
    (''.hta'', ''application/hta''),
    (''.htc'', ''text/x-component''),
    (''.htm'', ''text/html''),
    (''.html'', ''text/html''),
    (''.hts'', ''text/html''),
    (''.htt'', ''text/webviewhtml''),
    (''.htx'', ''text/html''),
    (''.icb'', ''application/x-icb''),
    (''.ico'', ''application/x-ico''),
    (''.iff'', ''application/x-iff''),
    (''.ig4'', ''application/x-g4''),
    (''.igs'', ''application/x-igs''),
    (''.iii'', ''application/x-iphone''),
    (''.img'', ''application/x-img''),
    (''.ins'', ''application/x-internet-signup''),
    (''.isp'', ''application/x-internet-signup''),
    (''.jar'', ''application/java-archive''),
    (''.java'', ''java/*''),
    (''.jfif'', ''image/jpeg''),
    (''.jpe'', ''image/jpeg''),
    (''.jpeg'', ''image/jpeg''),
    (''.jpg'', ''image/jpeg''),
    (''.jpz'', ''image/jpeg''),
    (''.js'', ''text/javascript'')]"

definition mime_entries_2 :: "(string \<times> string) list" where
  "mime_entries_2 = [
    (''.json'', ''application/json''),
    (''.jsp'', ''text/html''),
    (''.la1'', ''audio/x-liquid-file''),
    (''.lar'', ''application/x-laplayer-reg''),
    (''.latex'', ''application/x-latex''),
    (''.lavs'', ''audio/x-liquid-secure''),
    (''.lbm'', ''application/x-lbm''),
    (''.lmsff'', ''audio/x-la-lms''),
    (''.log'', ''text/plain''),
    (''.ls'', ''application/x-javascript''),
    (''.ltr'', ''application/x-ltr''),
    (''.m1v'', ''video/x-mpeg''),
    (''.m2v'', ''video/x-mpeg''),
    (''.m3u'', ''audio/mpegurl''),
    (''.m4e'', ''video/mpeg4''),
    (''.mac'', ''application/x-mac''),
    (''.man'', ''application/x-troff-man''),
    (''.math'', ''text/xml''),
    (''.mdb'', ''application/x-mdb''),
    (''.mfp'', ''application/x-shockwave-flash''),
    (''.mht'', ''message/rfc822''),
    (''.mhtml'', ''message/rfc822''),
    (''.mi'', ''application/x-mi''),
    (''.mid'', ''audio/midi''),
    (''.midi'', ''audio/midi''),
    (''.mil'', ''application/x-mil''),
    (''.mml'', ''text/xml''),
    (''.mnd'', ''audio/x-musicnet-download''),
    (''.mns'', ''audio/x-musicnet-stream''),
    (''.mocha'', ''application/x-javascript''),
    (''.mov'', ''video/quicktime''),
    (''.movie'', ''video/x-sgi-movie''),
    (''.mp1'', ''audio/mp1''),
    (''.mp2'', ''audio/x-mpeg''),
    (''.mp2v'', ''video/mpeg''),
    (''.mp3'', ''audio/x-mpeg''),
    (''.mp4'', ''video/mp4''),
    (''.mpa'', ''video/x-mpg''),
    (''.mpd'', ''application/vnd.ms-project''),
    (''.mpe'', ''video/mpeg''),
    (''.mpeg'', ''video/mpeg''),
    (''.mpg'', ''video/mpeg''),
    (''.mpg4'', ''video/mp4''),
    (''.mpga'', ''video/mpeg''),
    (''.mpp'', ''application/vnd.ms-project''),
    (''.mps'', ''video/x-mpeg''),
    (''.mpt'', ''application/vnd.ms-project''),
    (''.mpv'', ''video/mpg''),
    (''.mpv2'', ''video/mpeg''),
    (''.mpw'', ''application/vnd.ms-project''),
    (''.mpx'', ''application/vnd.ms-project''),
    (''.mtx'', ''text/xml''),
    (''.mxp'', ''application/x-mmxp''),
    (''.net'', ''image/pnetvue''),
    (''.nrf'', ''application/x-nrf''),
    (''.nws'', ''message/rfc822''),
    (''.odc'', ''text/x-ms-odc''),
    (''.out'', ''application/x-out''),
    (''.p10'', ''application/pkcs10''),
    (''.p12'', ''application/x-pkcs12''),
    (''.p7b'', ''application/x-pkcs7-certificates''),
    (''.p7c'', ''application/pkcs7-mime''),
    (''.p7m'', ''application/pkcs7-mime''),
    (''.p7r'', ''application/x-pkcs7-certreqresp''),
    (''.p7s'', ''application/pkcs7-signature''),
    (''.pc5'', ''application/x-pc5''),
    (''.pci'', ''application/x-pci''),
    (''.pcl'', ''application/x-pcl''),
    (''.pcx'', ''application/x-pcx''),
    (''.pdf'', ''application/pdf''),
    (''.pdx'', ''application/vnd.adobe.pdx''),
    (''.pfx'', ''application/x-pkcs12''),
    (''.pgl'', ''application/x-pgl''),
    (''.pic'', ''application/x-pic''),
    (''.pko'', ''application/vnd.ms-pki.pko''),
    (''.pl'', ''application/x-perl''),
    (''.plg'', ''text/html''),
    (''.pls'', ''audio/scpls''),
    (''.plt'', ''application/x-plt''),
    (''.png'', ''image/png''),
    (''.pot'', ''application/mspowerpoint''),
    (''.ppa'', ''application/vnd.ms-powerpoint''),
    (''.ppm'', ''application/x-ppm''),
    (''.pps'', ''application/mspowerpoint''),
    (''.ppt'', ''application/mspowerpoint''),
    (''.ppz'', ''application/mspowerpoint''),
    (''.pr'', ''application/x-pr''),
    (''.prf'', ''application/pics-rules''),
    (''.prn'', ''application/x-prn''),
    (''.prt'', ''application/x-prt''),
    (''.ps'', ''application/postscript''),
    (''.ptn'', ''application/x-ptn''),
    (''.pwz'', ''application/vnd.ms-powerpoint''),
    (''.r3t'', ''text/vnd.rn-realtext3d''),
    (''.ra'', ''audio/vnd.rn-realaudio''),
    (''.ram'', ''audio/x-pn-realaudio''),
    (''.rar'', ''application/x-rar-compressed''),
    (''.ras'', ''application/x-ras''),
    (''.rat'', ''application/rat-file''),
    (''.rdf'', ''text/xml''),
    (''.rec'', ''application/vnd.rn-recording''),
    (''.red'', ''application/x-red''),
    (''.rgb'', ''application/x-rgb''),
    (''.rjs'', ''application/vnd.rn-realsystem-rjs''),
    (''.rjt'', ''application/vnd.rn-realsystem-rjt''),
    (''.rlc'', ''application/x-rlc''),
    (''.rle'', ''application/x-rle''),
    (''.rm'', ''audio/x-pn-realaudio''),
    (''.rmf'', ''application/vnd.adobe.rmf''),
    (''.rmi'', ''audio/mid''),
    (''.rmj'', ''application/vnd.rn-realsystem-rmj''),
    (''.rmm'', ''audio/x-pn-realaudio''),
    (''.rmp'', ''application/vnd.rn-rn_music_package''),
    (''.rms'', ''application/vnd.rn-realmedia-secure''),
    (''.rmvb'', ''audio/x-pn-realaudio'')]"

definition mime_entries_3 :: "(string \<times> string) list" where
  "mime_entries_3 = [
    (''.rmx'', ''application/vnd.rn-realsystem-rmx''),
    (''.rnx'', ''application/vnd.rn-realplayer''),
    (''.rp'', ''image/vnd.rn-realpix''),
    (''.rpm'', ''audio/x-pn-realaudio-plugin''),
    (''.rsml'', ''application/vnd.rn-rsml''),
    (''.rt'', ''text/vnd.rn-realtext''),
    (''.rtf'', ''application/rtf''),
    (''.rv'', ''video/vnd.rn-realvideo''),
    (''.sam'', ''application/x-sam''),
    (''.sat'', ''application/x-sat''),
    (''.sdp'', ''application/sdp''),
    (''.sdw'', ''application/x-sdw''),
    (''.shtml'', ''text/html''),
    (''.sit'', ''application/x-stuffit''),
    (''.slb'', ''application/x-slb''),
    (''.sld'', ''application/x-sld''),
    (''.slk'', ''drawing/x-slk''),
    (''.smi'', ''application/smil''),
    (''.smil'', ''application/smil''),
    (''.smk'', ''application/x-smk''),
    (''.snd'', ''audio/basic''),
    (''.sol'', ''text/plain''),
    (''.sor'', ''text/plain''),
    (''.spc'', ''application/x-pkcs7-certificates''),
    (''.spl'', ''application/futuresplash''),
    (''.spp'', ''text/xml''),
    (''.ssm'', ''application/streamingmedia''),
    (''.sst'', ''application/vnd.ms-pki.certstore''),
    (''.stl'', ''application/vnd.ms-pki.stl''),
    (''.stm'', ''text/html''),
    (''.sty'', ''application/x-sty''),
    (''.svg'', ''text/xml''),
    (''.swf'', ''application/x-shockwave-flash''),
    (''.swfl'', ''application/x-shockwave-flash''),
    (''.tar'', ''application/x-tar''),
    (''.tdf'', ''application/x-tdf''),
    (''.tg4'', ''application/x-tg4''),
    (''.tga'', ''application/x-tga''),
    (''.tgz'', ''application/x-tar''),
    (''.tif'', ''application/x-tif''),
    (''.tiff'', ''image/tiff''),
    (''.tld'', ''text/xml''),
    (''.top'', ''drawing/x-top''),
    (''.torrent'', ''application/x-bittorrent''),
    (''.tsd'', ''text/xml''),
    (''.txt'', ''text/plain''),
    (''.uin'', ''application/x-icq''),
    (''.uls'', ''text/iuls''),
    (''.vcf'', ''text/x-vcard''),
    (''.vda'', ''application/x-vda''),
    (''.vdx'', ''application/vnd.visio''),
    (''.vml'', ''text/xml''),
    (''.vpg'', ''application/x-vpeg005''),
    (''.vsd'', ''application/x-vsd''),
    (''.vss'', ''application/vnd.visio''),
    (''.vst'', ''application/x-vst''),
    (''.vsw'', ''application/vnd.visio''),
    (''.vsx'', ''application/vnd.visio''),
    (''.vtx'', ''application/vnd.visio''),
    (''.vxml'', ''text/xml''),
    (''.wav'', ''audio/wav''),
    (''.wax'', ''audio/x-ms-wax''),
    (''.wb1'', ''application/x-wb1''),
    (''.wb2'', ''application/x-wb2''),
    (''.wb3'', ''application/x-wb3''),
    (''.wbmp'', ''image/vnd.wap.wbmp''),
    (''.wiz'', ''application/msword''),
    (''.wk3'', ''application/x-wk3''),
    (''.wk4'', ''application/x-wk4''),
    (''.wkq'', ''application/x-wkq''),
    (''.wks'', ''application/x-wks''),
    (''.wm'', ''video/x-ms-wm''),
    (''.wma'', ''audio/x-ms-wma''),
    (''.wmd'', ''application/x-ms-wmd''),
    (''.wmf'', ''application/x-wmf''),
    (''.wml'', ''text/vnd.wap.wml''),
    (''.wmv'', ''audio/x-ms-wmv''),
    (''.wmx'', ''video/x-ms-wmx''),
    (''.wmz'', ''application/x-ms-wmz''),
    (''.wp6'', ''application/x-wp6''),
    (''.wpd'', ''application/x-wpd''),
    (''.wpg'', ''application/x-wpg''),
    (''.wpl'', ''application/vnd.ms-wpl''),
    (''.wq1'', ''application/x-wq1''),
    (''.wr1'', ''application/x-wr1''),
    (''.wri'', ''application/x-wri''),
    (''.wrk'', ''application/x-wrk''),
    (''.ws'', ''application/x-ws''),
    (''.ws2'', ''application/x-ws''),
    (''.wsc'', ''text/scriptlet''),
    (''.wsdl'', ''text/xml''),
    (''.wvx'', ''video/x-ms-wvx''),
    (''.x_b'', ''application/x-x_b''),
    (''.x_t'', ''application/x-x_t''),
    (''.xdp'', ''application/vnd.adobe.xdp''),
    (''.xdr'', ''text/xml''),
    (''.xfd'', ''application/vnd.adobe.xfd''),
    (''.xfdf'', ''application/vnd.adobe.xfdf''),
    (''.xht'', ''application/xhtml+xml''),
    (''.xhtm'', ''application/xhtml+xml''),
    (''.xhtml'', ''application/xhtml+xml''),
    (''.xla'', ''application/msexcel''),
    (''.xls'', ''application/msexcel''),
    (''.xlw'', ''application/x-xlw''),
    (''.xml'', ''text/xml''),
    (''.xpl'', ''audio/scpls''),
    (''.xq'', ''text/xml''),
    (''.xql'', ''text/xml''),
    (''.xquery'', ''text/xml''),
    (''.xsd'', ''text/xml''),
    (''.xsl'', ''text/xml''),
    (''.xslt'', ''text/xml''),
    (''.xwd'', ''application/x-xwd''),
    (''.zip'', ''application/zip'')]"

text \<open>The constructor: the assignments, in order, on an empty map.\<close>

definition mime_entries :: "(string \<times> string) list" where
  "mime_entries = mime_entries_1 @ mime_entries_2 @ mime_entries_3"

definition MimeType_new :: "toupper \<Rightarrow> MimeType" where
  "MimeType_new up = \<lparr>
     mime_types = std_map_of (IgnoreCaseMimeTypeComparator up) mime_entries,
     default_mime_type = ''application/octet-stream''\<rparr>"

text \<open>\<open>MimeType::operator()\<close>.\<close>

definition MimeType_call :: "toupper \<Rightarrow> MimeType \<Rightarrow> string \<Rightarrow> string" where
  "MimeType_call up self file_suffix =
     (case std_map_find (IgnoreCaseMimeTypeComparator up) file_suffix (mime_types self) of
        Some v \<Rightarrow> v
      | None \<Rightarrow> default_mime_type self)"

definition classic_toupper :: toupper where
  "classic_toupper c =
     (let n = of_char c :: int
      in if 97 \<le> n \<and> n \<le> 122 then n - 32 else if n \<ge> 128 then n - 256 else n)"

subsection \<open>The comparator\<close>

lemma comparator_eq:
  "IgnoreCaseMimeTypeComparator up = lexicographical_compare (\<lambda>a b. up a < up b)"
  by (intro ext) (simp add: IgnoreCaseMimeTypeComparator_def is_iless_def [abs_def])

interpretation mime_order: strict_weak_order "IgnoreCaseMimeTypeComparator up" for up
  unfolding comparator_eq by (rule lexicographical_compare_swo)

lemma comparator_equiv:
  "map up x = map up y \<longleftrightarrow>
    \<not> IgnoreCaseMimeTypeComparator up x y \<and> \<not> IgnoreCaseMimeTypeComparator up y x"
  unfolding comparator_eq by (rule lexicographical_compare_swo)

subsection \<open>Lookup\<close>

lemma mime_find:
  "std_map_find (IgnoreCaseMimeTypeComparator up) s (std_map_of (IgnoreCaseMimeTypeComparator up) kvs) =
    map_of (rev (map (\<lambda>(k, v). (map up k, v)) kvs)) (map up s)"
  by (rule mime_order.find_std_map_of) (rule comparator_equiv)

lemma MimeType_call_eq:
  "MimeType_call up (MimeType_new up) s =
    (case map_of (rev (map (\<lambda>(k, v). (map up k, v)) mime_entries)) (map up s) of
       Some v \<Rightarrow> v | None \<Rightarrow> ''application/octet-stream'')"
  by (simp add: MimeType_call_def MimeType_new_def mime_find split: option.splits)

text \<open>Every key of the table starts with a dot.\<close>

definition dotted :: "(string \<times> string) list \<Rightarrow> bool" where
  "dotted kvs = list_all (\<lambda>(k, v). case k of [] \<Rightarrow> False | c # _ \<Rightarrow> c = CHR ''.'') kvs"

lemma dotted_entries: "dotted mime_entries"
  by (simp add: dotted_def mime_entries_def mime_entries_1_def mime_entries_2_def mime_entries_3_def)

lemma map_of_dotted_None:
  assumes "dotted kvs" and "up c \<noteq> up (CHR ''.'')"
  shows "map_of (rev (map (\<lambda>(k, v). (map up k, v)) kvs)) (up c # s) = None"
proof -
  have "(k, v) \<in> set kvs \<Longrightarrow> map up k \<noteq> up c # s" for k v
    using assms by (cases k) (auto simp: dotted_def list_all_iff)
  then show ?thesis
    by (fastforce simp: map_of_eq_None_iff)
qed

lemma MimeType_call_undotted:
  "up c \<noteq> up (CHR ''.'') \<Longrightarrow>
   MimeType_call up (MimeType_new up) (c # s) = ''application/octet-stream''"
  by (simp add: MimeType_call_eq map_of_dotted_None [OF dotted_entries])


text \<open>No key of the table contains a slash, so no path with a slash finds an entry.\<close>

definition slash_free :: "(string \<times> string) list \<Rightarrow> bool" where
  "slash_free kvs = list_all (\<lambda>(k, v). CHR ''/'' \<notin> set k) kvs"

lemma slash_free_entries: "slash_free mime_entries"
  by (simp add: slash_free_def mime_entries_def mime_entries_1_def mime_entries_2_def mime_entries_3_def)

text \<open>\<open>up\<close> identifies no other character with the slash.\<close>

definition keeps_slash :: "toupper \<Rightarrow> bool" where
  "keeps_slash up = (\<forall>c. up c = up (CHR ''/'') \<longrightarrow> c = CHR ''/'')"

lemma of_char_slash: "(of_char c :: int) = 47 \<Longrightarrow> c = CHR ''/''"
proof -
  assume "(of_char c :: int) = 47"
  then have "(of_char c :: int) = of_char (CHR ''/'')" by simp
  then show ?thesis by (simp only: of_char_eq_iff)
qed

lemma classic_keeps_slash: "keeps_slash classic_toupper"
proof -
  have "classic_toupper c = 47 \<Longrightarrow> (of_char c :: int) = 47" for c
  proof -
    assume a: "classic_toupper c = 47"
    have "(of_char c :: int) = int (of_char c)" "(of_char c :: nat) < 256"
      by (simp_all only: of_nat_of_char nat_of_char_less_256)
    then have "(of_char c :: int) < 256" by linarith
    with a show ?thesis by (auto simp: classic_toupper_def Let_def split: if_splits)
  qed
  moreover have "classic_toupper (CHR ''/'') = 47" by (simp add: classic_toupper_def)
  ultimately show ?thesis using of_char_slash by (auto simp: keeps_slash_def)
qed

lemma MimeType_call_slash:
  assumes "keeps_slash up" and "CHR ''/'' \<in> set s"
  shows "MimeType_call up (MimeType_new up) s = ''application/octet-stream''"
proof -
  have "map up k \<noteq> map up s" if "(k, v) \<in> set mime_entries" for k v
  proof
    assume "map up k = map up s"
    then have "up (CHR ''/'') \<in> up ` set k" using assms(2) by (metis image_eqI list.set_map)
    then have "CHR ''/'' \<in> set k" using assms(1) by (force simp: keeps_slash_def)
    with that slash_free_entries show False by (auto simp: slash_free_def list_all_iff)
  qed
  then have "map_of (rev (map (\<lambda>(k, v). (map up k, v)) mime_entries)) (map up s) = None"
    by (fastforce simp: map_of_eq_None_iff)
  then show ?thesis by (simp add: MimeType_call_eq)
qed

lemma map_of_map_find:
  "map_of (map (\<lambda>(k, v). (f k, v)) kvs) x = map_option snd (find (\<lambda>(k, v). f k = x) kvs)"
  by (induction kvs) (simp_all add: split_beta)

lemma map_of_rev_find:
  "(case map_of (rev (map (\<lambda>(k, v). (f k, v)) kvs)) x of Some v \<Rightarrow> v | None \<Rightarrow> d) =
   (case find (\<lambda>(k, v). f k = x) (rev kvs) of Some (k, v) \<Rightarrow> v | None \<Rightarrow> d)"
  unfolding rev_map map_of_map_find by (simp add: split_beta split: option.split)

subsection \<open>Properties\<close>

text \<open>
  C30: looking a suffix up in the constructed table ignores case in the key and in the table,
  and answers with the last assignment of the constructor to that suffix, or with
  \<open>application/octet-stream\<close> when there is none, for every \<open>toupper\<close>.
\<close>

theorem MimeType_lookup:
  "MimeType_call up (MimeType_new up) s =
    (case find (\<lambda>(k, v). map up k = map up s) (rev mime_entries) of
       Some (k, v) \<Rightarrow> v
     | None \<Rightarrow> ''application/octet-stream'')"
  by (simp only: MimeType_call_eq map_of_rev_find)

end
