(* ===== verification/Http_Request.thy ===== *)
theory Http_Request
  imports Mime_Type
begin

text \<open>
  The request router of \<open>src/http/http_channel.cpp\<close>: \<open>pathConcat\<close> and \<open>handleRequest\<close>.
  \<open>handleRequest\<close> answers by opening at most one file and passing one response to its
  callback; the model returns these calls in order as \<open>request_effect\<close>s.

  Parameters (\<open>http_host\<close>): the operating system's answer to \<open>fileBody.open\<close> (error code and
  size of the file), \<open>error_code::message\<close>, the macro \<open>BOOST_BEAST_VERSION_STRING\<close> and
  \<open>std::toupper\<close> of the MIME table.
\<close>

datatype verb = Get | Head | OtherVerb nat

record http_request =
  req_method :: verb
  req_target :: string
  req_version :: nat
  req_keep_alive :: bool
  req_is_upgrade :: bool   \<comment> \<open>the answer of \<open>websocket::is_upgrade\<close> on the request\<close>

datatype http_status = StatusOk | BadRequest | NotFound | InternalServerError

record response_head =
  status :: http_status
  resp_version :: nat
  resp_server :: string
  content_type :: string
  resp_keep_alive :: bool

text \<open>
  The three response types of the source: \<open>ResponseToRequestType\<close> (a string body, length set
  by \<open>prepare_payload\<close>), \<open>ResponseEmptyType\<close> and \<open>ResponseFileType\<close> (with the
  \<open>content_length\<close> the source sets; the file is named by the path it was opened with).
\<close>

datatype response =
    StringResponse response_head string
  | EmptyResponse response_head nat
  | FileResponse response_head nat string

fun head_of :: "response \<Rightarrow> response_head" where
  "head_of (StringResponse h _) = h"
| "head_of (EmptyResponse h _) = h"
| "head_of (FileResponse h _ _) = h"

datatype request_effect = OpenFile string | Send response

record http_host =
  open_file :: "string \<Rightarrow> error_code \<times> nat"
  ec_message :: "error_code \<Rightarrow> string"
  beast_version :: string
  to_upper :: toupper

subsection \<open>Paths\<close>

definition pathConcat :: "string \<Rightarrow> string \<Rightarrow> string" where
  "pathConcat base path =
     (if base = [] then path
      else (let result = base;
                result = (if last result = CHR ''/'' then butlast result else result)
            in result @ path))"

subsection \<open>Responses\<close>

definition error_head :: "http_host \<Rightarrow> http_request \<Rightarrow> http_status \<Rightarrow> response_head" where
  "error_head H req st = \<lparr>status = st, resp_version = req_version req,
     resp_server = beast_version H, content_type = ''text/html'',
     resp_keep_alive = req_keep_alive req\<rparr>"

definition bad_request :: "http_host \<Rightarrow> http_request \<Rightarrow> string \<Rightarrow> response" where
  "bad_request H req why = StringResponse (error_head H req BadRequest) why"

definition not_found :: "http_host \<Rightarrow> http_request \<Rightarrow> string \<Rightarrow> response" where
  "not_found H req target = StringResponse (error_head H req NotFound)
     (''The resource '' @ [CHR 0x27] @ target @ [CHR 0x27] @ '' was not found.'')"

definition server_error :: "http_host \<Rightarrow> http_request \<Rightarrow> string \<Rightarrow> response" where
  "server_error H req what = StringResponse (error_head H req InternalServerError)
     (''An error occurred: '' @ [CHR 0x27] @ what @ [CHR 0x27])"

definition ok_head :: "http_host \<Rightarrow> http_request \<Rightarrow> string \<Rightarrow> response_head" where
  "ok_head H req path = \<lparr>status = StatusOk, resp_version = req_version req,
     resp_server = beast_version H,
     content_type = MimeType_call (to_upper H) (MimeType_new (to_upper H)) path,
     resp_keep_alive = req_keep_alive req\<rparr>"

text \<open>\<open>req.target().empty() || req.target()[0] != '/' || req.target().find("..") != npos\<close>\<close>

definition illegal_target :: "string \<Rightarrow> bool" where
  "illegal_target t = (case t of [] \<Rightarrow> True
     | c # _ \<Rightarrow> c \<noteq> CHR ''/'' \<or> contains ''..'' t)"

text \<open>The path of the file that answers a legal target.\<close>

definition file_path :: "string \<Rightarrow> string \<Rightarrow> string" where
  "file_path doc_root target =
     (let path = pathConcat doc_root target
      in if last target = CHR ''/'' then path @ ''index.html'' else path)"

definition handleRequest ::
  "build \<Rightarrow> http_host \<Rightarrow> string \<Rightarrow> http_request \<Rightarrow> response option \<Rightarrow> request_effect list result" where
  "handleRequest b H doc_root req custom_response =
     (if custom_response \<noteq> None then Inr [Send (bad_request H req ''Not allowed'')]
      else if req_method req \<noteq> Get \<and> req_method req \<noteq> Head then
        Inr [Send (bad_request H req ''Unknown HTTP-method'')]
      else if illegal_target (req_target req) then
        Inr [Send (bad_request H req ''Illegal request-target'')]
      else
        (let path = file_path doc_root (req_target req);
             (ec, size) = open_file H path
         in if ec = NoSuchFile then
              Inr [OpenFile path, Send (not_found H req (req_target req))]
            else if failed ec then
              Inr [OpenFile path, Send (server_error H req (ec_message H ec))]
            else if req_method req = Head then
              Inr [OpenFile path, Send (EmptyResponse (ok_head H req path) size)]
            else dcheck b ''req.method() == beast::http::verb::get'' (req_method req = Get)
              (Inr [OpenFile path, Send (FileResponse (ok_head H req path) size path)])))"

subsection \<open>Lemmas\<close>

lemma pathConcat_root [simp]: "pathConcat ''/'' path = path"
  by (simp add: pathConcat_def)

lemma illegal_target_simps [simp]:
  "illegal_target []"
  "illegal_target (c # t) \<longleftrightarrow> c \<noteq> CHR ''/'' \<or> contains ''..'' (c # t)"
  by (simp_all add: illegal_target_def)

lemma legal_target: "\<not> illegal_target t \<Longrightarrow> \<exists>u. t = CHR ''/'' # u \<and> \<not> contains ''..'' t"
  by (cases t) auto

text \<open>Two dots cannot arise where a slash meets a string without two dots.\<close>

lemma contains_dotdot_append:
  "contains ''..'' (a @ CHR ''/'' # c) \<longleftrightarrow> contains ''..'' a \<or> contains ''..'' (CHR ''/'' # c)"
proof (induction a)
  case Nil
  then show ?case by simp
next
  case (Cons x a)
  then show ?case by (cases a) auto
qed

lemma contains_butlast: "contains ''..'' (butlast a) \<Longrightarrow> contains ''..'' a"
  unfolding contains_iff
  by (metis append.assoc append_butlast_last_id butlast.simps(1))

lemma pathConcat_dotdot:
  assumes "contains ''..'' (pathConcat doc_root (CHR ''/'' # u))"
  shows "contains ''..'' doc_root \<or> contains ''..'' (CHR ''/'' # u)"
proof (cases "doc_root = []")
  case True
  with assms show ?thesis by (simp add: pathConcat_def)
next
  case False
  let ?a = "if last doc_root = CHR ''/'' then butlast doc_root else doc_root"
  from False have "pathConcat doc_root (CHR ''/'' # u) = ?a @ CHR ''/'' # u"
    by (simp add: pathConcat_def)
  with assms have "contains ''..'' ?a \<or> contains ''..'' (CHR ''/'' # u)"
    by (simp only: contains_dotdot_append)
  then show ?thesis using contains_butlast [of doc_root] by (auto split: if_splits)
qed

lemma contains_index_html:
  "p \<noteq> [] \<Longrightarrow> last p = CHR ''/'' \<Longrightarrow> contains ''..'' (p @ ''index.html'') \<Longrightarrow> contains ''..'' p"
proof -
  assume "p \<noteq> []" and "last p = CHR ''/''" and c: "contains ''..'' (p @ ''index.html'')"
  then obtain q where q: "p = q @ [CHR ''/'']"
    by (metis append_butlast_last_id)
  from c have "contains ''..'' (q @ CHR ''/'' # ''index.html'')" by (simp add: q)
  then have "contains ''..'' q" by (simp only: contains_dotdot_append) simp
  then show "contains ''..'' p" by (simp add: q contains_dotdot_append)
qed

lemma pathConcat_not_Nil: "path \<noteq> [] \<Longrightarrow> pathConcat r path \<noteq> []"
  by (simp add: pathConcat_def)

lemma last_pathConcat: "path \<noteq> [] \<Longrightarrow> last (pathConcat r path) = last path"
  by (simp add: pathConcat_def Let_def)

lemma file_path_dotdot:
  assumes "\<not> illegal_target t" and "\<not> contains ''..'' doc_root"
  shows "\<not> contains ''..'' (file_path doc_root t)"
proof
  assume c: "contains ''..'' (file_path doc_root t)"
  from assms obtain u where t: "t = CHR ''/'' # u" and no: "\<not> contains ''..'' t"
    using legal_target by blast
  have "contains ''..'' (pathConcat doc_root t)"
  proof (cases "last t = CHR ''/''")
    case True
    with c have "contains ''..'' (pathConcat doc_root t @ ''index.html'')"
      by (simp only: file_path_def Let_def if_True simp_thms)
    moreover have "pathConcat doc_root t \<noteq> []" "last (pathConcat doc_root t) = CHR ''/''"
      using True t by (simp_all add: pathConcat_not_Nil last_pathConcat)
    ultimately show ?thesis by (blast intro: contains_index_html)
  next
    case False
    with c show ?thesis by (simp only: file_path_def Let_def if_False)
  qed
  with pathConcat_dotdot assms(2) no t show False by blast
qed

text \<open>The document root without its trailing slash is a prefix of every file path.\<close>

definition stripped_root :: "string \<Rightarrow> string" where
  "stripped_root r = (if r \<noteq> [] \<and> last r = CHR ''/'' then butlast r else r)"

lemma file_path_prefix: "prefix (stripped_root r @ t) (file_path r t)"
  by (auto simp: file_path_def pathConcat_def stripped_root_def Let_def)

text \<open>The shape of every answer: at most one file is opened, one response is sent, last.\<close>

lemma handleRequest_cases:
  "\<exists>r. handleRequest b H d req c = Inr [Send r] \<or>
       (handleRequest b H d req c = Inr [OpenFile (file_path d (req_target req)), Send r] \<and>
        \<not> illegal_target (req_target req) \<and> c = None \<and> req_method req \<in> {Get, Head})"
  by (auto simp: handleRequest_def Let_def split: prod.splits)


text \<open>What the file path of a legal target looks like, for the properties.\<close>

lemma handleRequest_opens:
  assumes "handleRequest b H d req c = Inr es" and "OpenFile p \<in> set es"
  shows "\<not> illegal_target (req_target req) \<and> p = file_path d (req_target req)"
  using assms handleRequest_cases [of b H d req c] by auto

lemma file_path_slash: "\<not> illegal_target t \<Longrightarrow> CHR ''/'' \<in> set (file_path d t)"
  by (cases t) (auto simp: file_path_def pathConcat_def Let_def)

text \<open>A concrete host for evaluation: one file of 12 bytes at \<open>/srv/a.html\<close>.\<close>

definition demo_host :: http_host where
  "demo_host = \<lparr>
     open_file = (\<lambda>p. if p = ''/srv/a.html'' then (Success, 12) else (NoSuchFile, 0)),
     ec_message = (\<lambda>_. ''error''),
     beast_version = ''Boost.Beast'',
     to_upper = classic_toupper\<rparr>"

definition demo_get :: http_request where
  "demo_get = \<lparr>req_method = Get, req_target = ''/a.html'', req_version = 11,
     req_keep_alive = True, req_is_upgrade = False\<rparr>"

lemma demo_handleRequest:
  "handleRequest Debug demo_host ''/srv'' demo_get None =
    Inr [OpenFile ''/srv/a.html'',
         Send (FileResponse (ok_head demo_host demo_get ''/srv/a.html'') 12 ''/srv/a.html'')]"
  by (simp add: handleRequest_def demo_host_def demo_get_def file_path_def pathConcat_def Let_def)

subsection \<open>Properties\<close>

text \<open>
  C10: whatever the request, a file that \<open>handleRequest\<close> opens lies under the document root
  (without its trailing slash) and its path has no \<open>..\<close>, provided the configured root has
  none; the request target is the remainder of the path, possibly with \<open>index.html\<close>.
\<close>

theorem handleRequest_confined:
  assumes "\<not> contains ''..'' doc_root"
    and "handleRequest b H doc_root req c = Inr es"
    and "OpenFile p \<in> set es"
  shows "\<not> contains ''..'' p \<and> prefix (stripped_root doc_root @ req_target req) p"
  using handleRequest_opens [OF assms(2,3)] assms(1) file_path_dotdot file_path_prefix by blast

theorem handleRequest_confined_witness:
  "\<not> contains ''..'' ''/srv/a.html'' \<and> prefix (stripped_root ''/srv'' @ ''/a.html'') ''/srv/a.html''"
  using handleRequest_confined [OF _ demo_handleRequest, of "''/srv/a.html''"]
  by (simp add: demo_get_def)

text \<open>
  C32: \<open>handleRequest\<close> returns on every request in every build, and exactly one response is
  passed to the callback, after at most one file was opened; the response repeats the HTTP
  version and the keep-alive of the request and names the server.
\<close>

theorem handleRequest_one_response:
  "\<exists>es r. handleRequest b H doc_root req custom = Inr (es @ [Send r]) \<and>
     (es = [] \<or> es = [OpenFile (file_path doc_root (req_target req))]) \<and>
     resp_version (head_of r) = req_version req \<and>
     resp_keep_alive (head_of r) = req_keep_alive req \<and>
     resp_server (head_of r) = beast_version H"
  by (auto simp: handleRequest_def Let_def bad_request_def not_found_def server_error_def
      error_head_def ok_head_def split: prod.splits)

text \<open>
  C33: the status of the response. The request is rejected as bad before any file is touched
  exactly when it has a custom response, another method than GET or HEAD, or an illegal
  target; otherwise the result of opening the file decides between 404, 500 and 200, and the
  length announced by a 200 is the size of the opened file.
\<close>

theorem handleRequest_status:
  "\<exists>es r. handleRequest b H doc_root req custom = Inr (es @ [Send r]) \<and>
     (let bad = custom \<noteq> None \<or> req_method req \<notin> {Get, Head} \<or> illegal_target (req_target req);
          (ec, size) = open_file H (file_path doc_root (req_target req))
      in (es = [] \<longleftrightarrow> bad) \<and>
         status (head_of r) = (if bad then BadRequest else if ec = NoSuchFile then NotFound
           else if ec = Success then StatusOk else InternalServerError) \<and>
         (case r of StringResponse h body \<Rightarrow> status h \<noteq> StatusOk
          | EmptyResponse h n \<Rightarrow> req_method req = Head \<and> n = size \<and> ec = Success
          | FileResponse h n p \<Rightarrow> req_method req = Get \<and> n = size \<and> ec = Success \<and>
              p = file_path doc_root (req_target req)))"
  by (auto simp: handleRequest_def Let_def bad_request_def not_found_def server_error_def
      error_head_def ok_head_def failed_def split: prod.splits)

theorem handleRequest_status_witness:
  "\<exists>es r. handleRequest Debug demo_host ''/srv'' (demo_get\<lparr>req_target := ''/none''\<rparr>) None = Inr (es @ [Send r]) \<and>
    status (head_of r) = NotFound"
  using handleRequest_status [of Debug demo_host "''/srv''" "demo_get\<lparr>req_target := ''/none''\<rparr>" None]
  by (auto simp: demo_host_def demo_get_def file_path_def pathConcat_def Let_def)

text \<open>
  A HEAD request is answered with the header of the GET request for the same target, and
  it opens the same file.
\<close>

theorem handleRequest_head_get:
  "\<exists>es r r'. handleRequest b H doc_root (req\<lparr>req_method := Head\<rparr>) custom = Inr (es @ [Send r]) \<and>
     handleRequest b H doc_root (req\<lparr>req_method := Get\<rparr>) custom = Inr (es @ [Send r']) \<and>
     head_of r = head_of r' \<and> (\<forall>h n p. r' = FileResponse h n p \<longrightarrow> r = EmptyResponse h n)"
  by (auto simp: handleRequest_def Let_def bad_request_def not_found_def server_error_def
      error_head_def ok_head_def split: prod.splits)

theorem handleRequest_head_get_witness:
  "\<exists>es r. handleRequest Debug demo_host ''/srv'' (demo_get\<lparr>req_method := Head\<rparr>) None =
      Inr (es @ [Send r]) \<and> r = EmptyResponse (ok_head demo_host demo_get ''/srv/a.html'') 12"
proof -
  have g: "demo_get\<lparr>req_method := Get\<rparr> = demo_get" by (simp add: demo_get_def)
  show ?thesis
    using handleRequest_head_get [of Debug demo_host "''/srv''" demo_get None]
    by (auto simp: demo_handleRequest g)
qed

text \<open>
  C34: every successful response is labelled \<open>application/octet-stream\<close>, whatever the suffix of
  the file: the source passes the whole path to \<open>mime_type\<close>, which expects the suffix, and a
  path contains a slash while no key of the table does.
\<close>

theorem handleRequest_content_type:
  assumes "keeps_slash (to_upper H)"
    and "handleRequest b H doc_root req custom = Inr (es @ [Send r])"
    and "status (head_of r) = StatusOk"
  shows "content_type (head_of r) = ''application/octet-stream''"
proof -
  let ?p = "file_path doc_root (req_target req)"
  from assms(2,3) have "\<not> illegal_target (req_target req)" and "head_of r = ok_head H req ?p"
    by (auto simp: handleRequest_def Let_def bad_request_def not_found_def server_error_def
        error_head_def dcheck_Inr split: prod.splits if_splits)
  then show ?thesis
    using MimeType_call_slash [OF assms(1)] file_path_slash by (simp add: ok_head_def)
qed

theorem handleRequest_content_type_witness:
  "content_type (ok_head demo_host demo_get ''/srv/a.html'') = ''application/octet-stream''"
  using handleRequest_content_type [of demo_host Debug "''/srv''" demo_get None
      "[OpenFile ''/srv/a.html'']" "FileResponse (ok_head demo_host demo_get ''/srv/a.html'') 12 ''/srv/a.html''"]
  by (simp add: demo_handleRequest) (simp add: demo_host_def classic_keeps_slash ok_head_def)

end
