(* ===== verification/Channel_State.thy ===== *)
theory Channel_State
  imports Sockets Http_Request
begin

text \<open>
  The state of the per-connection objects and the components that travel through the ECS
  registry: \<open>DetectChannel\<close> (\<open>include/flexnet/http/detect_channel.hpp\<close>), \<open>HttpChannel\<close>
  (\<open>include/flexnet/http/http_channel.hpp\<close>), \<open>WsChannel\<close>
  (\<open>include/flexnet/websocket/ws_channel.hpp\<close>), \<open>Listener::AcceptConnectionResult\<close>
  (\<open>include/flexnet/websocket/listener.hpp\<close>), \<open>TcpConnection\<close>
  (\<open>include/flexnet/ECS/components/tcp_connection.hpp\<close>).

  Field names follow the members, without the trailing underscore and with a prefix where two
  classes share a name. A member that the source moves out of is a \<open>movable\<close>. The strand of a
  connection is not a field: \<open>exec_env\<close> says on which runner a handler executes.
\<close>

type_synonym entity = nat

record 's DetectChannel =
  dc_stream :: "'s tcp_stream movable"
  dc_is_stream_valid :: bool
  dc_buffer :: "string movable"
  dc_is_buffer_valid :: bool
  dc_detect_done :: bool
  dc_entity_id :: entity

record 's SSLDetectResult =
  dr_ec :: error_code
  dr_handshakeResult :: bool
  dr_stream :: "'s tcp_stream movable"
  dr_buffer :: "string movable"
  dr_need_close :: bool

record 's HttpChannel =
  hc_stream :: "'s tcp_stream movable"
  hc_can_schedule_callbacks :: bool
  hc_is_stream_valid :: bool
  hc_buffer :: string
  hc_parser :: "nat option"   \<comment> \<open>\<open>parser_\<close>: its body limit\<close>
  hc_entity_id :: entity

record QueuedMessage =
  qm_data :: "string option"  \<comment> \<open>\<open>shared_ptr<const string>\<close>, possibly null\<close>
  qm_is_binary :: bool

text \<open>The options the source sets on \<open>beast::websocket::stream\<close>.\<close>

record ws_options =
  opt_auto_fragment :: bool
  opt_pmd_client_enable :: bool
  opt_pmd_server_enable :: bool
  opt_pmd_compLevel :: nat
  opt_pmd_memLevel :: nat
  opt_read_message_max :: nat
  opt_handshake_timeout :: nat
  opt_idle_timeout :: nat
  opt_keep_alive_pings :: bool
  opt_server :: string
  opt_binary :: bool

record ('s, 'q) WsChannel =
  ws_lowest_layer :: "'s tcp_stream"
  ws_options :: ws_options
  isSendBusy :: bool
  readBuffer :: string
  wc_entity_id :: entity
  sendBuffer :: 'q
  wc_can_schedule_callbacks :: bool

record 's AcceptConnectionResult =
  ar_ec :: error_code
  ar_socket :: "'s movable"
  ar_need_close :: bool

text \<open>\<open>TcpConnection\<close>: the context variables the source stores in \<open>context\<close>.\<close>

record ('s, 'q) TcpConnection =
  ctx_strand :: bool                              \<comment> \<open>\<open>Listener::StrandComponent\<close> present\<close>
  ctx_detect_channel :: "'s DetectChannel option"
  ctx_http_channel :: "'s HttpChannel option"
  ctx_ws_channel :: "('s, 'q) WsChannel option"

definition TcpConnection_new :: "('s, 'q) TcpConnection" where
  "TcpConnection_new = \<lparr>ctx_strand = False, ctx_detect_channel = None,
     ctx_http_channel = None, ctx_ws_channel = None\<rparr>"

subsection \<open>Components of the registry\<close>

datatype tag =
    UnusedTag
  | NeedToDestroyTag
  | DelayedConstruction
  | DelayedConstructionJustDone
  | UnusedAcceptResultTag
  | UnusedSSLDetectResultTag
  | ChildrenToDestroy          \<comment> \<open>\<open>Internal_ChildrenToDestroy\<close>\<close>

datatype kind = KTag tag | KTcp | KAccept | KSSL | KRecieved

datatype ('s, 'q) component =
    CTag tag
  | CTcp "('s, 'q) TcpConnection"
  | CAccept "'s AcceptConnectionResult"
  | CSSL "'s SSLDetectResult"
  | CRecieved string           \<comment> \<open>\<open>RecievedData\<close>\<close>

fun kind_of :: "('s, 'q) component \<Rightarrow> kind" where
  "kind_of (CTag t) = KTag t"
| "kind_of (CTcp _) = KTcp"
| "kind_of (CAccept _) = KAccept"
| "kind_of (CSSL _) = KSSL"
| "kind_of (CRecieved _) = KRecieved"

end
