(* ===== verification/Circular_Buffer.thy ===== *)
theory Circular_Buffer
  imports Channel_State
begin

text \<open>
  \<open>WsChannel::CircularMessageBuffer\<close> of \<open>include/flexnet/websocket/ws_channel.hpp\<close>: a thin
  wrapper of \<open>boost::circular_buffer\<close>. The container is Boost's: a value of an arbitrary type
  \<open>'q\<close> with the operations of a \<open>circular_api\<close>. The locale \<open>circular_storage\<close> states their
  documented behaviour through \<open>contents\<close>, the list of stored messages from the oldest to the
  newest: \<open>push_back\<close> on a full buffer overwrites the oldest element. \<open>front\<close>, \<open>back\<close>,
  \<open>pop_front\<close> and \<open>pop_back\<close> require a non-empty buffer.

  \<open>ring\<close> is an executable container with these laws, used by the witnesses.
\<close>

record 'q circular_api =
  cb_new :: "nat \<Rightarrow> 'q"
  cb_push_back :: "'q \<Rightarrow> QueuedMessage \<Rightarrow> 'q"
  cb_front :: "'q \<Rightarrow> QueuedMessage"
  cb_back :: "'q \<Rightarrow> QueuedMessage"
  cb_pop_front :: "'q \<Rightarrow> 'q"
  cb_pop_back :: "'q \<Rightarrow> 'q"
  cb_size :: "'q \<Rightarrow> nat"
  cb_capacity :: "'q \<Rightarrow> nat"

text \<open>The methods of the wrapper.\<close>

definition writeBack :: "'q circular_api \<Rightarrow> QueuedMessage \<Rightarrow> 'q \<Rightarrow> 'q" where
  "writeBack C m q = cb_push_back C q m"

definition isEmpty :: "'q circular_api \<Rightarrow> 'q \<Rightarrow> bool" where
  "isEmpty C q = (cb_size C q = 0)"

definition isFull :: "'q circular_api \<Rightarrow> 'q \<Rightarrow> bool" where
  "isFull C q = (cb_size C q = cb_capacity C q)"

definition buffer_size :: "'q circular_api \<Rightarrow> 'q \<Rightarrow> nat" where
  "buffer_size C q = cb_size C q"

definition buffer_capacity :: "'q circular_api \<Rightarrow> 'q \<Rightarrow> nat" where
  "buffer_capacity C q = cb_capacity C q"

definition frontPtr :: "'q circular_api \<Rightarrow> 'q \<Rightarrow> QueuedMessage result" where
  "frontPtr C q = requires ''circular_buffer::front'' (\<not> isEmpty C q) (Inr (cb_front C q))"

definition backPtr :: "'q circular_api \<Rightarrow> 'q \<Rightarrow> QueuedMessage result" where
  "backPtr C q = requires ''circular_buffer::back'' (\<not> isEmpty C q) (Inr (cb_back C q))"

definition popFront :: "'q circular_api \<Rightarrow> 'q \<Rightarrow> 'q result" where
  "popFront C q = requires ''circular_buffer::pop_front'' (\<not> isEmpty C q) (Inr (cb_pop_front C q))"

definition popBack :: "'q circular_api \<Rightarrow> 'q \<Rightarrow> 'q result" where
  "popBack C q = requires ''circular_buffer::pop_back'' (\<not> isEmpty C q) (Inr (cb_pop_back C q))"

text \<open>The list the container is documented to hold after \<open>push_back\<close>.\<close>

definition pushed :: "nat \<Rightarrow> 'm list \<Rightarrow> 'm \<Rightarrow> 'm list" where
  "pushed cap ms m = (if cap = 0 then [] else if length ms < cap then ms @ [m] else tl ms @ [m])"

locale circular_storage =
  fixes C :: "'q circular_api"
    and contents :: "'q \<Rightarrow> QueuedMessage list"
  assumes contents_new: "contents (cb_new C n) = []"
    and capacity_new: "cb_capacity C (cb_new C n) = n"
    and contents_push: "contents (cb_push_back C q m) = pushed (cb_capacity C q) (contents q) m"
    and capacity_push: "cb_capacity C (cb_push_back C q m) = cb_capacity C q"
    and contents_front: "contents q \<noteq> [] \<Longrightarrow> cb_front C q = hd (contents q)"
    and contents_back: "contents q \<noteq> [] \<Longrightarrow> cb_back C q = last (contents q)"
    and contents_pop_front: "contents q \<noteq> [] \<Longrightarrow> contents (cb_pop_front C q) = tl (contents q)"
    and contents_pop_back: "contents q \<noteq> [] \<Longrightarrow> contents (cb_pop_back C q) = butlast (contents q)"
    and capacity_pop_front: "cb_capacity C (cb_pop_front C q) = cb_capacity C q"
    and capacity_pop_back: "cb_capacity C (cb_pop_back C q) = cb_capacity C q"
    and contents_size: "cb_size C q = length (contents q)"
begin

lemma isEmpty_iff [simp]: "isEmpty C q \<longleftrightarrow> contents q = []"
  by (simp add: isEmpty_def contents_size)

lemma isFull_iff: "isFull C q \<longleftrightarrow> length (contents q) = cb_capacity C q"
  by (simp add: isFull_def contents_size)

lemma contents_writeBack [simp]:
  "contents (writeBack C m q) = pushed (cb_capacity C q) (contents q) m"
  by (simp add: writeBack_def contents_push)

lemma capacity_writeBack [simp]: "cb_capacity C (writeBack C m q) = cb_capacity C q"
  by (simp add: writeBack_def capacity_push)

lemma backPtr_spec: "contents q \<noteq> [] \<Longrightarrow> backPtr C q = Inr (last (contents q))"
  by (simp add: backPtr_def contents_back)

lemma popBack_spec:
  "contents q \<noteq> [] \<Longrightarrow> popBack C q = Inr (cb_pop_back C q) \<and>
     contents (cb_pop_back C q) = butlast (contents q)"
  by (simp add: popBack_def contents_pop_back)

lemma popBack_empty: "contents q = [] \<Longrightarrow> popBack C q = Inl (UNDEFINED ''circular_buffer::pop_back'')"
  by (simp add: popBack_def)

text \<open>A buffer within its capacity stays within it.\<close>

lemma writeBack_bound:
  "length (contents q) \<le> cb_capacity C q \<Longrightarrow>
   length (contents (writeBack C m q)) \<le> cb_capacity C q"
  by (auto simp: pushed_def)

lemma writeBack_newest:
  "0 < cb_capacity C q \<Longrightarrow> contents (writeBack C m q) \<noteq> [] \<and> last (contents (writeBack C m q)) = m"
  by (simp add: pushed_def)

end

subsection \<open>Many writes\<close>

text \<open>The capacity bounds what a sequence of writes leaves: the newest \<open>cap\<close> messages.\<close>

lemma fold_pushed:
  assumes "0 < cap" and "length ms \<le> cap"
  shows "foldl (pushed cap) ms xs = drop (length ms + length xs - cap) (ms @ xs)"
  using assms(2)
proof (induction xs arbitrary: ms)
  case Nil
  then show ?case by simp
next
  case (Cons x xs)
  show ?case
  proof (cases "length ms < cap")
    case True
    then have p: "pushed cap ms x = ms @ [x]" by (simp add: pushed_def)
    with Cons.IH [of "ms @ [x]"] True show ?thesis by simp
  next
    case False
    with Cons.prems have l: "length ms = cap" by simp
    with assms(1) obtain y ys where ms: "ms = y # ys" by (cases ms) auto
    have cap: "cap = Suc (length ys)" using l ms by simp
    then have p: "pushed cap (y # ys) x = ys @ [x]" by (simp add: pushed_def)
    have "length (ys @ [x]) \<le> cap" using cap by simp
    from Cons.IH [OF this] p show ?thesis by (simp add: ms cap)
  qed
qed

subsection \<open>An executable container\<close>

record ring =
  ring_cap :: nat
  ring_items :: "QueuedMessage list"

definition ring_api :: "ring circular_api" where
  "ring_api = \<lparr>
     cb_new = (\<lambda>n. \<lparr>ring_cap = n, ring_items = []\<rparr>),
     cb_push_back = (\<lambda>q m. q\<lparr>ring_items := pushed (ring_cap q) (ring_items q) m\<rparr>),
     cb_front = (\<lambda>q. hd (ring_items q)),
     cb_back = (\<lambda>q. last (ring_items q)),
     cb_pop_front = (\<lambda>q. q\<lparr>ring_items := tl (ring_items q)\<rparr>),
     cb_pop_back = (\<lambda>q. q\<lparr>ring_items := butlast (ring_items q)\<rparr>),
     cb_size = (\<lambda>q. length (ring_items q)),
     cb_capacity = ring_cap\<rparr>"

interpretation ring: circular_storage ring_api ring_items
  by unfold_locales (simp_all add: ring_api_def)

end
