(* ===== verification/Registry.thy ===== *)
theory Registry
  imports Channel_State
begin

text \<open>
  The ECS registry (\<open>ECS::SafeRegistry\<close>, EnTT) as the source calls it. EnTT is not part of
  the repository: a registry is a value of an arbitrary type \<open>'r\<close> with the operations of a
  \<open>registry_api\<close>. The locale \<open>registry\<close> states their documented behaviour as its assumptions
  and holds what every client proves from them; \<open>ref_registry\<close> is an executable registry
  that satisfies them, on which the witnesses of the development run.

  \<open>emplace\<close> and \<open>get\<close> have the preconditions that EnTT asserts: a call outside them is an
  \<open>UNDEFINED\<close> abort, so the guards of the source (\<open>if(!has) emplace\<close>) are visible.
\<close>

record ('r, 's, 'q) registry_api =
  reg_valid :: "'r \<Rightarrow> entity \<Rightarrow> bool"
  reg_find :: "'r \<Rightarrow> entity \<Rightarrow> kind \<Rightarrow> ('s, 'q) component option"
  reg_create :: "'r \<Rightarrow> entity \<times> 'r"
  reg_set :: "'r \<Rightarrow> entity \<Rightarrow> ('s, 'q) component \<Rightarrow> 'r"
  reg_remove :: "'r \<Rightarrow> entity \<Rightarrow> kind \<Rightarrow> 'r"
  reg_destroy :: "'r \<Rightarrow> entity \<Rightarrow> 'r"
  reg_view :: "'r \<Rightarrow> kind list \<Rightarrow> kind list \<Rightarrow> entity list"

definition reg_has :: "('r, 's, 'q) registry_api \<Rightarrow> 'r \<Rightarrow> entity \<Rightarrow> kind \<Rightarrow> bool" where
  "reg_has R r e k = (reg_find R r e k \<noteq> None)"

text \<open>\<open>registry->emplace<T>(entity, \<dots>)\<close>\<close>

definition reg_emplace ::
  "('r, 's, 'q) registry_api \<Rightarrow> entity \<Rightarrow> ('s, 'q) component \<Rightarrow> 'r \<Rightarrow> 'r result" where
  "reg_emplace R e c r =
     requires ''emplace'' (reg_valid R r e \<and> \<not> reg_has R r e (kind_of c)) (Inr (reg_set R r e c))"

text \<open>\<open>if(!registry->has<Tag>(entity)) registry->emplace<Tag>(entity)\<close>\<close>

definition ensure_tag ::
  "('r, 's, 'q) registry_api \<Rightarrow> entity \<Rightarrow> tag \<Rightarrow> 'r \<Rightarrow> 'r result" where
  "ensure_tag R e t r = (if \<not> reg_has R r e (KTag t) then reg_emplace R e (CTag t) r else Inr r)"

text \<open>\<open>registry->get<TcpConnection>(entity)\<close>\<close>

definition with_tcp ::
  "('r, 's, 'q) registry_api \<Rightarrow> 'r \<Rightarrow> entity \<Rightarrow> (('s, 'q) TcpConnection \<Rightarrow> 'a result) \<Rightarrow> 'a result" where
  "with_tcp R r e k = (case reg_find R r e KTcp of
     Some (CTcp t) \<Rightarrow> k t | _ \<Rightarrow> Inl (UNDEFINED ''get<TcpConnection>''))"

subsection \<open>What clients prove from the laws\<close>

locale registry =
  fixes R :: "('r, 's, 'q) registry_api"
  assumes find_valid: "reg_find R r e k = Some c \<Longrightarrow> reg_valid R r e"
    and find_kind: "reg_find R r e k = Some c \<Longrightarrow> kind_of c = k"
    and valid_set [simp]:
      "reg_valid R r e \<Longrightarrow> reg_valid R (reg_set R r e c) x = reg_valid R r x"
    and find_set [simp]:
      "reg_valid R r e \<Longrightarrow> reg_find R (reg_set R r e c) x k =
         (if x = e \<and> k = kind_of c then Some c else reg_find R r x k)"
    and valid_remove [simp]: "reg_valid R (reg_remove R r e j) x = reg_valid R r x"
    and find_remove [simp]:
      "reg_find R (reg_remove R r e j) x k = (if x = e \<and> k = j then None else reg_find R r x k)"
    and create_fresh: "reg_create R r = (e, r') \<Longrightarrow> \<not> reg_valid R r e"
    and create_valid: "reg_create R r = (e, r') \<Longrightarrow> reg_valid R r' x \<longleftrightarrow> x = e \<or> reg_valid R r x"
    and create_find: "reg_create R r = (e, r') \<Longrightarrow> reg_find R r' x k = reg_find R r x k"
    and valid_destroy [simp]: "reg_valid R (reg_destroy R r e) x \<longleftrightarrow> x \<noteq> e \<and> reg_valid R r x"
    and find_destroy [simp]:
      "reg_find R (reg_destroy R r e) x k = (if x = e then None else reg_find R r x k)"
    and distinct_view [simp]: "distinct (reg_view R r inc exc)"
    and set_view_find:
      "e \<in> set (reg_view R r inc exc) \<longleftrightarrow> reg_valid R r e \<and>
         (\<forall>k \<in> set inc. reg_find R r e k \<noteq> None) \<and> (\<forall>k \<in> set exc. reg_find R r e k = None)"
begin

lemma has_valid: "reg_has R r e k \<Longrightarrow> reg_valid R r e"
  by (auto simp: reg_has_def dest: find_valid)

lemma invalid_find: "\<not> reg_valid R r e \<Longrightarrow> reg_find R r e k = None"
  using find_valid by (cases "reg_find R r e k") auto

lemma set_view:
  "e \<in> set (reg_view R r inc exc) \<longleftrightarrow> reg_valid R r e \<and>
     (\<forall>k \<in> set inc. reg_has R r e k) \<and> (\<forall>k \<in> set exc. \<not> reg_has R r e k)"
  by (simp add: set_view_find reg_has_def)

lemma has_set [simp]:
  "reg_valid R r e \<Longrightarrow> reg_has R (reg_set R r e c) x k \<longleftrightarrow> x = e \<and> k = kind_of c \<or> reg_has R r x k"
  by (auto simp: reg_has_def)

lemma has_remove [simp]:
  "reg_has R (reg_remove R r e j) x k \<longleftrightarrow> \<not> (x = e \<and> k = j) \<and> reg_has R r x k"
  by (simp add: reg_has_def)

lemma has_destroy [simp]: "reg_has R (reg_destroy R r e) x k \<longleftrightarrow> x \<noteq> e \<and> reg_has R r x k"
  by (simp add: reg_has_def)

lemma create_has: "reg_create R r = (e, r') \<Longrightarrow> reg_has R r' x k = reg_has R r x k"
  by (simp add: reg_has_def create_find)

lemma created_has_none: "reg_create R r = (e, r') \<Longrightarrow> \<not> reg_has R r' e k"
  using create_fresh create_find invalid_find by (simp add: reg_has_def)

lemma tcp_found: "reg_has R r e KTcp \<Longrightarrow> \<exists>t. reg_find R r e KTcp = Some (CTcp t)"
proof -
  assume "reg_has R r e KTcp"
  then obtain c where c: "reg_find R r e KTcp = Some c" by (auto simp: reg_has_def)
  then have "kind_of c = KTcp" by (rule find_kind)
  with c show ?thesis by (cases c) auto
qed

lemma with_tcp_has: "reg_has R r e KTcp \<Longrightarrow>
    \<exists>t. reg_find R r e KTcp = Some (CTcp t) \<and> with_tcp R r e k = k t"
  using tcp_found by (fastforce simp: with_tcp_def)

lemma ensure_tag_spec:
  "reg_valid R r e \<Longrightarrow> ensure_tag R e t r =
     Inr (if reg_has R r e (KTag t) then r else reg_set R r e (CTag t))"
  by (simp add: ensure_tag_def reg_emplace_def)

text \<open>A view without conditions is empty exactly if no entity is alive.\<close>

lemma registry_empty_view: "reg_view R r [] [] = [] \<longleftrightarrow> (\<forall>x. \<not> reg_valid R r x)"
  using set_view [of _ r "[]" "[]"] by (metis empty_iff empty_set last_in_set list.set_intros(1) neq_Nil_conv)

text \<open>Tagging: what a client sees after \<open>ensure_tag\<close>.\<close>

lemma ensure_tag_effect:
  assumes "reg_valid R r e"
  shows "\<exists>r'. ensure_tag R e t r = Inr r' \<and>
    (\<forall>x. reg_valid R r' x = reg_valid R r x) \<and>
    (\<forall>x k. reg_has R r' x k \<longleftrightarrow> x = e \<and> k = KTag t \<or> reg_has R r x k) \<and>
    (\<forall>x k. \<not> (x = e \<and> k = KTag t) \<longrightarrow> reg_find R r' x k = reg_find R r x k)"
  using assms by (auto simp: ensure_tag_spec)

text \<open>Destroying a list of entities.\<close>

lemma fold_destroy:
  "reg_valid R (fold (\<lambda>e r. reg_destroy R r e) es r) x \<longleftrightarrow> x \<notin> set es \<and> reg_valid R r x"
  "reg_find R (fold (\<lambda>e r. reg_destroy R r e) es r) x k = (if x \<in> set es then None else reg_find R r x k)"
  by (induction es arbitrary: r) auto

end

subsection \<open>The reference registry\<close>

record ('s, 'q) ref_registry =
  rr_next :: entity
  rr_alive :: "entity list"
  rr_components :: "((entity \<times> kind) \<times> ('s, 'q) component) list"

definition ref_empty :: "('s, 'q) ref_registry" where
  "ref_empty = \<lparr>rr_next = 0, rr_alive = [], rr_components = []\<rparr>"

text \<open>Entities below \<open>rr_next\<close> that are alive; component entries of other entities do not count.\<close>

definition ref_valid :: "('s, 'q) ref_registry \<Rightarrow> entity \<Rightarrow> bool" where
  "ref_valid r e = (e < rr_next r \<and> e \<in> set (rr_alive r))"

definition ref_find ::
  "('s, 'q) ref_registry \<Rightarrow> entity \<Rightarrow> kind \<Rightarrow> ('s, 'q) component option" where
  "ref_find r e k = (if ref_valid r e then
     (case map_of (rr_components r) (e, k) of
        Some c \<Rightarrow> if kind_of c = k then Some c else None | None \<Rightarrow> None) else None)"

definition drop_entity ::
  "entity \<Rightarrow> ((entity \<times> kind) \<times> ('s, 'q) component) list \<Rightarrow> ((entity \<times> kind) \<times> ('s, 'q) component) list" where
  "drop_entity e cs = filter (\<lambda>((x, k), c). x \<noteq> e) cs"

definition ref_api :: "(('s, 'q) ref_registry, 's, 'q) registry_api" where
  "ref_api = \<lparr>
     reg_valid = ref_valid,
     reg_find = ref_find,
     reg_create = (\<lambda>r. (rr_next r, r\<lparr>rr_next := Suc (rr_next r),
       rr_alive := rr_next r # filter (\<lambda>x. x \<noteq> rr_next r) (rr_alive r),
       rr_components := drop_entity (rr_next r) (rr_components r)\<rparr>)),
     reg_set = (\<lambda>r e c. r\<lparr>rr_components := ((e, kind_of c), c) # rr_components r\<rparr>),
     reg_remove = (\<lambda>r e k. r\<lparr>rr_components := filter (\<lambda>(i, c). i \<noteq> (e, k)) (rr_components r)\<rparr>),
     reg_destroy = (\<lambda>r e. r\<lparr>rr_alive := filter (\<lambda>x. x \<noteq> e) (rr_alive r),
       rr_components := drop_entity e (rr_components r)\<rparr>),
     reg_view = (\<lambda>r inc exc. filter (\<lambda>e. ref_valid r e \<and>
       list_all (\<lambda>k. ref_find r e k \<noteq> None) inc \<and> list_all (\<lambda>k. ref_find r e k = None) exc)
       (remdups (rr_alive r)))\<rparr>"

lemma map_of_drop_entity:
  "map_of (drop_entity e cs) (x, k) = (if x = e then None else map_of cs (x, k))"
  by (induction cs) (auto simp: drop_entity_def)

lemma map_of_filter_key:
  "map_of (filter (\<lambda>(i, c). i \<noteq> j) cs) i = (if i = j then None else map_of cs i)"
  by (induction cs) auto

interpretation ref: registry "ref_api :: (('s, 'q) ref_registry, 's, 'q) registry_api"
proof (unfold_locales, goal_cases)
  case (1 r e k c)
  then show ?case by (simp add: ref_api_def ref_find_def split: if_splits)
next
  case (2 r e k c)
  then show ?case by (simp add: ref_api_def ref_find_def split: if_splits option.splits)
next
  case (3 r e c x)
  then show ?case by (simp add: ref_api_def ref_valid_def)
next
  case (4 r e c x k)
  then show ?case by (auto simp: ref_api_def ref_valid_def ref_find_def)
next
  case (5 r e j x)
  then show ?case by (simp add: ref_api_def ref_valid_def)
next
  case (6 r e j x k)
  then show ?case by (auto simp: ref_api_def ref_valid_def ref_find_def map_of_filter_key)
next
  case (7 r e r')
  then show ?case by (auto simp: ref_api_def ref_valid_def)
next
  case (8 r e r' x)
  then show ?case by (auto simp: ref_api_def ref_valid_def)
next
  case (9 r e r' x k)
  then show ?case by (auto simp: ref_api_def ref_valid_def ref_find_def map_of_drop_entity)
next
  case (10 r e x)
  then show ?case by (auto simp: ref_api_def ref_valid_def)
next
  case (11 r e x k)
  then show ?case by (auto simp: ref_api_def ref_valid_def ref_find_def map_of_drop_entity)
next
  case (12 r inc exc)
  then show ?case by (simp add: ref_api_def)
next
  case (13 e r inc exc)
  then show ?case by (auto simp: ref_api_def ref_valid_def list_all_iff)
qed


text \<open>A registry for evaluation: entity 7 with a fresh \<open>TcpConnection\<close>.\<close>

definition demo_registry :: "(demo_socket, 'q) ref_registry" where
  "demo_registry = \<lparr>rr_next = 8, rr_alive = [7], rr_components = [((7, KTcp), CTcp TcpConnection_new)]\<rparr>"

lemma demo_registry_create: "fst (reg_create ref_api demo_registry) = 8"
  by (simp add: ref_api_def demo_registry_def)

lemma demo_registry_find:
  "reg_find ref_api demo_registry 7 KTcp = Some (CTcp TcpConnection_new)"
  "reg_valid ref_api demo_registry 7"
  "\<not> reg_valid ref_api demo_registry 8"
  by (simp_all add: ref_api_def ref_find_def ref_valid_def demo_registry_def)

end
