(* ===== verification/Unused_Marker.thy ===== *)
theory Unused_Marker
  imports Registry
begin

text \<open>
  The contract of "mark the entity as unused", which both \<open>HttpChannel::markUnused\<close> and
  \<open>WsChannel::markUnused\<close> promise to the task that runs them on the registry: nothing happens
  to an entity that is already gone, a valid entity carries \<open>ECS::UnusedTag\<close> afterwards, and
  nothing else changes. The lemmas say that the call may be posted any number of times, in any
  order, as the comment in the headers expects. Also the verbosity with which both channels
  report a failure.
\<close>

locale unused_marker = registry R
  for R :: "('r, 's, 'q) registry_api" +
  fixes mark :: "entity \<Rightarrow> 'r \<Rightarrow> 'r result"
  assumes mark_gone: "\<not> reg_valid R r e \<Longrightarrow> mark e r = Inr r"
    and mark_marked: "reg_has R r e (KTag UnusedTag) \<Longrightarrow> mark e r = Inr r"
    and mark_valid: "reg_valid R r e \<Longrightarrow> \<not> reg_has R r e (KTag UnusedTag) \<Longrightarrow>
      mark e r = Inr (reg_set R r e (CTag UnusedTag))"
begin

lemma mark_effect:
  "\<exists>r'. mark e r = Inr r' \<and>
     (\<forall>x. reg_valid R r' x = reg_valid R r x) \<and>
     (\<forall>x k. reg_has R r' x k \<longleftrightarrow>
        reg_valid R r e \<and> x = e \<and> k = KTag UnusedTag \<or> reg_has R r x k)"
proof (cases "reg_valid R r e")
  case False
  then show ?thesis by (simp add: mark_gone)
next
  case True
  then show ?thesis
    by (cases "reg_has R r e (KTag UnusedTag)") (auto simp: mark_marked mark_valid)
qed

lemma mark_again: "mark e r = Inr r' \<Longrightarrow> mark e r' = Inr r'"
  by (cases "reg_valid R r e"; cases "reg_has R r e (KTag UnusedTag)")
     (auto simp: mark_gone mark_marked mark_valid)

lemma mark_repeat: "foldM mark (replicate (Suc n) e) r = mark e r"
proof -
  obtain r' where r': "mark e r = Inr r'" using mark_effect by blast
  then have "mark e r' = Inr r'" by (rule mark_again)
  then have "foldM mark (replicate n e) r' = Inr r'" by (induction n) auto
  with r' show ?thesis by simp
qed

text \<open>After a burst of marks, exactly the valid entities among them carry the tag in addition.\<close>

lemma marks_effect:
  "\<exists>r'. foldM mark es r = Inr r' \<and>
     (\<forall>x. reg_valid R r' x = reg_valid R r x) \<and>
     (\<forall>x k. reg_has R r' x k \<longleftrightarrow>
        reg_valid R r x \<and> x \<in> set es \<and> k = KTag UnusedTag \<or> reg_has R r x k)"
proof (induction es arbitrary: r)
  case Nil
  then show ?case by simp
next
  case (Cons e es)
  obtain r1 where r1: "mark e r = Inr r1"
    "\<And>x. reg_valid R r1 x = reg_valid R r x"
    "\<And>x k. reg_has R r1 x k \<longleftrightarrow>
      reg_valid R r e \<and> x = e \<and> k = KTag UnusedTag \<or> reg_has R r x k"
    using mark_effect [of e r] by blast
  from Cons [of r1] r1 show ?case by (auto simp: r1)
qed

end

subsection \<open>Reporting failures\<close>

datatype log_level = Dvlog | LogWarning

definition fail_log_level :: "error_code \<Rightarrow> log_level" where
  "fail_log_level ec =
     (if ec = StreamTruncated then Dvlog
      else if ec = OperationAborted \<or> ec = WebsocketClosed then Dvlog
      else if ec = TimedOut then Dvlog
      else LogWarning)"

end
