(* ===== verification/Ws_Channel.thy ===== *)
theory Ws_Channel
  imports Circular_Buffer Unused_Marker
begin

text \<open>
  \<open>src/websocket/ws_channel.cpp\<close>, \<open>include/flexnet/websocket/ws_channel.hpp\<close>: one WebSocket
  connection. Every handler of the class is a function on \<open>WsChannel\<close> that returns the new
  object and the \<open>ws_effect\<close>s it caused, in order: operations it started on the stream, tasks
  it posted to its strand or to the registry, and failures it logged. What the handler reads
  from Beast is an argument: the error code of the completed operation, and \<open>ws_open\<close>, the
  answer of \<open>ws_.is_open()\<close>. Beast fills \<open>readBuffer\<close> between two handlers (\<open>call_fill\<close>).

  The debug flag \<open>can_schedule_callbacks_\<close> exists in debug builds only; the model keeps it as
  a ghost field in both and consults it through \<open>dcheck\<close>. Not modelled: weak pointers, the
  recursion counters \<open>DCHECK_FUNCTION_RECURSION\<close>, the lifetime of \<open>this\<close> in
  \<open>base::Unretained\<close> callbacks, message tracing.
\<close>

definition kMaxMessageSizeByte :: nat where "kMaxMessageSizeByte = 100000"
definition kMaxSendQueueSize :: nat where "kMaxSendQueueSize = 1000"
definition kCloseTimeoutSec :: nat where "kCloseTimeoutSec = 5"

datatype ws_effect =
    WsPostStartAccept http_request      \<comment> \<open>\<open>asio::post\<close> of \<open>startAccept\<close>\<close>
  | WsAsyncAccept http_request
  | WsAsyncRead
  | WsAsyncWrite string bool            \<comment> \<open>payload and \<open>ws_.binary\<close>\<close>
  | WsAsyncClose
  | WsPostMarkUnused entity
  | WsPostReceived string               \<comment> \<open>task \<open>allocateRecievedDataComponent\<close>\<close>
  | WsPostSend "string option" bool     \<comment> \<open>\<open>asio::post\<close> of \<open>send\<close>\<close>
  | WsLogFail log_level error_code string

subsection \<open>Construction and destruction\<close>

definition WsChannel_options :: "string \<Rightarrow> ws_options" where
  "WsChannel_options beast_version_string = \<lparr>
     opt_auto_fragment = True,
     opt_pmd_client_enable = True, opt_pmd_server_enable = True,
     opt_pmd_compLevel = 3, opt_pmd_memLevel = 4,
     opt_read_message_max = kMaxMessageSizeByte,
     opt_handshake_timeout = 30, opt_idle_timeout = 300, opt_keep_alive_pings = True,
     opt_server = beast_version_string @ '' websocket-server-async'',
     opt_binary = False\<rparr>"

definition WsChannel_new ::
  "'q circular_api \<Rightarrow> string \<Rightarrow> build \<Rightarrow> bool \<Rightarrow> 's tcp_stream \<Rightarrow> entity \<Rightarrow> ('s, 'q) WsChannel result" where
  "WsChannel_new C beast_version_string b ws_open stream entity_id =
     dcheck b ''!ws_.is_open()'' (\<not> ws_open)
     (dcheck b ''kMaxMessageSizeByte > 1'' (kMaxMessageSizeByte > 1)
     (Inr \<lparr>ws_lowest_layer = stream\<lparr>expiry := ExpiresNever\<rparr>,
           ws_options = WsChannel_options beast_version_string,
           isSendBusy = False,
           readBuffer = [],
           wc_entity_id = entity_id,
           sendBuffer = cb_new C kMaxSendQueueSize,
           wc_can_schedule_callbacks = True\<rparr>))"

definition WsChannel_delete :: "build \<Rightarrow> bool \<Rightarrow> ('s, 'q) WsChannel \<Rightarrow> unit result" where
  "WsChannel_delete b ws_open w =
     dcheck b ''!ws_.is_open()'' (\<not> ws_open) (dcheck b ''!isSendBusy_'' (\<not> isSendBusy w) (Inr ()))"

subsection \<open>Closing and failing\<close>

definition WsChannel_doEof ::
  "exec_env \<Rightarrow> bool \<Rightarrow> ('s, 'q) WsChannel \<Rightarrow> (('s, 'q) WsChannel \<times> ws_effect list) result" where
  "WsChannel_doEof E ws_open w =
     (let w = w\<lparr>wc_can_schedule_callbacks := False\<rparr>
      in run_on E ConnectionStrand
        (if ws_open then
           (let w = w\<lparr>ws_lowest_layer := (ws_lowest_layer w)\<lparr>expiry := ExpiresAfter kCloseTimeoutSec\<rparr>\<rparr>
            in Inr (w, [WsAsyncClose, WsPostMarkUnused (wc_entity_id w)]))
         else Inr (w, [WsPostMarkUnused (wc_entity_id w)])))"

definition WsChannel_onFail ::
  "exec_env \<Rightarrow> bool \<Rightarrow> error_code \<Rightarrow> string \<Rightarrow> ('s, 'q) WsChannel \<Rightarrow>
   (('s, 'q) WsChannel \<times> ws_effect list) result" where
  "WsChannel_onFail E ws_open ec what w =
     run_on E ConnectionStrand
       (emit [WsLogFail (fail_log_level ec) ec what] (WsChannel_doEof E ws_open w))"

definition WsChannel_onClose ::
  "exec_env \<Rightarrow> bool \<Rightarrow> error_code \<Rightarrow> ('s, 'q) WsChannel \<Rightarrow>
   (('s, 'q) WsChannel \<times> ws_effect list) result" where
  "WsChannel_onClose E ws_open ec w =
     run_on E ConnectionStrand
       (if failed ec then WsChannel_onFail E ws_open ec ''close'' w else Inr (w, []))"

definition WsChannel_markUnused ::
  "('r, 's, 'q) registry_api \<Rightarrow> exec_env \<Rightarrow> entity \<Rightarrow> 'r \<Rightarrow> 'r result" where
  "WsChannel_markUnused R E entity_id r =
     run_on E RegistrySequence
       (if \<not> reg_valid R r entity_id then Inr r
        else if \<not> reg_has R r entity_id (KTag UnusedTag)
        then reg_emplace R entity_id (CTag UnusedTag) r else Inr r)"

definition WsChannel_isOpen :: "exec_env \<Rightarrow> bool \<Rightarrow> bool result" where
  "WsChannel_isOpen E ws_open = run_on E ConnectionStrand (Inr ws_open)"

subsection \<open>Accepting and reading\<close>

definition startAcceptAsync ::
  "exec_env \<Rightarrow> http_request \<Rightarrow> ('s, 'q) WsChannel \<Rightarrow> (('s, 'q) WsChannel \<times> ws_effect list) result" where
  "startAcceptAsync E req w =
     dcheck (bld E) ''can_schedule_callbacks_'' (wc_can_schedule_callbacks w)
       (Inr (w, [WsPostStartAccept req]))"

definition startAccept ::
  "exec_env \<Rightarrow> http_request \<Rightarrow> ('s, 'q) WsChannel \<Rightarrow> (('s, 'q) WsChannel \<times> ws_effect list) result" where
  "startAccept E req w =
     run_on E ConnectionStrand
       (dcheck (bld E) ''can_schedule_callbacks_'' (wc_can_schedule_callbacks w)
         (Inr (w, [WsAsyncAccept req])))"

definition WsChannel_doRead ::
  "exec_env \<Rightarrow> ('s, 'q) WsChannel \<Rightarrow> (('s, 'q) WsChannel \<times> ws_effect list) result" where
  "WsChannel_doRead E w =
     run_on E ConnectionStrand
       (let w = w\<lparr>readBuffer := []\<rparr>
        in dcheck (bld E) ''can_schedule_callbacks_'' (wc_can_schedule_callbacks w)
             (Inr (w, [WsAsyncRead])))"

definition WsChannel_onAccept ::
  "exec_env \<Rightarrow> bool \<Rightarrow> error_code \<Rightarrow> ('s, 'q) WsChannel \<Rightarrow>
   (('s, 'q) WsChannel \<times> ws_effect list) result" where
  "WsChannel_onAccept E ws_open ec w =
     run_on E ConnectionStrand
       (if failed ec then WsChannel_onFail E ws_open ec ''accept'' w else WsChannel_doRead E w)"

definition WsChannel_onRead ::
  "exec_env \<Rightarrow> bool \<Rightarrow> error_code \<Rightarrow> ('s, 'q) WsChannel \<Rightarrow>
   (('s, 'q) WsChannel \<times> ws_effect list) result" where
  "WsChannel_onRead E ws_open ec w =
     run_on E ConnectionStrand
       (if failed ec then WsChannel_onFail E ws_open ec ''read'' w
        else if length (readBuffer w) = 0 then Inr (w, [])
        else if length (readBuffer w) > kMaxMessageSizeByte then Inr (w, [])
        else dcheck (bld E) ''can_schedule_callbacks_'' (wc_can_schedule_callbacks w)
          (emit [WsPostReceived (readBuffer w)]
            (let w = w\<lparr>readBuffer := []\<rparr> in WsChannel_doRead E w)))"

text \<open>
  The task of a received message. Parameters: the plug point (a plugin that returns a value
  takes the message over) and \<open>ECS::prependChildEntity\<close> of the \<open>basis\<close> library.
\<close>

definition allocateRecievedDataComponent ::
  "('r, 's, 'q) registry_api \<Rightarrow> (string \<Rightarrow> bool option) \<Rightarrow> ('r \<Rightarrow> entity \<Rightarrow> entity \<Rightarrow> 'r) \<Rightarrow>
   exec_env \<Rightarrow> entity \<Rightarrow> string \<Rightarrow> 'r \<Rightarrow> 'r result" where
  "allocateRecievedDataComponent R plug_point prependChildEntity E entity_id message r =
     run_on E RegistrySequence
       (case plug_point message of
          Some _ \<Rightarrow> Inr r
        | None \<Rightarrow>
          (let (msg_entity_id, r) = reg_create R r
           in andThen (reg_emplace R msg_entity_id (CRecieved message) r) (\<lambda>r.
                dcheck (bld E) ''registry_->valid(entity_id_)'' (reg_valid R r entity_id)
                (dcheck (bld E) ''registry_->valid(msg_entity_id)'' (reg_valid R r msg_entity_id)
                (Inr (prependChildEntity r entity_id msg_entity_id))))))"

subsection \<open>Sending\<close>

definition sendAsync ::
  "exec_env \<Rightarrow> string option \<Rightarrow> bool \<Rightarrow> ('s, 'q) WsChannel \<Rightarrow>
   (('s, 'q) WsChannel \<times> ws_effect list) result" where
  "sendAsync E message is_binary w =
     dcheck (bld E) ''message'' (message \<noteq> None)
     (case message of
        None \<Rightarrow> Inl (UNDEFINED ''*message'')
      | Some m \<Rightarrow>
          if m = [] then Inr (w, [])
          else if length m > kMaxMessageSizeByte then Inr (w, [])
          else dcheck (bld E) ''can_schedule_callbacks_'' (wc_can_schedule_callbacks w)
            (Inr (w, [WsPostSend message is_binary])))"

definition has_payload :: "QueuedMessage \<Rightarrow> bool" where
  "has_payload dp = (case qm_data dp of None \<Rightarrow> False | Some d \<Rightarrow> d \<noteq> [])"

definition writeQueued ::
  "'q circular_api \<Rightarrow> exec_env \<Rightarrow> ('s, 'q) WsChannel \<Rightarrow>
   (('s, 'q) WsChannel \<times> ws_effect list) result" where
  "writeQueued C E w =
     run_on E ConnectionStrand
     (dcheck (bld E) ''isSendBusy_'' (isSendBusy w)
     (dcheck (bld E) ''!sendBuffer_.isEmpty()'' (\<not> isEmpty C (sendBuffer w))
     (dcheck (bld E) ''sendBuffer_.backPtr()'' (returns (backPtr C (sendBuffer w)))
     (andThen (backPtr C (sendBuffer w)) (\<lambda>dp.
        dcheck (bld E) ''dp.data.get() && !dp.data->empty()'' (has_payload dp)
        (let w = w\<lparr>ws_options := (ws_options w)\<lparr>opt_binary := qm_is_binary dp\<rparr>\<rparr>
         in dcheck (bld E) ''can_schedule_callbacks_'' (wc_can_schedule_callbacks w)
            (case qm_data dp of
               None \<Rightarrow> Inl (UNDEFINED ''*(dp.data)'')
             | Some d \<Rightarrow> Inr (w, [WsAsyncWrite d (opt_binary (ws_options w))]))))))))"

definition WsChannel_send ::
  "'q circular_api \<Rightarrow> exec_env \<Rightarrow> string option \<Rightarrow> bool \<Rightarrow> ('s, 'q) WsChannel \<Rightarrow>
   (('s, 'q) WsChannel \<times> ws_effect list) result" where
  "WsChannel_send C E message is_binary w =
     run_on E ConnectionStrand
     (dcheck (bld E) ''message'' (message \<noteq> None)
     (dcheck (bld E) ''!message->empty()'' (message \<noteq> Some [])
     (dcheck (bld E) ''message->size() <= kMaxMessageSizeByte''
        (case message of None \<Rightarrow> True | Some m \<Rightarrow> length m \<le> kMaxMessageSizeByte)
     (let w = w\<lparr>sendBuffer := writeBack C \<lparr>qm_data = message, qm_is_binary = is_binary\<rparr> (sendBuffer w)\<rparr>
      in if isSendBusy w then Inr (w, []) else writeQueued C E w))))"

definition WsChannel_onWrite ::
  "'q circular_api \<Rightarrow> exec_env \<Rightarrow> bool \<Rightarrow> error_code \<Rightarrow> ('s, 'q) WsChannel \<Rightarrow>
   (('s, 'q) WsChannel \<times> ws_effect list) result" where
  "WsChannel_onWrite C E ws_open ec w =
     run_on E ConnectionStrand
     (dcheck (bld E) ''isSendBusy_'' (isSendBusy w)
     (if failed ec then WsChannel_onFail E ws_open ec ''write'' w
      else andThen (popBack C (sendBuffer w)) (\<lambda>q.
        let w = w\<lparr>sendBuffer := q\<rparr>
        in if \<not> isEmpty C (sendBuffer w) then writeQueued C E w
           else Inr (w\<lparr>isSendBusy := False\<rparr>, []))))"

end
