(* ===== verification/Http_Channel.thy ===== *)
theory Http_Channel
  imports Ws_Channel
begin

text \<open>
  \<open>src/http/http_channel.cpp\<close>, \<open>include/flexnet/http/http_channel.hpp\<close>: one HTTP connection.
  Handlers are functions on \<open>HttpChannel\<close> that return the new object and their
  \<open>http_effect\<close>s in order. The socket is a parameter (\<open>socket_api\<close>); the request that Beast
  has parsed, the error code of the completed operation and \<open>need_eof()\<close> of the response are
  arguments.

  \<open>DCHECK_MEMBER_GUARD(perConnectionStrand_)\<close> calls \<open>isStreamValid\<close> in debug builds
  (\<open>member_guard\<close>). \<open>stream_\<close> is a \<open>movable\<close>: the upgrade to WebSocket moves it out, and a
  later access is \<open>UNDEFINED\<close>. Reads go through the overload of \<open>async_read\<close> for a message
  (\<open>parser_->get()\<close>), not for a parser: \<open>HttpAsyncRead\<close> names the body limit that the call
  passes on, which is none.

  Not modelled: message tracing (so \<open>remote_endpoint\<close>), weak pointers, promises returned by
  \<open>postTaskOnConnectionStrand\<close>, the lifetime of \<open>this\<close> in callbacks.
\<close>

definition HttpChannel_kMaxMessageSizeByte :: nat where "HttpChannel_kMaxMessageSizeByte = 100000"
definition kExpireTimeoutSec :: nat where "kExpireTimeoutSec = 20"
definition HttpChannel_kCloseTimeoutSec :: nat where "HttpChannel_kCloseTimeoutSec = 5"

datatype 's http_effect =
    HttpPostRead                        \<comment> \<open>\<open>doRead\<close> posted to the strand\<close>
  | HttpAsyncRead "nat option"          \<comment> \<open>body limit given to \<open>http::async_read\<close>\<close>
  | HttpOpenFile string
  | HttpAsyncWrite response
  | HttpCloseLog close_log
  | HttpPostMarkUnused entity
  | HttpPostUpgrade error_code "'s tcp_stream" http_request
  | HttpLogFail log_level error_code string

type_synonym 's http_handler = "'s HttpChannel \<Rightarrow> ('s HttpChannel \<times> 's http_effect list) result"

definition member_guard :: "exec_env \<Rightarrow> 's HttpChannel \<Rightarrow> 'a result \<Rightarrow> 'a result" where
  "member_guard E h k = dcheck (bld E) ''isStreamValid'' (hc_is_stream_valid h) k"

subsection \<open>Construction and destruction\<close>

definition HttpChannel_new :: "'s tcp_stream \<Rightarrow> string \<Rightarrow> entity \<Rightarrow> 's HttpChannel" where
  "HttpChannel_new stream buffer entity_id = \<lparr>
     hc_stream = Here (set_rate_limits 10000 850000 stream),
     hc_can_schedule_callbacks = True,
     hc_is_stream_valid = True,
     hc_buffer = buffer,
     hc_parser = None,
     hc_entity_id = entity_id\<rparr>"

definition HttpChannel_delete :: "'s socket_api \<Rightarrow> build \<Rightarrow> 's HttpChannel \<Rightarrow> unit result" where
  "HttpChannel_delete A b h =
     (if hc_is_stream_valid h then
        (if b = Debug then
           take_value ''stream_'' (hc_stream h) (\<lambda>st.
             dcheck b ''!stream_.socket().is_open()'' (\<not> is_open A (socket st)) (Inr ()))
         else Inr ())
      else Inr ())"

definition isStreamValid :: "'s HttpChannel \<Rightarrow> bool" where
  "isStreamValid h = hc_is_stream_valid h"

definition HttpChannel_isOpen :: "'s socket_api \<Rightarrow> exec_env \<Rightarrow> 's HttpChannel \<Rightarrow> bool result" where
  "HttpChannel_isOpen A E h =
     member_guard E h (run_on E ConnectionStrand
     (dcheck (bld E) ''is_stream_valid_'' (hc_is_stream_valid h)
     (take_value ''stream_'' (hc_stream h) (\<lambda>st. Inr (is_open A (socket st))))))"

subsection \<open>Closing and failing\<close>

definition HttpChannel_doEof :: "'s socket_api \<Rightarrow> exec_env \<Rightarrow> 's http_handler" where
  "HttpChannel_doEof A E h =
     member_guard E h (run_on E ConnectionStrand
     (let h = h\<lparr>hc_can_schedule_callbacks := False\<rparr>
      in dcheck (bld E) ''is_stream_valid_'' (hc_is_stream_valid h)
      (take_value ''stream_'' (hc_stream h) (\<lambda>st.
         let st = (if is_open A (socket st)
                   then st\<lparr>expiry := ExpiresAfter HttpChannel_kCloseTimeoutSec\<rparr> else st);
             (s, logs) = closeSocketUnsafe A (socket st);
             h = h\<lparr>hc_stream := Here (st\<lparr>socket := s\<rparr>)\<rparr>
         in Inr (h, map HttpCloseLog logs @ [HttpPostMarkUnused (hc_entity_id h)])))))"

definition HttpChannel_onFail ::
  "'s socket_api \<Rightarrow> exec_env \<Rightarrow> error_code \<Rightarrow> string \<Rightarrow> 's http_handler" where
  "HttpChannel_onFail A E ec what h =
     dcheck (bld E) ''is_stream_valid_'' (hc_is_stream_valid h)
     (emit [HttpLogFail (fail_log_level ec) ec what] (HttpChannel_doEof A E h))"

definition HttpChannel_markUnused ::
  "('r, 's, 'q) registry_api \<Rightarrow> exec_env \<Rightarrow> entity \<Rightarrow> 'r \<Rightarrow> 'r result" where
  "HttpChannel_markUnused R E entity_id r =
     run_on E RegistrySequence
       (if \<not> reg_valid R r entity_id then Inr r
        else if \<not> reg_has R r entity_id (KTag UnusedTag)
        then reg_emplace R entity_id (CTag UnusedTag) r else Inr r)"

sublocale registry \<subseteq> http_mark: unused_marker R
  "HttpChannel_markUnused R \<lparr>bld = b, on_runner = RegistrySequence\<rparr>" for b
  by unfold_locales (auto simp: HttpChannel_markUnused_def reg_emplace_def dest: has_valid)

subsection \<open>Reading\<close>

definition startReadAsync :: "exec_env \<Rightarrow> 's http_handler" where
  "startReadAsync E h =
     member_guard E h
     (dcheck (bld E) ''!perConnectionStrand_->running_in_this_thread()'' (on_runner E \<noteq> ConnectionStrand)
     (dcheck (bld E) ''can_schedule_callbacks_'' (hc_can_schedule_callbacks h)
     (Inr (h, [HttpPostRead]))))"

definition HttpChannel_doRead :: "exec_env \<Rightarrow> 's http_handler" where
  "HttpChannel_doRead E h =
     member_guard E h (run_on E ConnectionStrand
     (dcheck (bld E) ''is_stream_valid_'' (hc_is_stream_valid h)
     (take_value ''stream_'' (hc_stream h) (\<lambda>st.
        let h = h\<lparr>hc_parser := Some HttpChannel_kMaxMessageSizeByte\<rparr>;
            h = h\<lparr>hc_stream := Here (st\<lparr>expiry := ExpiresAfter kExpireTimeoutSec\<rparr>)\<rparr>
        in dcheck (bld E) ''can_schedule_callbacks_'' (hc_can_schedule_callbacks h)
             (Inr (h, [HttpAsyncRead None]))))))"

definition startRead :: "exec_env \<Rightarrow> 's http_handler" where
  "startRead E h = member_guard E h (run_on E ConnectionStrand (HttpChannel_doRead E h))"

text \<open>The callback that \<open>onRead\<close> hands to \<open>handleRequest\<close>, and the calls \<open>handleRequest\<close> makes.\<close>

definition http_send :: "exec_env \<Rightarrow> response \<Rightarrow> 's http_handler" where
  "http_send E response h =
     member_guard E h (run_on E ConnectionStrand
     (dcheck (bld E) ''can_schedule_callbacks_'' (hc_can_schedule_callbacks h)
     (take_value ''stream_'' (hc_stream h) (\<lambda>_. Inr (h, [HttpAsyncWrite response])))))"

fun answer :: "exec_env \<Rightarrow> request_effect list \<Rightarrow> 's http_handler" where
  "answer E [] h = Inr (h, [])"
| "answer E (OpenFile p # es) h = emit [HttpOpenFile p] (answer E es h)"
| "answer E (Send r # es) h = andThen (http_send E r h) (\<lambda>(h, es1). emit es1 (answer E es h))"

definition HttpChannel_onRead ::
  "'s socket_api \<Rightarrow> http_host \<Rightarrow> exec_env \<Rightarrow> error_code \<Rightarrow> http_request \<Rightarrow> 's http_handler" where
  "HttpChannel_onRead A H E ec req h =
     member_guard E h (run_on E ConnectionStrand
     (if ec = EndOfStream then HttpChannel_doEof A E h
      else if failed ec then HttpChannel_onFail A E ec ''read'' h
      else dcheck (bld E) ''is_stream_valid_'' (hc_is_stream_valid h)
      (take_value ''stream_'' (hc_stream h) (\<lambda>st.
        requires ''parser_->get()'' (hc_parser h \<noteq> None)
        (if req_is_upgrade req then
           (let st = st\<lparr>expiry := ExpiresNever\<rparr>
            in dcheck (bld E) ''can_schedule_callbacks_'' (hc_can_schedule_callbacks h)
              (Inr (h\<lparr>hc_stream := MovedFrom, hc_is_stream_valid := False\<rparr>,
                    [HttpPostUpgrade ec st req])))
         else dcheck (bld E) ''is_stream_valid_'' (hc_is_stream_valid h)
           (andThen (handleRequest (bld E) H ''/'' req None) (\<lambda>es. answer E es h)))))))"

subsection \<open>Writing\<close>

definition HttpChannel_onWrite ::
  "'s socket_api \<Rightarrow> exec_env \<Rightarrow> error_code \<Rightarrow> bool \<Rightarrow> 's http_handler" where
  "HttpChannel_onWrite A E ec closeInResponse h =
     member_guard E h (run_on E ConnectionStrand
     (dcheck (bld E) ''is_stream_valid_'' (hc_is_stream_valid h)
     (if failed ec then HttpChannel_onFail A E ec ''write'' h
      else if closeInResponse then HttpChannel_doEof A E h
      else HttpChannel_doRead E h)))"

definition processWrittenResponse ::
  "'s socket_api \<Rightarrow> (response \<Rightarrow> bool) \<Rightarrow> exec_env \<Rightarrow> response \<Rightarrow> error_code \<Rightarrow> 's http_handler" where
  "processWrittenResponse A need_eof E shared_resp ec h =
     run_on E ConnectionStrand
     (dcheck (bld E) ''is_stream_valid_'' (hc_is_stream_valid h)
     (HttpChannel_onWrite A E ec (need_eof shared_resp) h))"

subsection \<open>Upgrade\<close>

text \<open>
  The task posted by \<open>onRead\<close>: it runs on the registry and builds the \<open>WsChannel\<close> in the
  context of the entity's \<open>TcpConnection\<close>, where \<open>this\<close> lives too
  (\<open>ctx_http_channel\<close>; \<open>reset_or_create_var\<close> overwrites an earlier value).
\<close>

definition handleWebsocketUpgrade ::
  "('r, 's, 'q) registry_api \<Rightarrow> 'q circular_api \<Rightarrow> string \<Rightarrow> exec_env \<Rightarrow> entity \<Rightarrow>
   's tcp_stream \<Rightarrow> http_request \<Rightarrow> 'r \<Rightarrow> ('r \<times> ws_effect list) result" where
  "handleWebsocketUpgrade R C beast_version_string E entity_id stream req r =
     run_on E RegistrySequence
     (with_tcp R r entity_id (\<lambda>tcp.
      andThen (WsChannel_new C beast_version_string (bld E) False stream entity_id) (\<lambda>ws.
        let tcp = tcp\<lparr>ctx_ws_channel := Some ws,
              ctx_http_channel := map_option (hc_is_stream_valid_update (\<lambda>_. False)) (ctx_http_channel tcp)\<rparr>
        in dcheck (bld E) ''wsChannelCtx->value().entityId() == entity_id_'' (wc_entity_id ws = entity_id)
          (andThen (startAcceptAsync E req ws) (\<lambda>(ws, es).
             Inr (reg_set R r entity_id (CTcp (tcp\<lparr>ctx_ws_channel := Some ws\<rparr>)), es))))))"

end
