(* ===== verification/Ws_Machine.thy ===== *)
theory Ws_Machine
  imports Ws_Channel
begin

text \<open>
  What a \<open>WsChannel\<close> can go through: \<open>ws_call\<close> is one call of any of its handlers, with any
  argument and any answer of Beast, that returns; a state of the machine is the object together
  with all effects since its construction. The order of calls is not restricted, so the
  invariants hold however completions, sends of other threads and failures interleave.
\<close>

inductive ws_call ::
  "'q circular_api \<Rightarrow> build \<Rightarrow> ('s, 'q) WsChannel \<Rightarrow> ('s, 'q) WsChannel \<Rightarrow> ws_effect list \<Rightarrow> bool"
  for C :: "'q circular_api" and b :: build where
  call_fill: "ws_call C b w (w\<lparr>readBuffer := bytes\<rparr>) []"
| call_startAcceptAsync: "bld E = b \<Longrightarrow> startAcceptAsync E req w = Inr (w', es) \<Longrightarrow> ws_call C b w w' es"
| call_startAccept: "bld E = b \<Longrightarrow> startAccept E req w = Inr (w', es) \<Longrightarrow> ws_call C b w w' es"
| call_onAccept: "bld E = b \<Longrightarrow> WsChannel_onAccept E ws_open ec w = Inr (w', es) \<Longrightarrow> ws_call C b w w' es"
| call_onRead: "bld E = b \<Longrightarrow> WsChannel_onRead E ws_open ec w = Inr (w', es) \<Longrightarrow> ws_call C b w w' es"
| call_onClose: "bld E = b \<Longrightarrow> WsChannel_onClose E ws_open ec w = Inr (w', es) \<Longrightarrow> ws_call C b w w' es"
| call_doEof: "bld E = b \<Longrightarrow> WsChannel_doEof E ws_open w = Inr (w', es) \<Longrightarrow> ws_call C b w w' es"
| call_sendAsync: "bld E = b \<Longrightarrow> sendAsync E message is_binary w = Inr (w', es) \<Longrightarrow> ws_call C b w w' es"
| call_send: "bld E = b \<Longrightarrow> WsChannel_send C E message is_binary w = Inr (w', es) \<Longrightarrow> ws_call C b w w' es"
| call_onWrite: "bld E = b \<Longrightarrow> WsChannel_onWrite C E ws_open ec w = Inr (w', es) \<Longrightarrow> ws_call C b w w' es"

definition ws_start ::
  "'q circular_api \<Rightarrow> string \<Rightarrow> build \<Rightarrow> 's tcp_stream \<Rightarrow> entity \<Rightarrow> ('s, 'q) WsChannel \<times> ws_effect list \<Rightarrow> bool" where
  "ws_start C version b stream entity_id s =
     (WsChannel_new C version b False stream entity_id = Inr (fst s) \<and> snd s = [])"

definition ws_trans ::
  "'q circular_api \<Rightarrow> build \<Rightarrow> ('s, 'q) WsChannel \<times> ws_effect list \<Rightarrow>
   ('s, 'q) WsChannel \<times> ws_effect list \<Rightarrow> bool" where
  "ws_trans C b s t = (\<exists>es. ws_call C b (fst s) (fst t) es \<and> snd t = snd s @ es)"

abbreviation ws_reach where
  "ws_reach C version b stream entity_id \<equiv> reach (ws_start C version b stream entity_id) (ws_trans C b)"

lemmas ws_handler_defs =
  startAcceptAsync_def startAccept_def WsChannel_doRead_def WsChannel_onAccept_def
  WsChannel_onRead_def WsChannel_onClose_def WsChannel_onFail_def WsChannel_doEof_def
  sendAsync_def WsChannel_send_def writeQueued_def WsChannel_onWrite_def

subsection \<open>One call\<close>

text \<open>What a single call keeps, whatever its outcome.\<close>

lemma doEof_Inr:
  "WsChannel_doEof E ws_open w = Inr (w', es) \<Longrightarrow>
   \<not> wc_can_schedule_callbacks w' \<and> isSendBusy w' = isSendBusy w \<and> sendBuffer w' = sendBuffer w \<and>
   readBuffer w' = readBuffer w \<and> wc_entity_id w' = wc_entity_id w \<and> ws_options w' = ws_options w \<and>
   es = (if ws_open then [WsAsyncClose] else []) @ [WsPostMarkUnused (wc_entity_id w)]"
  by (auto simp: WsChannel_doEof_def result_simps Let_def split: if_splits)

lemma onFail_Inr:
  "WsChannel_onFail E ws_open ec what w = Inr (w', es) \<Longrightarrow>
   \<not> wc_can_schedule_callbacks w' \<and> isSendBusy w' = isSendBusy w \<and> sendBuffer w' = sendBuffer w \<and>
   readBuffer w' = readBuffer w \<and> wc_entity_id w' = wc_entity_id w \<and> ws_options w' = ws_options w \<and>
   es = WsLogFail (fail_log_level ec) ec what #
     (if ws_open then [WsAsyncClose] else []) @ [WsPostMarkUnused (wc_entity_id w)]"
  by (auto simp: WsChannel_onFail_def result_simps dest!: doEof_Inr)

lemma doRead_Inr:
  "WsChannel_doRead E w = Inr (w', es) \<longleftrightarrow>
   (bld E = Debug \<longrightarrow> on_runner E = ConnectionStrand \<and> wc_can_schedule_callbacks w) \<and>
   w' = w\<lparr>readBuffer := []\<rparr> \<and> es = [WsAsyncRead]"
  by (auto simp: WsChannel_doRead_def result_simps Let_def)

lemma writeQueued_Inr:
  "writeQueued C E w = Inr (w', es) \<Longrightarrow>
   (bld E = Debug \<longrightarrow> isSendBusy w \<and> wc_can_schedule_callbacks w) \<and>
   (\<exists>dp d. backPtr C (sendBuffer w) = Inr dp \<and> qm_data dp = Some d \<and>
      w' = w\<lparr>ws_options := (ws_options w)\<lparr>opt_binary := qm_is_binary dp\<rparr>\<rparr> \<and>
      es = [WsAsyncWrite d (qm_is_binary dp)])"
  by (auto simp: writeQueued_def result_simps Let_def split: option.splits)

text \<open>The parts of the object and of the log that a call may touch.\<close>

definition ws_writes :: "ws_effect list \<Rightarrow> (string \<times> bool) list" where
  "ws_writes es = concat (map (\<lambda>e. case e of WsAsyncWrite d bin \<Rightarrow> [(d, bin)] | _ \<Rightarrow> []) es)"

definition ws_initiates :: "ws_effect \<Rightarrow> bool" where
  "ws_initiates e = (case e of WsPostStartAccept _ \<Rightarrow> True | WsAsyncAccept _ \<Rightarrow> True
     | WsAsyncRead \<Rightarrow> True | WsAsyncWrite _ _ \<Rightarrow> True | WsPostReceived _ \<Rightarrow> True
     | WsPostSend _ _ \<Rightarrow> True | WsAsyncClose \<Rightarrow> False | WsPostMarkUnused _ \<Rightarrow> False
     | WsLogFail _ _ _ \<Rightarrow> False)"

lemma ws_writes_simps [simp]:
  "ws_writes [] = []"
  "ws_writes (e # es) = (case e of WsAsyncWrite d bin \<Rightarrow> [(d, bin)] | _ \<Rightarrow> []) @ ws_writes es"
  "ws_writes (es @ es') = ws_writes es @ ws_writes es'"
  by (simp_all add: ws_writes_def)

lemma ws_call_cases:
  assumes "ws_call C b w w' es"
  shows "(isSendBusy w' \<longrightarrow> isSendBusy w) \<and> wc_entity_id w' = wc_entity_id w \<and>
    (wc_can_schedule_callbacks w' \<longrightarrow> wc_can_schedule_callbacks w) \<and>
    ((ws_options w')\<lparr>opt_binary := x\<rparr> = (ws_options w)\<lparr>opt_binary := x\<rparr>)"
  using assms
proof (cases rule: ws_call.cases)
  case (call_send E message is_binary)
  then show ?thesis
    by (auto simp: WsChannel_send_def result_simps Let_def split: if_splits dest!: writeQueued_Inr)
next
  case (call_onWrite E ws_open ec)
  then show ?thesis
    by (auto simp: WsChannel_onWrite_def result_simps Let_def split: if_splits
        dest!: writeQueued_Inr onFail_Inr)
next
  case (call_sendAsync E message is_binary)
  then show ?thesis by (auto simp: sendAsync_def result_simps split: option.splits if_splits)
qed (auto simp: startAcceptAsync_def startAccept_def WsChannel_onAccept_def WsChannel_onRead_def
    WsChannel_onClose_def doRead_Inr result_simps Let_def split: if_splits
    dest!: doEof_Inr onFail_Inr)

text \<open>In a debug build a call that starts something new found the callbacks enabled.\<close>

lemma ws_call_quiet:
  assumes "ws_call C Debug w w' es" and "\<not> wc_can_schedule_callbacks w" and "e \<in> set es"
  shows "\<not> ws_initiates e"
  using assms
proof (cases rule: ws_call.cases)
  case (call_send E message is_binary)
  with assms show ?thesis
    by (auto simp: WsChannel_send_def result_simps Let_def split: if_splits dest!: writeQueued_Inr)
next
  case (call_onWrite E ws_open ec)
  with assms show ?thesis
    by (auto simp: WsChannel_onWrite_def ws_initiates_def result_simps Let_def split: if_splits
        dest!: writeQueued_Inr onFail_Inr)
next
  case (call_sendAsync E message is_binary)
  with assms show ?thesis by (auto simp: sendAsync_def result_simps split: option.splits if_splits)
qed (auto simp: startAcceptAsync_def startAccept_def WsChannel_onAccept_def WsChannel_onRead_def
    WsChannel_onClose_def doRead_Inr ws_initiates_def result_simps Let_def split: if_splits
    dest!: doEof_Inr onFail_Inr)


subsection \<open>Invariants\<close>

definition ws_inv ::
  "string \<Rightarrow> build \<Rightarrow> entity \<Rightarrow> ('s, 'q) WsChannel \<times> ws_effect list \<Rightarrow> bool" where
  "ws_inv version b entity_id s =
     (\<not> isSendBusy (fst s) \<and> wc_entity_id (fst s) = entity_id \<and>
      (ws_options (fst s))\<lparr>opt_binary := False\<rparr> = WsChannel_options version \<and>
      (b = Debug \<longrightarrow> ws_writes (snd s) = []) \<and>
      (\<forall>e. WsPostMarkUnused e \<in> set (snd s) \<longrightarrow> e = entity_id))"

lemma ws_call_no_write:
  "ws_call C Debug w w' es \<Longrightarrow> \<not> isSendBusy w \<Longrightarrow> ws_writes es = []"
  by (erule ws_call.cases)
     (auto simp: startAcceptAsync_def startAccept_def WsChannel_onAccept_def WsChannel_onRead_def
       WsChannel_onClose_def doRead_Inr sendAsync_def WsChannel_send_def WsChannel_onWrite_def
       result_simps Let_def split: if_splits option.splits
       dest!: doEof_Inr onFail_Inr writeQueued_Inr)

lemma ws_call_marks_self:
  "ws_call C b w w' es \<Longrightarrow> WsPostMarkUnused e \<in> set es \<Longrightarrow> e = wc_entity_id w"
  by (erule ws_call.cases)
     (auto simp: startAcceptAsync_def startAccept_def WsChannel_onAccept_def WsChannel_onRead_def
       WsChannel_onClose_def doRead_Inr sendAsync_def WsChannel_send_def WsChannel_onWrite_def
       result_simps Let_def split: if_splits option.splits
       dest!: doEof_Inr onFail_Inr writeQueued_Inr)

interpretation ws_machine: invariant_machine
  "ws_start C version b stream entity_id" "ws_trans C b" "ws_inv version b entity_id"
  for C version b stream entity_id
proof unfold_locales
  show "ws_start C version b stream entity_id s \<Longrightarrow> ws_inv version b entity_id s" for s
    by (cases s) (auto simp: ws_start_def WsChannel_new_def ws_inv_def WsChannel_options_def result_simps
        kMaxMessageSizeByte_def)
next
  fix s t assume inv: "ws_inv version b entity_id s" and step: "ws_trans C b s t"
  from step obtain es where c: "ws_call C b (fst s) (fst t) es" "snd t = snd s @ es"
    by (auto simp: ws_trans_def)
  from c inv show "ws_inv version b entity_id t"
    using ws_call_cases [OF c(1), of False] ws_call_no_write [of C "fst s" "fst t" es]
      ws_call_marks_self [OF c(1)]
    by (auto simp: ws_inv_def)
qed

text \<open>After \<open>doEof\<close>: the callbacks stay disabled and the log grows by quiet effects only.\<close>

lemma ws_quiet_machine:
  assumes "\<not> wc_can_schedule_callbacks w"
  shows "invariant_machine (\<lambda>s. s = (w, log)) (ws_trans C Debug)
    (\<lambda>s. \<not> wc_can_schedule_callbacks (fst s) \<and>
      (\<exists>es. snd s = log @ es \<and> (\<forall>e \<in> set es. \<not> ws_initiates e)))"
  using assms ws_call_quiet ws_call_cases
  by unfold_locales (auto simp: ws_trans_def, blast+)

text \<open>Clients that send and wait for the completion.\<close>

fun send_and_complete ::
  "'q circular_api \<Rightarrow> exec_env \<Rightarrow> (string \<times> bool) list \<Rightarrow> ('s, 'q) WsChannel \<Rightarrow>
   (('s, 'q) WsChannel \<times> ws_effect list) result" where
  "send_and_complete C E [] w = Inr (w, [])"
| "send_and_complete C E ((m, bin) # ms) w =
     andThen (WsChannel_send C E (Some m) bin w) (\<lambda>(w, es).
       emit es (andThen (WsChannel_onWrite C E True Success w) (\<lambda>(w, es).
         emit es (send_and_complete C E ms w))))"

text \<open>Capacity and length of the send queue, from the laws of the container.\<close>

context circular_storage
begin

lemma ws_call_queue:
  assumes "ws_call C b w w' es" and "length (contents (sendBuffer w)) \<le> cb_capacity C (sendBuffer w)"
  shows "cb_capacity C (sendBuffer w') = cb_capacity C (sendBuffer w) \<and>
    length (contents (sendBuffer w')) \<le> cb_capacity C (sendBuffer w)"
  using assms
proof (cases rule: ws_call.cases)
  case (call_send E message is_binary)
  with assms(2) show ?thesis
    by (auto simp: WsChannel_send_def result_simps Let_def pushed_def split: if_splits
        dest!: writeQueued_Inr)
next
  case (call_onWrite E ws_open ec)
  with assms(2) show ?thesis
    by (auto simp: WsChannel_onWrite_def popBack_def capacity_pop_back contents_pop_back
        result_simps Let_def split: if_splits dest!: writeQueued_Inr onFail_Inr)
qed (auto simp: startAcceptAsync_def startAccept_def WsChannel_onAccept_def WsChannel_onRead_def
    WsChannel_onClose_def doRead_Inr sendAsync_def result_simps Let_def
    split: if_splits option.splits dest!: doEof_Inr onFail_Inr)

lemma ws_queue_machine:
  "invariant_machine (ws_start C version b stream entity_id) (ws_trans C b)
    (\<lambda>s. cb_capacity C (sendBuffer (fst s)) = kMaxSendQueueSize \<and>
         length (contents (sendBuffer (fst s))) \<le> kMaxSendQueueSize)"
proof unfold_locales
  fix s
  assume "ws_start C version b stream entity_id s"
  then show "cb_capacity C (sendBuffer (fst s)) = kMaxSendQueueSize \<and>
      length (contents (sendBuffer (fst s))) \<le> kMaxSendQueueSize"
    by (auto simp: ws_start_def WsChannel_new_def result_simps capacity_new contents_new dest: sym)
next
  fix s t
  assume "cb_capacity C (sendBuffer (fst s)) = kMaxSendQueueSize \<and>
      length (contents (sendBuffer (fst s))) \<le> kMaxSendQueueSize" and "ws_trans C b s t"
  then show "cb_capacity C (sendBuffer (fst t)) = kMaxSendQueueSize \<and>
      length (contents (sendBuffer (fst t))) \<le> kMaxSendQueueSize"
    using ws_call_queue by (fastforce simp: ws_trans_def)
qed

lemmas ws_queue = invariant_machine.reach_inv [OF ws_queue_machine]

text \<open>The release build: what one \<open>send\<close> and one successful \<open>onWrite\<close> do to the queue.\<close>

lemma send_release:
  assumes "bld E = Release" and "\<not> isSendBusy w" and "0 < cb_capacity C (sendBuffer w)"
  shows "\<exists>w'. WsChannel_send C E (Some m) is_binary w = Inr (w', [WsAsyncWrite m is_binary]) \<and>
    contents (sendBuffer w') = pushed (cb_capacity C (sendBuffer w)) (contents (sendBuffer w))
      \<lparr>qm_data = Some m, qm_is_binary = is_binary\<rparr> \<and>
    cb_capacity C (sendBuffer w') = cb_capacity C (sendBuffer w) \<and> \<not> isSendBusy w'"
  using assms writeBack_newest [of "sendBuffer w" "\<lparr>qm_data = Some m, qm_is_binary = is_binary\<rparr>"]
  by (simp add: WsChannel_send_def writeQueued_def run_on_def dcheck_def Let_def backPtr_spec)

lemma onWrite_release_done:
  assumes "bld E = Release" and "\<not> isSendBusy w" and "contents (sendBuffer w) = [dp]"
  shows "\<exists>w'. WsChannel_onWrite C E ws_open Success w = Inr (w', []) \<and>
    contents (sendBuffer w') = [] \<and>
    cb_capacity C (sendBuffer w') = cb_capacity C (sendBuffer w) \<and> \<not> isSendBusy w'"
  using assms popBack_spec [of "sendBuffer w"]
  by (simp add: WsChannel_onWrite_def run_on_def dcheck_def Let_def capacity_pop_back)

lemma onWrite_release_more:
  assumes "bld E = Release" and "\<not> isSendBusy w" and "contents (sendBuffer w) = dps @ [dp]"
    and "dps \<noteq> []" and "qm_data (last dps) = Some m"
  shows "\<exists>w'. WsChannel_onWrite C E ws_open Success w =
      Inr (w', [WsAsyncWrite m (qm_is_binary (last dps))]) \<and>
    contents (sendBuffer w') = dps \<and>
    cb_capacity C (sendBuffer w') = cb_capacity C (sendBuffer w) \<and> \<not> isSendBusy w'"
  using assms popBack_spec [of "sendBuffer w"]
  by (simp add: WsChannel_onWrite_def writeQueued_def run_on_def dcheck_def Let_def backPtr_spec
      capacity_pop_back)

lemma send_and_complete_release:
  assumes "bld E = Release" and "\<not> isSendBusy w" and "contents (sendBuffer w) = []"
    and "0 < cb_capacity C (sendBuffer w)"
  shows "\<exists>w'. send_and_complete C E ms w = Inr (w', map (\<lambda>(m, bin). WsAsyncWrite m bin) ms) \<and>
    contents (sendBuffer w') = []"
  using assms
proof (induction ms arbitrary: w)
  case Nil
  then show ?case by simp
next
  case (Cons p ms)
  obtain m bin where p: "p = (m, bin)" by force
  from send_release [OF Cons.prems(1,2,4), of m bin] obtain w1 where
    w1: "WsChannel_send C E (Some m) bin w = Inr (w1, [WsAsyncWrite m bin])"
    "contents (sendBuffer w1) = [\<lparr>qm_data = Some m, qm_is_binary = bin\<rparr>]"
    "cb_capacity C (sendBuffer w1) = cb_capacity C (sendBuffer w)" "\<not> isSendBusy w1"
    using Cons.prems(3,4) by (auto simp: pushed_def)
  from onWrite_release_done [OF Cons.prems(1) w1(4,2), of True] obtain w2 where
    w2: "WsChannel_onWrite C E True Success w1 = Inr (w2, [])" "contents (sendBuffer w2) = []"
    "cb_capacity C (sendBuffer w2) = cb_capacity C (sendBuffer w)" "\<not> isSendBusy w2"
    using w1(3) by auto
  from Cons.IH [OF Cons.prems(1) w2(4,2)] w2(3) Cons.prems(4) obtain w3 where
    "send_and_complete C E ms w2 = Inr (w3, map (\<lambda>(m, bin). WsAsyncWrite m bin) ms)"
    "contents (sendBuffer w3) = []" by auto
  with w1(1) w2(1) show ?case by (simp add: p)
qed

lemma onWrite_release_empty:
  "bld E = Release \<Longrightarrow> contents (sendBuffer w) = [] \<Longrightarrow>
   WsChannel_onWrite C E ws_open Success w = Inl (UNDEFINED ''circular_buffer::pop_back'')"
  by (simp add: WsChannel_onWrite_def run_on_def dcheck_def popBack_empty)

lemma overlapping_sends:
  assumes "bld E = Release" and "\<not> isSendBusy w" and "contents (sendBuffer w) = []"
    and "1 < cb_capacity C (sendBuffer w)"
  shows "\<exists>w1 w2 w3 w4.
    WsChannel_send C E (Some m1) bin1 w = Inr (w1, [WsAsyncWrite m1 bin1]) \<and>
    WsChannel_send C E (Some m2) bin2 w1 = Inr (w2, [WsAsyncWrite m2 bin2]) \<and>
    WsChannel_onWrite C E True Success w2 = Inr (w3, [WsAsyncWrite m1 bin1]) \<and>
    WsChannel_onWrite C E True Success w3 = Inr (w4, []) \<and>
    WsChannel_onWrite C E True Success w4 = Inl (UNDEFINED ''circular_buffer::pop_back'')"
proof -
  let ?d1 = "\<lparr>qm_data = Some m1, qm_is_binary = bin1\<rparr>" and ?d2 = "\<lparr>qm_data = Some m2, qm_is_binary = bin2\<rparr>"
  from send_release [OF assms(1,2), of m1 bin1] assms(3,4) obtain w1 where
    w1: "WsChannel_send C E (Some m1) bin1 w = Inr (w1, [WsAsyncWrite m1 bin1])"
    "contents (sendBuffer w1) = [?d1]" "1 < cb_capacity C (sendBuffer w1)" "\<not> isSendBusy w1"
    by (auto simp: pushed_def)
  from send_release [OF assms(1) w1(4), of m2 bin2] w1(2,3) obtain w2 where
    w2: "WsChannel_send C E (Some m2) bin2 w1 = Inr (w2, [WsAsyncWrite m2 bin2])"
    "contents (sendBuffer w2) = [?d1] @ [?d2]" "\<not> isSendBusy w2"
    by (auto simp: pushed_def)
  from onWrite_release_more [OF assms(1) w2(3,2), of m1 True] obtain w3 where
    w3: "WsChannel_onWrite C E True Success w2 = Inr (w3, [WsAsyncWrite m1 bin1])"
    "contents (sendBuffer w3) = [?d1]" "\<not> isSendBusy w3" by auto
  from onWrite_release_done [OF assms(1) w3(3,2), of True] obtain w4 where
    w4: "WsChannel_onWrite C E True Success w3 = Inr (w4, [])" "contents (sendBuffer w4) = []"
    by auto
  from onWrite_release_empty [OF assms(1) w4(2), of True] w1(1) w2(1) w3(1) w4(1)
  show ?thesis by blast
qed

end

end
