(* ===== verification/Ws_Properties.thy ===== *)
theory Ws_Properties
  imports Ws_Machine
begin

text \<open>
  The properties of \<open>WsChannel\<close>. Runs are the reachable states of \<open>Ws_Machine\<close>; the queue is
  any container that satisfies \<open>circular_storage\<close>, the registry any \<open>registry\<close>.
\<close>

sublocale registry \<subseteq> ws_mark: unused_marker R
  "WsChannel_markUnused R \<lparr>bld = b, on_runner = RegistrySequence\<rparr>" for b
  by unfold_locales
     (auto simp: WsChannel_markUnused_def reg_emplace_def dest: has_valid)

text \<open>A run that the witnesses share: construction, one \<open>send\<close>.\<close>

definition demo_env :: "build \<Rightarrow> runner \<Rightarrow> exec_env" where
  "demo_env b r = \<lparr>bld = b, on_runner = r\<rparr>"

lemma demo_env_simps [simp]: "bld (demo_env b r) = b" "on_runner (demo_env b r) = r"
  by (simp_all add: demo_env_def)

definition demo_ws :: "(demo_socket, ring) WsChannel" where
  "demo_ws = \<lparr>ws_lowest_layer = (stream_of_socket demo_conn)\<lparr>expiry := ExpiresNever\<rparr>,
     ws_options = WsChannel_options ''B'', isSendBusy = False, readBuffer = [], wc_entity_id = 7,
     sendBuffer = \<lparr>ring_cap = kMaxSendQueueSize, ring_items = []\<rparr>,
     wc_can_schedule_callbacks = True\<rparr>"

lemma demo_ws_new: "WsChannel_new ring_api ''B'' b False (stream_of_socket demo_conn) 7 = Inr demo_ws"
  by (simp add: WsChannel_new_def demo_ws_def ring_api_def kMaxMessageSizeByte_def)

lemma demo_ws_reach: "ws_reach ring_api ''B'' b (stream_of_socket demo_conn) 7 (demo_ws, [])"
  by (rule reach_init) (simp add: ws_start_def demo_ws_new)

text \<open>
  No run of a \<open>WsChannel\<close> ever sets \<open>isSendBusy_\<close>: the constructor clears it and no handler
  assigns true. So a \<open>send\<close> never takes the branch that leaves the message in the queue for the
  completion of the write in progress. The stream options stay as the constructor set them (the
  text/binary mode apart) and every \<open>markUnused\<close> that was posted names the entity of the channel.
\<close>

theorem ws_never_busy:
  assumes "ws_reach C version b stream entity_id (w, log)"
  shows "\<not> isSendBusy w \<and> wc_entity_id w = entity_id \<and>
    (ws_options w)\<lparr>opt_binary := False\<rparr> = WsChannel_options version \<and>
    (\<forall>e. WsPostMarkUnused e \<in> set log \<longrightarrow> e = entity_id)"
  using ws_machine.reach_inv [OF assms] by (simp add: ws_inv_def)

theorem ws_never_busy_witness: "\<not> isSendBusy demo_ws \<and> wc_entity_id demo_ws = 7"
  using ws_never_busy [OF demo_ws_reach] by simp

text \<open>
  C27: in a debug build a \<open>WsChannel\<close> never writes a message. No run contains an \<open>async_write\<close>,
  and every \<open>send\<close> of a valid message on the strand ends the process at the check
  \<open>DCHECK(isSendBusy_)\<close> of \<open>writeQueued\<close>.
\<close>

theorem ws_debug_never_writes:
  assumes "ws_reach C version Debug stream entity_id (w, log)"
    and "on_runner E = ConnectionStrand" "bld E = Debug"
    and "m \<noteq> []" "length m \<le> kMaxMessageSizeByte"
  shows "ws_writes log = [] \<and> WsChannel_send C E (Some m) is_binary w = Inl (DCHECK ''isSendBusy_'')"
proof -
  from ws_machine.reach_inv [OF assms(1)] have "\<not> isSendBusy w" "ws_writes log = []"
    by (simp_all add: ws_inv_def)
  then show ?thesis
    using assms(2-) by (simp add: WsChannel_send_def writeQueued_def Let_def)
qed

theorem ws_debug_never_writes_witness:
  "WsChannel_send ring_api (demo_env Debug ConnectionStrand) (Some ''hi'') True demo_ws =
    Inl (DCHECK ''isSendBusy_'')"
  using ws_debug_never_writes [OF demo_ws_reach, of "demo_env Debug ConnectionStrand" "''hi''"]
  by (simp add: kMaxMessageSizeByte_def)

text \<open>
  C28: in a release build, messages that are sent one at a time, each after the previous write has
  completed, are written exactly once, in order and with their mode, and leave the queue empty.
\<close>

theorem ws_release_sequential:
  assumes "circular_storage C contents"
    and "ws_reach C version Release stream entity_id (w, log)"
    and "contents (sendBuffer w) = []" and "bld E = Release"
  shows "\<exists>w'. send_and_complete C E ms w = Inr (w', map (\<lambda>(m, bin). WsAsyncWrite m bin) ms) \<and>
    contents (sendBuffer w') = []"
  by (rule circular_storage.send_and_complete_release [OF assms(1,4) _ assms(3)])
     (use ws_machine.reach_inv [OF assms(2)] circular_storage.ws_queue [OF assms(1,2)] in
       \<open>simp_all add: ws_inv_def kMaxSendQueueSize_def\<close>)

theorem ws_release_sequential_witness:
  "\<exists>w'. send_and_complete ring_api (demo_env Release ConnectionStrand) [(''a'', True), (''b'', False)]
      demo_ws = Inr (w', [WsAsyncWrite ''a'' True, WsAsyncWrite ''b'' False])"
  using ws_release_sequential [OF ring.circular_storage_axioms demo_ws_reach,
      of "demo_env Release ConnectionStrand" "[(''a'', True), (''b'', False)]"]
  by (auto simp: demo_ws_def)

text \<open>
  C12: in a release build, two messages sent before the first write completes put two
  \<open>async_write\<close>s in flight at once; the completions remove from the wrong end, so the first
  message is written a second time while the write of the second one may still be going on, and
  the completion of that third write calls \<open>pop_back\<close> on an empty queue.
\<close>

theorem ws_release_overlap:
  assumes "circular_storage C contents"
    and "ws_reach C version Release stream entity_id (w, log)"
    and "contents (sendBuffer w) = []" and "bld E = Release"
  shows "\<exists>w1 w2 w3 w4.
    WsChannel_send C E (Some m1) bin1 w = Inr (w1, [WsAsyncWrite m1 bin1]) \<and>
    WsChannel_send C E (Some m2) bin2 w1 = Inr (w2, [WsAsyncWrite m2 bin2]) \<and>
    WsChannel_onWrite C E True Success w2 = Inr (w3, [WsAsyncWrite m1 bin1]) \<and>
    WsChannel_onWrite C E True Success w3 = Inr (w4, []) \<and>
    WsChannel_onWrite C E True Success w4 = Inl (UNDEFINED ''circular_buffer::pop_back'')"
  by (rule circular_storage.overlapping_sends [OF assms(1,4) _ assms(3)])
     (use ws_machine.reach_inv [OF assms(2)] circular_storage.ws_queue [OF assms(1,2)] in
       \<open>simp_all add: ws_inv_def kMaxSendQueueSize_def\<close>)

theorem ws_release_overlap_witness:
  "\<exists>w1 w2 w3.
    WsChannel_send ring_api (demo_env Release ConnectionStrand) (Some ''a'') True demo_ws =
      Inr (w1, [WsAsyncWrite ''a'' True]) \<and>
    WsChannel_send ring_api (demo_env Release ConnectionStrand) (Some ''b'') True w1 =
      Inr (w2, [WsAsyncWrite ''b'' True]) \<and>
    WsChannel_onWrite ring_api (demo_env Release ConnectionStrand) True Success w2 =
      Inr (w3, [WsAsyncWrite ''a'' True])"
  using ws_release_overlap [OF ring.circular_storage_axioms demo_ws_reach,
      of "demo_env Release ConnectionStrand" "''a''" True "''b''" True]
  by (simp add: demo_ws_def) blast

text \<open>
  C13: the send queue never holds more than \<open>kMaxSendQueueSize\<close> messages, in either build and
  under every interleaving; a \<open>send\<close> into a full queue in a release build drops the oldest
  message and keeps the new one last.
\<close>

theorem ws_queue_bounded:
  assumes "circular_storage C contents"
    and "ws_reach C version b stream entity_id (w, log)"
  shows "length (contents (sendBuffer w)) \<le> kMaxSendQueueSize \<and>
    (b = Release \<and> bld E = Release \<longrightarrow>
      (\<exists>w' es. WsChannel_send C E (Some m) bin w = Inr (w', es) \<and>
        contents (sendBuffer w') =
          (if length (contents (sendBuffer w)) = kMaxSendQueueSize then tl (contents (sendBuffer w))
           else contents (sendBuffer w)) @ [\<lparr>qm_data = Some m, qm_is_binary = bin\<rparr>]))"
proof -
  have q: "cb_capacity C (sendBuffer w) = kMaxSendQueueSize"
    "length (contents (sendBuffer w)) \<le> kMaxSendQueueSize"
    using circular_storage.ws_queue [OF assms] by simp_all
  have busy: "\<not> isSendBusy w" using ws_machine.reach_inv [OF assms(2)] by (simp add: ws_inv_def)
  show ?thesis
    using q circular_storage.send_release [OF assms(1) _ busy, of E m bin]
    by (auto simp: pushed_def kMaxSendQueueSize_def)
qed

theorem ws_queue_bounded_witness:
  "length (ring_items (sendBuffer demo_ws)) \<le> kMaxSendQueueSize"
  using ws_queue_bounded [OF ring.circular_storage_axioms demo_ws_reach] by simp



text \<open>
  Reading. A failed read logs and closes; an empty or an oversized one starts nothing, so no
  read is outstanding afterwards; every other message is handed to the registry, once and
  unchanged, the buffer is cleared and exactly one new read is started. In a debug build the
  last case ends the process instead when \<open>doEof\<close> has already run.
\<close>

theorem ws_onRead_branches:
  assumes "on_runner E = ConnectionStrand"
  shows "WsChannel_onRead E ws_open ec w =
    (if failed ec then
       Inr (w\<lparr>wc_can_schedule_callbacks := False, ws_lowest_layer :=
              (if ws_open then (ws_lowest_layer w)\<lparr>expiry := ExpiresAfter 5\<rparr> else ws_lowest_layer w)\<rparr>,
            WsLogFail (fail_log_level ec) ec ''read'' #
              (if ws_open then [WsAsyncClose] else []) @ [WsPostMarkUnused (wc_entity_id w)])
     else if readBuffer w = [] \<or> length (readBuffer w) > 100000 then Inr (w, [])
     else if bld E = Debug \<and> \<not> wc_can_schedule_callbacks w then
       Inl (DCHECK ''can_schedule_callbacks_'')
     else Inr (w\<lparr>readBuffer := []\<rparr>, [WsPostReceived (readBuffer w), WsAsyncRead]))"
  using assms
  by (simp add: WsChannel_onRead_def WsChannel_onFail_def WsChannel_doEof_def WsChannel_doRead_def
      kMaxMessageSizeByte_def kCloseTimeoutSec_def dcheck_def Let_def)

theorem ws_onRead_branches_witness:
  "WsChannel_onRead (demo_env Debug ConnectionStrand) True Success (demo_ws\<lparr>readBuffer := ''hi''\<rparr>) =
    Inr (demo_ws\<lparr>readBuffer := []\<rparr>, [WsPostReceived ''hi'', WsAsyncRead])"
  using ws_onRead_branches [of "demo_env Debug ConnectionStrand" True Success "demo_ws\<lparr>readBuffer := ''hi''\<rparr>"]
  by (simp add: demo_ws_def)


text \<open>What the law about \<open>ECS::prependChildEntity\<close> says: it leaves the components of this model alone.\<close>

definition links_only ::
  "('r, 's, 'q) registry_api \<Rightarrow> ('r \<Rightarrow> entity \<Rightarrow> entity \<Rightarrow> 'r) \<Rightarrow> bool" where
  "links_only R prependChildEntity = (\<forall>r p c x k.
     reg_find R (prependChildEntity r p c) x k = reg_find R r x k \<and>
     reg_valid R (prependChildEntity r p c) x = reg_valid R r x)"

text \<open>
  A message that no plugin takes over becomes one new entity. The task returns whenever the
  entity of the connection is still there, the new entity holds exactly the message, it is
  linked to the connection by \<open>prependChildEntity\<close>, and no other component changes. When the
  connection is gone a debug build stops at the check on it.
\<close>

theorem ws_received_entity:
  assumes "registry R" and "links_only R prependChildEntity"
    and "on_runner E = RegistrySequence" and "plug_point m = None"
  shows "let msg = fst (reg_create R r) in
    if bld E = Debug \<and> \<not> reg_valid R r e \<and> msg \<noteq> e
    then allocateRecievedDataComponent R plug_point prependChildEntity E e m r =
      Inl (DCHECK ''registry_->valid(entity_id_)'')
    else \<exists>r'. allocateRecievedDataComponent R plug_point prependChildEntity E e m r = Inr r' \<and>
      \<not> reg_valid R r msg \<and> reg_valid R r' msg \<and>
      (\<forall>k. reg_find R r' msg k = (if k = KRecieved then Some (CRecieved m) else None)) \<and>
      (\<forall>x k. x \<noteq> msg \<longrightarrow> reg_find R r' x k = reg_find R r x k)"
proof -
  obtain msg r1 where c: "reg_create R r = (msg, r1)" by force
  note reg = assms(1)
  have v: "\<not> reg_valid R r msg" "reg_valid R r1 x \<longleftrightarrow> x = msg \<or> reg_valid R r x"
    "reg_find R r1 x k = reg_find R r x k" "\<not> reg_has R r1 msg k"
    "reg_find R r msg k = None" for x k
    using registry.create_fresh [OF reg c] registry.create_valid [OF reg c]
      registry.create_find [OF reg c] registry.created_has_none [OF reg c]
      registry.invalid_find [OF reg] by simp_all
  have e: "reg_emplace R msg (CRecieved m) r1 = Inr (reg_set R r1 msg (CRecieved m))"
    by (simp add: reg_emplace_def v)
  show ?thesis
    using assms(2-4)
    by (auto simp: allocateRecievedDataComponent_def c e v registry.valid_set [OF reg]
        registry.find_set [OF reg] links_only_def dcheck_def)
qed

theorem ws_received_entity_witness:
  "\<exists>r'. allocateRecievedDataComponent ref_api (\<lambda>_. None) (\<lambda>r _ _. r)
      (demo_env Debug RegistrySequence) 7 ''hi'' (demo_registry :: (demo_socket, ring) ref_registry) = Inr r' \<and>
    reg_find ref_api r' 8 KRecieved = Some (CRecieved ''hi'')"
  using ws_received_entity [OF ref.registry_axioms,
      of "\<lambda>r _ _. r" "demo_env Debug RegistrySequence" "\<lambda>_. None" "''hi''" demo_registry 7]
  by (auto simp: links_only_def demo_registry_find demo_registry_create Let_def)

end
