(* ===== verification/Http_Machine.thy ===== *)
theory Http_Machine
  imports Http_Channel Ws_Properties
begin

text \<open>
  The life of a \<open>HttpChannel\<close> from its construction on: the operations it has outstanding,
  completed in any order, with any error code, any request and any answer of \<open>need_eof\<close>.
  A state is \<open>Inl\<close> when a check of the source has ended the process, so that
  "no check fails" is part of the invariant.
\<close>

datatype http_op = OpPostedRead | OpRead | OpWrite response

record 's http_machine =
  hm_channel :: "'s HttpChannel"
  hm_ops :: "http_op list"
  hm_log :: "'s http_effect list"

text \<open>The operations that a list of effects leaves outstanding.\<close>

fun ops_of :: "'s http_effect list \<Rightarrow> http_op list" where
  "ops_of [] = []"
| "ops_of (HttpPostRead # es) = OpPostedRead # ops_of es"
| "ops_of (HttpAsyncRead _ # es) = OpRead # ops_of es"
| "ops_of (HttpAsyncWrite r # es) = OpWrite r # ops_of es"
| "ops_of (_ # es) = ops_of es"

lemma ops_of_append [simp]: "ops_of (es @ es') = ops_of es @ ops_of es'"
  by (induction es rule: ops_of.induct) auto

lemma ops_of_close [simp]: "ops_of (map HttpCloseLog logs) = []"
  by (induction logs) auto

text \<open>The handler that an outstanding operation runs when it completes.\<close>

fun http_complete ::
  "'s socket_api \<Rightarrow> http_host \<Rightarrow> (response \<Rightarrow> bool) \<Rightarrow> exec_env \<Rightarrow> error_code \<Rightarrow> http_request \<Rightarrow>
   http_op \<Rightarrow> 's http_handler" where
  "http_complete A H need_eof E ec req OpPostedRead h = HttpChannel_doRead E h"
| "http_complete A H need_eof E ec req OpRead h = HttpChannel_onRead A H E ec req h"
| "http_complete A H need_eof E ec req (OpWrite r) h = processWrittenResponse A need_eof E r ec h"

definition hm_next ::
  "'s http_machine \<Rightarrow> http_op list \<Rightarrow> ('s HttpChannel \<times> 's http_effect list) result \<Rightarrow>
   's http_machine result" where
  "hm_next m ops outcome = andThen outcome (\<lambda>(h, es).
     Inr \<lparr>hm_channel = h, hm_ops = ops @ ops_of es, hm_log = hm_log m @ es\<rparr>)"

text \<open>The owner constructs the channel and calls \<open>startReadAsync\<close> from the registry sequence.\<close>

definition http_start ::
  "build \<Rightarrow> 's tcp_stream \<Rightarrow> string \<Rightarrow> entity \<Rightarrow> 's http_machine result \<Rightarrow> bool" where
  "http_start b stream buffer entity_id s =
     (let h = HttpChannel_new stream buffer entity_id
      in s = hm_next \<lparr>hm_channel = h, hm_ops = [], hm_log = []\<rparr> []
        (startReadAsync \<lparr>bld = b, on_runner = RegistrySequence\<rparr> h))"

inductive http_step ::
  "'s socket_api \<Rightarrow> http_host \<Rightarrow> (response \<Rightarrow> bool) \<Rightarrow> build \<Rightarrow>
   's http_machine result \<Rightarrow> 's http_machine result \<Rightarrow> bool"
  for A :: "'s socket_api" and H :: http_host and need_eof :: "response \<Rightarrow> bool" and b :: build where
  step_complete:
    "hm_ops m = ops1 @ op # ops2 \<Longrightarrow>
     http_step A H need_eof b (Inr m)
       (hm_next m (ops1 @ ops2)
         (http_complete A H need_eof \<lparr>bld = b, on_runner = ConnectionStrand\<rparr> ec req op (hm_channel m)))"

inductive_cases http_stepE: "http_step A H need_eof b s t"

abbreviation http_reach where
  "http_reach A H need_eof b stream buffer entity_id \<equiv>
     reach (http_start b stream buffer entity_id) (http_step A H need_eof b)"

subsection \<open>Counting\<close>

definition marks :: "'s http_effect list \<Rightarrow> entity list" where
  "marks es = concat (map (\<lambda>e. case e of HttpPostMarkUnused x \<Rightarrow> [x] | _ \<Rightarrow> []) es)"

definition upgrades :: "'s http_effect list \<Rightarrow> 's tcp_stream list" where
  "upgrades es = concat (map (\<lambda>e. case e of HttpPostUpgrade _ st _ \<Rightarrow> [st] | _ \<Rightarrow> []) es)"

lemma marks_simps [simp]:
  "marks [] = []"
  "marks (e # es) = (case e of HttpPostMarkUnused x \<Rightarrow> [x] | _ \<Rightarrow> []) @ marks es"
  "marks (es @ es') = marks es @ marks es'"
  "marks (map HttpCloseLog logs) = []"
  by (simp_all add: marks_def comp_def)

lemma upgrades_simps [simp]:
  "upgrades [] = []"
  "upgrades (e # es) = (case e of HttpPostUpgrade _ st _ \<Rightarrow> [st] | _ \<Rightarrow> []) @ upgrades es"
  "upgrades (es @ es') = upgrades es @ upgrades es'"
  "upgrades (map HttpCloseLog logs) = []"
  by (simp_all add: upgrades_def comp_def)

subsection \<open>The three phases\<close>

text \<open>A live channel: one operation outstanding, nothing handed over, the right deadline.\<close>

definition live_channel :: "entity \<Rightarrow> 's HttpChannel \<Rightarrow> bool" where
  "live_channel e h = (hc_is_stream_valid h \<and> hc_can_schedule_callbacks h \<and> hc_entity_id h = e \<and>
     hc_stream h \<noteq> MovedFrom)"

definition http_live :: "entity \<Rightarrow> 's http_machine \<Rightarrow> bool" where
  "http_live e m =
     (live_channel e (hm_channel m) \<and> length (hm_ops m) = 1 \<and>
      (hm_ops m \<noteq> [OpPostedRead] \<longrightarrow> hc_parser (hm_channel m) \<noteq> None \<and>
        (\<exists>st. hc_stream (hm_channel m) = Here st \<and> expiry st = ExpiresAfter kExpireTimeoutSec)) \<and>
      marks (hm_log m) = [] \<and> upgrades (hm_log m) = [])"

definition http_closed :: "'s socket_api \<Rightarrow> entity \<Rightarrow> 's http_machine \<Rightarrow> bool" where
  "http_closed A e m =
     (hm_ops m = [] \<and> \<not> hc_can_schedule_callbacks (hm_channel m) \<and>
      (\<exists>st. hc_stream (hm_channel m) = Here st \<and> \<not> is_open A (socket st)) \<and>
      marks (hm_log m) = [e] \<and> upgrades (hm_log m) = [])"

definition http_handed_over :: "'s http_machine \<Rightarrow> bool" where
  "http_handed_over m =
     (hm_ops m = [] \<and> hc_stream (hm_channel m) = MovedFrom \<and> \<not> hc_is_stream_valid (hm_channel m) \<and>
      marks (hm_log m) = [] \<and> (\<exists>st. upgrades (hm_log m) = [st] \<and> expiry st = ExpiresNever))"

definition http_inv :: "'s socket_api \<Rightarrow> entity \<Rightarrow> 's http_machine result \<Rightarrow> bool" where
  "http_inv A e s = (\<exists>m. s = Inr m \<and> (http_live e m \<or> http_closed A e m \<or> http_handed_over m))"

subsection \<open>What a completion leads to\<close>

definition on_strand :: "exec_env \<Rightarrow> bool" where
  "on_strand E = (on_runner E = ConnectionStrand)"

lemma doEof_live:
  assumes "socket_laws A" and "on_strand E" and "live_channel e h"
  shows "\<exists>h' st logs. HttpChannel_doEof A E h =
      Inr (h', map HttpCloseLog logs @ [HttpPostMarkUnused e]) \<and>
    \<not> hc_can_schedule_callbacks h' \<and> hc_stream h' = Here st \<and> \<not> is_open A (socket st)"
proof -
  obtain st where st: "hc_stream h = Here st" using assms(3) by (cases "hc_stream h") (auto simp: live_channel_def)
  show ?thesis
    using assms closeSocketUnsafe_closed [OF assms(1), of "socket st"]
    by (auto simp: HttpChannel_doEof_def member_guard_def on_strand_def live_channel_def st Let_def
        split: prod.splits)
qed

lemma onFail_live:
  assumes "socket_laws A" and "on_strand E" and "live_channel e h"
  shows "\<exists>h' st logs. HttpChannel_onFail A E ec what h =
      Inr (h', HttpLogFail (fail_log_level ec) ec what # map HttpCloseLog logs @ [HttpPostMarkUnused e]) \<and>
    \<not> hc_can_schedule_callbacks h' \<and> hc_stream h' = Here st \<and> \<not> is_open A (socket st)"
  using doEof_live [OF assms] assms(3) by (auto simp: HttpChannel_onFail_def live_channel_def)

lemma doRead_live:
  assumes "on_strand E" and "live_channel e h"
  shows "\<exists>h' st. HttpChannel_doRead E h = Inr (h', [HttpAsyncRead None]) \<and> live_channel e h' \<and>
    hc_parser h' = Some HttpChannel_kMaxMessageSizeByte \<and>
    hc_stream h' = Here st \<and> expiry st = ExpiresAfter kExpireTimeoutSec"
  using assms
  by (cases "hc_stream h")
     (auto simp: HttpChannel_doRead_def member_guard_def on_strand_def live_channel_def Let_def)

lemma http_send_live:
  assumes "on_strand E" and "live_channel e h"
  shows "http_send E r h = Inr (h, [HttpAsyncWrite r])"
  using assms
  by (cases "hc_stream h") (auto simp: http_send_def member_guard_def on_strand_def live_channel_def)

text \<open>The channel effects of the calls of \<open>handleRequest\<close>.\<close>

fun http_effect_of :: "request_effect \<Rightarrow> 's http_effect" where
  "http_effect_of (OpenFile p) = HttpOpenFile p"
| "http_effect_of (Send r) = HttpAsyncWrite r"

lemma answer_live:
  assumes "on_strand E" and "live_channel e h"
  shows "answer E es h = Inr (h, map http_effect_of es)"
  using http_send_live [OF assms] by (induction es rule: list.induct, simp, case_tac x1; simp)

lemma answer_effects:
  assumes "handleRequest b H d req c = Inr es"
  shows "length (ops_of (map http_effect_of es)) = 1"
    and "marks (map http_effect_of es) = []" and "upgrades (map http_effect_of es) = []"
  using assms handleRequest_cases [of b H d req c] by auto

text \<open>Each completion of a live channel ends in one of the three phases.\<close>

lemma closed_next:
  assumes "socket_laws A" and "on_strand E" and "http_live e m"
  shows "http_inv A e (hm_next m [] (HttpChannel_doEof A E (hm_channel m)))"
    and "http_inv A e (hm_next m [] (HttpChannel_onFail A E ec what (hm_channel m)))"
proof -
  from assms(3) have l: "live_channel e (hm_channel m)" by (simp add: http_live_def)
  show "http_inv A e (hm_next m [] (HttpChannel_doEof A E (hm_channel m)))"
    using doEof_live [OF assms(1,2) l] assms(3)
    by (auto simp: hm_next_def http_inv_def http_closed_def http_live_def)
  show "http_inv A e (hm_next m [] (HttpChannel_onFail A E ec what (hm_channel m)))"
    using onFail_live [OF assms(1,2) l, of ec what] assms(3)
    by (auto simp: hm_next_def http_inv_def http_closed_def http_live_def)
qed

lemma doRead_next:
  assumes "on_strand E" and "http_live e m"
  shows "http_inv A e (hm_next m [] (HttpChannel_doRead E (hm_channel m)))"
  using doRead_live [of E e "hm_channel m"] assms
  by (auto simp: hm_next_def http_inv_def http_live_def)

lemma on_strand_guards:
  assumes "on_strand E" and "live_channel e h"
  shows "member_guard E h k = k" "run_on E ConnectionStrand k = k"
    "dcheck (bld E) w (hc_is_stream_valid h) k = k"
    "dcheck (bld E) w (hc_can_schedule_callbacks h) k = k"
  using assms by (simp_all add: member_guard_def on_strand_def live_channel_def)

lemma onRead_next:
  assumes "socket_laws A" and "on_strand E" and "http_live e m" and "hm_ops m = [OpRead]"
  shows "http_inv A e (hm_next m [] (HttpChannel_onRead A H E ec req (hm_channel m)))"
proof -
  let ?h = "hm_channel m"
  from assms(3) have l: "live_channel e ?h" by (simp add: http_live_def)
  from assms(3,4) obtain st where st: "hc_stream ?h = Here st" "hc_parser ?h \<noteq> None"
    "expiry st = ExpiresAfter kExpireTimeoutSec" by (auto simp: http_live_def)
  note g = on_strand_guards [OF assms(2) l]
  consider "ec = EndOfStream" | "ec \<noteq> EndOfStream" "failed ec" | "\<not> failed ec" "req_is_upgrade req"
    | "\<not> failed ec" "\<not> req_is_upgrade req" by blast
  then show ?thesis
  proof cases
    case 1
    then show ?thesis using closed_next(1) [OF assms(1-3)] by (simp add: HttpChannel_onRead_def g)
  next
    case 2
    then show ?thesis using closed_next(2) [OF assms(1-3)] by (simp add: HttpChannel_onRead_def g)
  next
    case 3
    then have "ec = Success" by (simp add: not_failed)
    with 3 st assms(3) show ?thesis
      by (auto simp: HttpChannel_onRead_def g hm_next_def http_inv_def http_handed_over_def
          http_live_def Let_def)
  next
    case 4
    then have ec: "ec = Success" by (simp add: not_failed)
    obtain es where es: "handleRequest (bld E) H ''/'' req None = Inr es"
      using handleRequest_cases by blast
    from 4 st es assms(3) answer_live [OF assms(2) l, of es] answer_effects [OF es] show ?thesis
      by (auto simp: HttpChannel_onRead_def g ec hm_next_def http_inv_def http_live_def Let_def)
  qed
qed

lemma complete_next:
  assumes "socket_laws A" and "on_strand E" and "http_live e m" and "hm_ops m = [op]"
  shows "http_inv A e (hm_next m [] (http_complete A H need_eof E ec req op (hm_channel m)))"
proof (cases op)
  case OpPostedRead
  then show ?thesis using doRead_next [OF assms(2,3)] by simp
next
  case OpRead
  then show ?thesis using onRead_next assms by simp
next
  case (OpWrite r)
  from assms(3) have l: "live_channel e (hm_channel m)" by (simp add: http_live_def)
  note g = on_strand_guards [OF assms(2) l]
  show ?thesis
    using closed_next [OF assms(1-3)] doRead_next [OF assms(2,3)]
    by (simp add: OpWrite processWrittenResponse_def HttpChannel_onWrite_def g)
qed

lemma http_machine_inv:
  assumes "socket_laws A"
  shows "invariant_machine (http_start b stream buffer entity_id) (http_step A H need_eof b)
    (http_inv A entity_id)"
proof unfold_locales
  fix s assume "http_start b stream buffer entity_id s"
  then show "http_inv A entity_id s"
    by (simp add: http_start_def HttpChannel_new_def startReadAsync_def member_guard_def
        hm_next_def http_inv_def http_live_def live_channel_def)
next
  fix s t assume inv: "http_inv A entity_id s" and step: "http_step A H need_eof b s t"
  from step show "http_inv A entity_id t"
  proof (rule http_stepE)
    fix m ops1 op ops2 ec req
    assume 1: "s = Inr m" "hm_ops m = ops1 @ op # ops2"
      "t = hm_next m (ops1 @ ops2) (http_complete A H need_eof
        \<lparr>bld = b, on_runner = ConnectionStrand\<rparr> ec req op (hm_channel m))"
    with inv have live: "http_live entity_id m"
      by (auto simp: http_inv_def http_closed_def http_handed_over_def)
    with 1 have "ops1 = []" "ops2 = []" by (auto simp: http_live_def)
    with 1 complete_next [OF assms _ live, of "\<lparr>bld = b, on_runner = ConnectionStrand\<rparr>" op]
    show ?thesis by (simp add: on_strand_def)
  qed
qed

text \<open>The socket used for evaluation satisfies the law, so the machine exists on it.\<close>

interpretation demo_http: invariant_machine
  "http_start b (stream_of_socket demo_conn) buffer entity_id" "http_step demo_api H need_eof b"
  "http_inv demo_api entity_id" for b buffer entity_id H need_eof
  by (rule http_machine_inv [OF demo_api_laws])

subsection \<open>Properties\<close>

text \<open>A run for the witnesses: the posted read has started reading.\<close>

definition demo_http_initial :: "demo_socket http_machine" where
  "demo_http_initial = \<lparr>hm_channel = HttpChannel_new (stream_of_socket demo_conn) [] 7,
     hm_ops = [OpPostedRead], hm_log = [HttpPostRead]\<rparr>"

lemma demo_http_start:
  "http_reach demo_api demo_host (\<lambda>_. False) b (stream_of_socket demo_conn) [] 7 (Inr demo_http_initial)"
  by (rule reach_init)
     (simp add: http_start_def demo_http_initial_def HttpChannel_new_def startReadAsync_def
       member_guard_def hm_next_def)

text \<open>
  C11: a \<open>HttpChannel\<close> never fails one of its checks and never touches a moved-out stream, in
  either build, however its operations complete; and it is always in one of three phases. Live:
  exactly one operation is outstanding, a read or write having the 20 second deadline, and
  nothing has been reported. Closed: nothing is outstanding, the socket is closed and
  \<open>markUnused\<close> was posted exactly once, for its own entity. Handed over: nothing is
  outstanding, the stream was moved into exactly one upgrade task, its deadline switched off,
  and \<open>markUnused\<close> was never posted.
\<close>

theorem http_phases:
  assumes "socket_laws A"
    and "http_reach A H need_eof b stream buffer entity_id s"
  shows "\<exists>m. s = Inr m \<and>
    (http_live entity_id m \<or> http_closed A entity_id m \<or> http_handed_over m)"
  using invariant_machine.reach_inv [OF http_machine_inv [OF assms(1)] assms(2)]
  by (simp add: http_inv_def)

theorem http_phases_witness:
  "http_live 7 demo_http_initial \<or> http_closed demo_api 7 demo_http_initial \<or>
   http_handed_over demo_http_initial"
  using http_phases [OF demo_api_laws demo_http_start] by simp

text \<open>
  C35: the files a \<open>HttpChannel\<close> serves are named by the request target alone: the document root
  is the constant \<open>/\<close>, so a legal GET or HEAD target opens that very path of the host (with
  \<open>index.html\<close> appended to a directory), and the response is written on the same stream.
\<close>

theorem http_serves_root:
  assumes "on_runner E = ConnectionStrand"
    and "hc_is_stream_valid h" "hc_can_schedule_callbacks h" "hc_stream h = Here st" "hc_parser h \<noteq> None"
    and "req_method req \<in> {Get, Head}" "\<not> req_is_upgrade req" "\<not> illegal_target (req_target req)"
  shows "\<exists>r. HttpChannel_onRead A H E Success req h =
    Inr (h, [HttpOpenFile (if last (req_target req) = CHR ''/'' then req_target req @ ''index.html''
                           else req_target req),
             HttpAsyncWrite r])"
proof -
  let ?p = "if last (req_target req) = CHR ''/'' then req_target req @ ''index.html'' else req_target req"
  have p: "file_path ''/'' (req_target req) = ?p" by (simp add: file_path_def Let_def)
  have "\<exists>r. handleRequest (bld E) H ''/'' req None = Inr [OpenFile ?p, Send r]"
    using assms(6,8) by (auto simp: handleRequest_def p Let_def split: prod.split)
  then show ?thesis
    using assms(1-5,7)
    by (auto simp: HttpChannel_onRead_def member_guard_def http_send_def)
qed

theorem http_serves_root_witness:
  "\<exists>h r. HttpChannel_onRead demo_api demo_host (demo_env Release ConnectionStrand) Success
      (demo_get\<lparr>req_target := ''/etc/passwd''\<rparr>) h = Inr (h, [HttpOpenFile ''/etc/passwd'', HttpAsyncWrite r])"
  using http_serves_root [of "demo_env Release ConnectionStrand"
      "(HttpChannel_new (stream_of_socket demo_conn) [] 7)\<lparr>hc_parser := Some 100000\<rparr>" _
      "demo_get\<lparr>req_target := ''/etc/passwd''\<rparr>" demo_api demo_host]
  by (fastforce simp: HttpChannel_new_def demo_get_def)

text \<open>
  An upgrade builds the \<open>WsChannel\<close> from the stream that left the HTTP channel and starts
  its handshake: in either build the task returns for an entity that has a \<open>TcpConnection\<close>,
  the component then holds a \<open>WsChannel\<close> of that entity with the stream and no deadline, the
  HTTP channel is marked as moved out, exactly one accept is posted, with the client's request,
  and no other component of any entity changes.
\<close>

theorem http_upgrade_effect:
  assumes "registry R" and "reg_find R r e KTcp = Some (CTcp tcp)"
    and "on_runner E = RegistrySequence"
  shows "\<exists>r' tcp' ws. handleWebsocketUpgrade R C version E e stream req r = Inr (r', [WsPostStartAccept req]) \<and>
    reg_find R r' e KTcp = Some (CTcp tcp') \<and> ctx_ws_channel tcp' = Some ws \<and>
    wc_entity_id ws = e \<and> ws_lowest_layer ws = stream\<lparr>expiry := ExpiresNever\<rparr> \<and>
    map_option hc_is_stream_valid (ctx_http_channel tcp') = map_option (\<lambda>_. False) (ctx_http_channel tcp) \<and>
    (\<forall>x k. (x, k) \<noteq> (e, KTcp) \<longrightarrow> reg_find R r' x k = reg_find R r x k)"
  using registry.find_valid [OF assms(1,2)] assms
  by (cases "ctx_http_channel tcp")
     (auto simp: handleWebsocketUpgrade_def with_tcp_def WsChannel_new_def kMaxMessageSizeByte_def
      Ws_Channel.startAcceptAsync_def Let_def registry.find_set)


theorem http_upgrade_effect_witness:
  "\<exists>r' tcp' ws. handleWebsocketUpgrade ref_api ring_api ''B'' (demo_env Debug RegistrySequence) 7
      (stream_of_socket demo_conn) demo_get demo_registry = Inr (r', [WsPostStartAccept demo_get]) \<and>
    reg_find ref_api r' 7 KTcp = Some (CTcp tcp') \<and> ctx_ws_channel tcp' = Some ws"
  using http_upgrade_effect [OF ref.registry_axioms demo_registry_find(1),
      of "demo_env Debug RegistrySequence" ring_api "''B''" "stream_of_socket demo_conn" demo_get]
  by simp blast

context registry
begin

lemma channel_marks:
  "\<exists>r'. foldM (HttpChannel_markUnused R \<lparr>bld = b, on_runner = RegistrySequence\<rparr>) es r = Inr r' \<and>
     foldM (WsChannel_markUnused R \<lparr>bld = b, on_runner = RegistrySequence\<rparr>) es r = Inr r' \<and>
     (\<forall>x. reg_valid R r' x = reg_valid R r x) \<and>
     (\<forall>x k. reg_has R r' x k \<longleftrightarrow>
        reg_valid R r x \<and> x \<in> set es \<and> k = KTag UnusedTag \<or> reg_has R r x k)"
proof -
  have "HttpChannel_markUnused R = WsChannel_markUnused R"
    by (intro ext) (simp add: HttpChannel_markUnused_def WsChannel_markUnused_def)
  then show ?thesis using http_mark.marks_effect [of b es r] by simp
qed

end

text \<open>
  \<open>markUnused\<close> of both channels may be posted any number of times and for entities that are
  already destroyed: a sequence of such tasks never fails \<open>emplace\<close>, keeps every entity and
  component, and afterwards exactly the entities of the sequence that were still valid carry
  \<open>UnusedTag\<close> in addition.
\<close>

theorem markUnused_repeatable:
  assumes "registry R"
  shows "\<exists>r'. foldM (HttpChannel_markUnused R \<lparr>bld = b, on_runner = RegistrySequence\<rparr>) es r = Inr r' \<and>
     foldM (WsChannel_markUnused R \<lparr>bld = b, on_runner = RegistrySequence\<rparr>) es r = Inr r' \<and>
     (\<forall>x. reg_valid R r' x = reg_valid R r x) \<and>
     (\<forall>x k. reg_has R r' x k \<longleftrightarrow>
        reg_valid R r x \<and> x \<in> set es \<and> k = KTag UnusedTag \<or> reg_has R r x k)"
  by (rule registry.channel_marks [OF assms])

theorem markUnused_repeatable_witness:
  "\<exists>r'. foldM (HttpChannel_markUnused ref_api \<lparr>bld = Debug, on_runner = RegistrySequence\<rparr>) [7, 8, 7]
      (demo_registry :: (demo_socket, ring) ref_registry) = Inr r' \<and>
    reg_has ref_api r' 7 (KTag UnusedTag) \<and> \<not> reg_has ref_api r' 8 (KTag UnusedTag)"
  using markUnused_repeatable [OF ref.registry_axioms, of Debug "[7, 8, 7]" "demo_registry :: (demo_socket, ring) ref_registry"]
  by (auto simp: demo_registry_find ref.invalid_find reg_has_def)

end
