(* ===== verification/Http_Session.thy ===== *)
theory Http_Session
  imports Http_Machine
begin

text \<open>
  What a \<open>HttpChannel\<close> is for, without streams, strands and flags: a session reads a request,
  answers it, reads the next one unless the answer ends the connection, and may end or be handed over to
  a websocket only while no answer is under way or after a failure. \<open>http_session\<close> says that the
  machine of \<open>Http_Machine\<close> refines this session.
\<close>

subsection \<open>The session\<close>

datatype session_phase = Starting | Reading | Answering | Ended | Upgraded

record session =
  se_phase :: session_phase
  se_exchanges :: "(http_request \<times> response) list"

definition session_new :: session where
  "session_new = \<lparr>se_phase = Starting, se_exchanges = []\<rparr>"

inductive session_step :: "(http_request \<Rightarrow> response \<Rightarrow> bool) \<Rightarrow> (response \<Rightarrow> bool) \<Rightarrow> session \<Rightarrow> session \<Rightarrow> bool"
  for answers :: "http_request \<Rightarrow> response \<Rightarrow> bool" and ends :: "response \<Rightarrow> bool" where
  session_read: "se_phase a = Starting \<Longrightarrow> session_step answers ends a (a\<lparr>se_phase := Reading\<rparr>)"
| session_answer: "se_phase a = Reading \<Longrightarrow> \<not> req_is_upgrade req \<Longrightarrow> answers req r \<Longrightarrow>
    session_step answers ends a (a\<lparr>se_phase := Answering, se_exchanges := se_exchanges a @ [(req, r)]\<rparr>)"
| session_upgrade: "se_phase a = Reading \<Longrightarrow> session_step answers ends a (a\<lparr>se_phase := Upgraded\<rparr>)"
| session_next: "se_phase a = Answering \<Longrightarrow> \<not> ends (snd (last (se_exchanges a))) \<Longrightarrow>
    session_step answers ends a (a\<lparr>se_phase := Reading\<rparr>)"
| session_end: "se_phase a = Reading \<or> se_phase a = Answering \<Longrightarrow> session_step answers ends a (a\<lparr>se_phase := Ended\<rparr>)"

inductive_cases session_stepE: "session_step answers ends a a'"

abbreviation session_reach where
  "session_reach answers ends \<equiv> reach (\<lambda>a. a = session_new) (session_step answers ends)"

definition session_inv :: "(http_request \<Rightarrow> response \<Rightarrow> bool) \<Rightarrow> (response \<Rightarrow> bool) \<Rightarrow> session \<Rightarrow> bool" where
  "session_inv answers ends a =
     ((\<forall>(req, r) \<in> set (se_exchanges a). \<not> req_is_upgrade req \<and> answers req r) \<and>
      (\<forall>r \<in> set (butlast (map snd (se_exchanges a))). \<not> ends r) \<and>
      (se_phase a = Starting \<longrightarrow> se_exchanges a = []) \<and> (se_phase a = Answering \<longrightarrow> se_exchanges a \<noteq> []) \<and>
      (se_phase a \<in> {Reading, Upgraded} \<longrightarrow> (\<forall>r \<in> snd ` set (se_exchanges a). \<not> ends r)))"

lemma butlast_all: "(\<forall>x \<in> set (butlast xs). P x) \<Longrightarrow> (xs \<noteq> [] \<Longrightarrow> P (last xs)) \<Longrightarrow> \<forall>x \<in> set xs. P x"
  by (cases xs rule: rev_cases) auto

lemma session_machine: "invariant_machine (\<lambda>a. a = session_new) (session_step answers ends) (session_inv answers ends)"
proof unfold_locales
  fix a a' assume inv: "session_inv answers ends a" and "session_step answers ends a a'"
  from this(2) show "session_inv answers ends a'"
  proof (rule session_stepE)
    assume "a' = a\<lparr>se_phase := Reading\<rparr>" "se_phase a = Starting"
    with inv show ?thesis by (simp add: session_inv_def)
  next
    fix req r assume "a' = a\<lparr>se_phase := Answering, se_exchanges := se_exchanges a @ [(req, r)]\<rparr>"
      "se_phase a = Reading" "\<not> req_is_upgrade req" "answers req r"
    with inv show ?thesis by (auto simp: session_inv_def butlast_append)
  next
    assume "a' = a\<lparr>se_phase := Upgraded\<rparr>" "se_phase a = Reading"
    with inv show ?thesis by (simp add: session_inv_def)
  next
    assume 1: "a' = a\<lparr>se_phase := Reading\<rparr>" "se_phase a = Answering" "\<not> ends (snd (last (se_exchanges a)))"
    have "\<forall>r \<in> set (map snd (se_exchanges a)). \<not> ends r"
      by (rule butlast_all) (use inv 1 in \<open>auto simp: session_inv_def last_map\<close>)
    with inv 1 show ?thesis by (simp add: session_inv_def)
  next
    assume "a' = a\<lparr>se_phase := Ended\<rparr>" "se_phase a = Reading \<or> se_phase a = Answering"
    with inv show ?thesis by (auto simp: session_inv_def)
  qed
qed (simp add: session_inv_def session_new_def)

interpretation session: invariant_machine "\<lambda>a. a = session_new" "session_step answers ends" "session_inv answers ends"
  for answers ends by (rule session_machine)

subsection \<open>The simulation\<close>

text \<open>The responses that a channel has written, and the ones that answer a request.\<close>

definition sent :: "'s http_effect list \<Rightarrow> response list" where
  "sent es = concat (map (\<lambda>e. case e of HttpAsyncWrite r \<Rightarrow> [r] | _ \<Rightarrow> []) es)"

lemma sent_simps [simp]:
  "sent [] = []"
  "sent (e # es) = (case e of HttpAsyncWrite r \<Rightarrow> [r] | _ \<Rightarrow> []) @ sent es"
  "sent (es @ es') = sent es @ sent es'"
  "sent (map HttpCloseLog logs) = []"
  by (simp_all add: sent_def comp_def)

definition answers_request :: "build \<Rightarrow> http_host \<Rightarrow> http_request \<Rightarrow> response \<Rightarrow> bool" where
  "answers_request b H req r =
     (\<exists>es. handleRequest b H ''/'' req None = Inr es \<and> Send r \<in> set es)"

definition session_rel :: "'s socket_api \<Rightarrow> entity \<Rightarrow> 's http_machine \<Rightarrow> session \<Rightarrow> bool" where
  "session_rel A e m a = (sent (hm_log m) = map snd (se_exchanges a) \<and>
     (case se_phase a of
        Starting \<Rightarrow> http_live e m \<and> hm_ops m = [OpPostedRead] \<and> se_exchanges a = []
      | Reading \<Rightarrow> http_live e m \<and> hm_ops m = [OpRead]
      | Answering \<Rightarrow> http_live e m \<and> se_exchanges a \<noteq> [] \<and> hm_ops m = [OpWrite (snd (last (se_exchanges a)))]
      | Ended \<Rightarrow> http_closed A e m
      | Upgraded \<Rightarrow> http_handed_over m))"

definition http_rel :: "'s socket_api \<Rightarrow> entity \<Rightarrow> 's http_machine result \<Rightarrow> session \<Rightarrow> bool" where
  "http_rel A e s a = (\<exists>m. s = Inr m \<and> session_rel A e m a)"

lemma rel_end:
  assumes "socket_laws A" and "on_strand E" and "http_live e m" and "sent (hm_log m) = map snd (se_exchanges a)"
  shows "http_rel A e (hm_next m [] (HttpChannel_doEof A E (hm_channel m))) (a\<lparr>se_phase := Ended\<rparr>)"
    and "http_rel A e (hm_next m [] (HttpChannel_onFail A E ec what (hm_channel m))) (a\<lparr>se_phase := Ended\<rparr>)"
proof -
  from assms(3) have l: "live_channel e (hm_channel m)" by (simp add: http_live_def)
  show "http_rel A e (hm_next m [] (HttpChannel_doEof A E (hm_channel m))) (a\<lparr>se_phase := Ended\<rparr>)"
    using doEof_live [OF assms(1,2) l] assms(3,4)
    by (auto simp: hm_next_def http_rel_def session_rel_def http_closed_def http_live_def)
  show "http_rel A e (hm_next m [] (HttpChannel_onFail A E ec what (hm_channel m))) (a\<lparr>se_phase := Ended\<rparr>)"
    using onFail_live [OF assms(1,2) l, of ec what] assms(3,4)
    by (auto simp: hm_next_def http_rel_def session_rel_def http_closed_def http_live_def)
qed

lemma rel_read:
  assumes "on_strand E" and "http_live e m" and "sent (hm_log m) = map snd (se_exchanges a)"
  shows "http_rel A e (hm_next m [] (HttpChannel_doRead E (hm_channel m))) (a\<lparr>se_phase := Reading\<rparr>)"
  using doRead_live [of E e "hm_channel m"] assms
  by (auto simp: hm_next_def http_rel_def session_rel_def http_live_def)

text \<open>Each completion is a step of the session.\<close>

lemma rel_onRead:
  fixes A :: "'s socket_api"
  assumes "socket_laws A" and "on_strand E" and "session_rel A e m a" and "se_phase a = Reading"
  shows "\<exists>a'. session_step (answers_request (bld E) H) need_eof a a' \<and>
    http_rel A e (hm_next m [] (HttpChannel_onRead A H E ec req (hm_channel m))) a'"
proof -
  let ?h = "hm_channel m"
  from assms(3,4) have live: "http_live e m" and ops: "hm_ops m = [OpRead]"
    and sent: "sent (hm_log m) = map snd (se_exchanges a)" by (simp_all add: session_rel_def)
  from live have l: "live_channel e ?h" by (simp add: http_live_def)
  from live ops obtain st where st: "hc_stream ?h = Here st" "hc_parser ?h \<noteq> None"
    "expiry st = ExpiresAfter kExpireTimeoutSec" by (auto simp: http_live_def)
  note g = on_strand_guards [OF assms(2) l]
  have ending: "\<exists>a'. session_step (answers_request (bld E) H) need_eof a a' \<and> http_rel A e s a'"
    if "http_rel A e s (a\<lparr>se_phase := Ended\<rparr>)" for s
    using session_end [of a] assms(4) that by blast
  consider "ec = EndOfStream" | "ec \<noteq> EndOfStream" "failed ec" | "\<not> failed ec" "req_is_upgrade req"
    | "\<not> failed ec" "\<not> req_is_upgrade req" by blast
  then show ?thesis
  proof cases
    case 1
    then show ?thesis using ending [OF rel_end(1) [OF assms(1,2) live sent]] by (simp add: HttpChannel_onRead_def g)
  next
    case 2
    then show ?thesis using ending [OF rel_end(2) [OF assms(1,2) live sent]] by (simp add: HttpChannel_onRead_def g)
  next
    case 3
    then have "ec = Success" by (simp add: not_failed)
    with 3 st live sent have "http_rel A e (hm_next m [] (HttpChannel_onRead A H E ec req ?h)) (a\<lparr>se_phase := Upgraded\<rparr>)"
      by (auto simp: HttpChannel_onRead_def g hm_next_def http_rel_def session_rel_def http_handed_over_def
          http_live_def Let_def)
    with session_upgrade [of a] assms(4) show ?thesis by blast
  next
    case 4
    then have ec: "ec = Success" by (simp add: not_failed)
    obtain es r where es: "handleRequest (bld E) H ''/'' req None = Inr es" "Send r \<in> set es"
      "sent (map http_effect_of es :: 's http_effect list) = [r]"
      "ops_of (map http_effect_of es :: 's http_effect list) = [OpWrite r]"
      using handleRequest_cases [of "bld E" H "''/''" req None] by fastforce
    have quiet: "marks (map http_effect_of es :: 's http_effect list) = []"
      "upgrades (map http_effect_of es :: 's http_effect list) = []" by (rule answer_effects [OF es(1)])+
    let ?a = "a\<lparr>se_phase := Answering, se_exchanges := se_exchanges a @ [(req, r)]\<rparr>"
    have "HttpChannel_onRead A H E ec req ?h = Inr (?h, map http_effect_of es)"
      using 4 st es(1) answer_live [OF assms(2) l, of es] by (simp add: HttpChannel_onRead_def g ec)
    then have "http_rel A e (hm_next m [] (HttpChannel_onRead A H E ec req ?h)) ?a"
      using live sent st es quiet
      by (simp add: hm_next_def http_rel_def session_rel_def http_live_def)
    moreover have "session_step (answers_request (bld E) H) need_eof a ?a"
      by (rule session_answer) (use 4 assms(4) es in \<open>auto simp: answers_request_def\<close>)
    ultimately show ?thesis by blast
  qed
qed

lemma rel_complete:
  assumes "socket_laws A" and "on_strand E" and "session_rel A e m a" and "hm_ops m = ops1 @ op # ops2"
  shows "ops1 = []" and "ops2 = []"
    and "\<exists>a'. session_step (answers_request (bld E) H) need_eof a a' \<and>
      http_rel A e (hm_next m [] (http_complete A H need_eof E ec req op (hm_channel m))) a'"
proof -
  have phase: "se_phase a \<in> {Starting, Reading, Answering}"
    using assms(3,4) by (cases "se_phase a") (auto simp: session_rel_def http_closed_def http_handed_over_def)
  then have live: "http_live e m" and sent: "sent (hm_log m) = map snd (se_exchanges a)"
    using assms(3) by (auto simp: session_rel_def)
  then have l: "live_channel e (hm_channel m)" and "length (hm_ops m) = 1" by (simp_all add: http_live_def)
  with assms(4) show ops: "ops1 = []" "ops2 = []" by auto
  note g = on_strand_guards [OF assms(2) l]
  show "\<exists>a'. session_step (answers_request (bld E) H) need_eof a a' \<and>
      http_rel A e (hm_next m [] (http_complete A H need_eof E ec req op (hm_channel m))) a'"
  proof (cases "se_phase a")
    case Starting
    with assms(3,4) ops have "op = OpPostedRead" by (simp add: session_rel_def)
    then show ?thesis using rel_read [OF assms(2) live sent] session_read [OF Starting] by auto
  next
    case Reading
    with assms(3,4) ops have "op = OpRead" by (simp add: session_rel_def)
    then show ?thesis using rel_onRead [OF assms(1-3) Reading] by simp
  next
    case Answering
    let ?r = "snd (last (se_exchanges a))"
    from Answering assms(3,4) ops have op: "op = OpWrite ?r" by (simp add: session_rel_def)
    have ending: "session_step (answers_request (bld E) H) need_eof a (a\<lparr>se_phase := Ended\<rparr>)"
      by (rule session_end) (simp add: Answering)
    show ?thesis
    proof (cases "failed ec \<or> need_eof ?r")
      case True
      with rel_end [OF assms(1,2) live sent] ending show ?thesis
        by (auto simp: op processWrittenResponse_def HttpChannel_onWrite_def g)
    next
      case False
      with rel_read [OF assms(2) live sent] session_next [OF Answering] show ?thesis
        by (auto simp: op processWrittenResponse_def HttpChannel_onWrite_def g)
    qed
  qed (use phase in auto)
qed

lemma http_simulation:
  assumes "socket_laws A"
  shows "simulation (http_start b stream buffer e) (http_step A H need_eof b)
    (\<lambda>a. a = session_new) (session_step (answers_request b H) need_eof) (http_rel A e)"
proof unfold_locales
  fix s assume "http_start b stream buffer e s"
  then have "http_rel A e s session_new"
    by (auto simp: http_start_def HttpChannel_new_def startReadAsync_def member_guard_def hm_next_def http_rel_def
        session_rel_def session_new_def http_live_def live_channel_def)
  then show "\<exists>a. a = session_new \<and> http_rel A e s a" by blast
next
  fix s a t assume rel: "http_rel A e s a" and step: "http_step A H need_eof b s t"
  let ?E = "\<lparr>bld = b, on_runner = ConnectionStrand\<rparr>"
  have E: "on_strand ?E" by (simp add: on_strand_def)
  from step show "\<exists>a'. session_step (answers_request b H) need_eof a a' \<and> http_rel A e t a'"
  proof (rule http_stepE)
    fix m ops1 op ops2 ec req
    assume 1: "s = Inr m" "hm_ops m = ops1 @ op # ops2"
      "t = hm_next m (ops1 @ ops2) (http_complete A H need_eof ?E ec req op (hm_channel m))"
    with rel have "session_rel A e m a" by (simp add: http_rel_def)
    from rel_complete(1,2) [OF assms E this 1(2)] rel_complete(3) [OF assms E this 1(2), of H need_eof ec req] 1(3)
    show ?thesis by simp
  qed
qed

text \<open>On the socket used for evaluation:\<close>

interpretation demo_http_session: simulation "http_start b (stream_of_socket demo_conn) buffer e"
  "http_step demo_api H need_eof b" "\<lambda>a. a = session_new" "session_step (answers_request b H) need_eof"
  "http_rel demo_api e" for b buffer e H need_eof
  by (rule http_simulation [OF demo_api_laws])


text \<open>A run with one request, for the witness.\<close>

lemma demo_http_answered:
  "\<exists>m r. http_reach demo_api demo_host (\<lambda>_. False) Debug (stream_of_socket demo_conn) [] 7 (Inr m) \<and>
    sent (hm_log m) = [r]"
proof -
  let ?E = "\<lparr>bld = Debug, on_runner = ConnectionStrand\<rparr>"
  let ?step = "http_step demo_api demo_host (\<lambda>_. False) Debug"
  have E: "on_strand ?E" by (simp add: on_strand_def)
  have "live_channel 7 (hm_channel demo_http_initial)"
    by (simp add: demo_http_initial_def HttpChannel_new_def live_channel_def)
  from doRead_live [OF E this] obtain h1 st where
    h1: "HttpChannel_doRead ?E (hm_channel demo_http_initial) = Inr (h1, [HttpAsyncRead None])" "live_channel 7 h1"
    "hc_parser h1 = Some HttpChannel_kMaxMessageSizeByte" "hc_stream h1 = Here st" by blast
  let ?m1 = "\<lparr>hm_channel = h1, hm_ops = [OpRead], hm_log = [HttpPostRead, HttpAsyncRead None]\<rparr>"
  from step_complete [of demo_http_initial "[]" OpPostedRead "[]" demo_api demo_host "\<lambda>_. False" Debug] h1(1)
  have "?step (Inr demo_http_initial) (Inr ?m1)" by (simp add: demo_http_initial_def hm_next_def)
  with demo_http_start have r1: "http_reach demo_api demo_host (\<lambda>_. False) Debug (stream_of_socket demo_conn) [] 7 (Inr ?m1)"
    by (rule reach_step)
  obtain es r where es: "handleRequest Debug demo_host ''/'' demo_get None = Inr es"
    "sent (map http_effect_of es :: demo_socket http_effect list) = [r]"
    using handleRequest_cases [of Debug demo_host "''/''" demo_get None] by fastforce
  have "HttpChannel_onRead demo_api demo_host ?E Success demo_get h1 = Inr (h1, map http_effect_of es)"
    using es(1) answer_live [OF E h1(2), of es] h1(2-4)
    by (simp add: HttpChannel_onRead_def live_channel_def on_strand_guards [OF E h1(2)] demo_get_def)
  with step_complete [of ?m1 "[]" OpRead "[]" demo_api demo_host "\<lambda>_. False" Debug Success demo_get]
  have "?step (Inr ?m1) (Inr \<lparr>hm_channel = h1, hm_ops = ops_of (map http_effect_of es :: demo_socket http_effect list),
      hm_log = [HttpPostRead, HttpAsyncRead None] @ map http_effect_of es\<rparr>)" by (simp add: hm_next_def)
  from reach_step [OF r1 this] es(2) show ?thesis by (intro exI conjI) (assumption, simp)
qed


end
