(* ===== verification/Detect_Channel.thy ===== *)
theory Detect_Channel
  imports Unused_Marker
begin

text \<open>
  \<open>src/http/detect_channel.cpp\<close>, \<open>include/flexnet/http/detect_channel.hpp\<close>: the detector of a
  TLS handshake on a new connection. \<open>runDetector\<close> starts \<open>beast::async_detect_ssl\<close>, its
  completion \<open>onDetected\<close> moves stream and buffer into a task for the registry, and
  \<open>setSSLDetectResult\<close> stores them as a component of the entity.

  The detector has read into \<open>buffer_\<close> when \<open>onDetected\<close> runs (the argument \<open>received\<close>).
  \<open>fail_point\<close> is the answer of the fail point \<open>onDetect_\<close>. The periodic check that limits the
  detection time in debug builds appears as the two effects that start and stop it. Not
  modelled: weak pointers, message tracing, the promise of \<open>postTaskOnStrand\<close>.
\<close>

datatype 's detect_effect =
    DetectStartTimeout nat              \<comment> \<open>debug builds: seconds of the \<open>EndingTimeout\<close>\<close>
  | DetectAsync                         \<comment> \<open>\<open>beast::async_detect_ssl\<close>\<close>
  | DetectStopTimeout                   \<comment> \<open>\<open>timeoutResolver.Run()\<close>\<close>
  | DetectPostResult error_code bool "'s tcp_stream" string bool

type_synonym 's detect_handler = "'s DetectChannel \<Rightarrow> ('s DetectChannel \<times> 's detect_effect list) result"

definition default_expire_timeout :: nat where "default_expire_timeout = 30"

definition DetectChannel_new :: "'s \<Rightarrow> entity \<Rightarrow> 's DetectChannel" where
  "DetectChannel_new sock entity_id = \<lparr>
     dc_stream = Here (stream_of_socket sock),
     dc_is_stream_valid = True,
     dc_buffer = Here [],
     dc_is_buffer_valid = True,
     dc_detect_done = False,
     dc_entity_id = entity_id\<rparr>"

definition isDetectingInThisThread :: "exec_env \<Rightarrow> 's DetectChannel \<Rightarrow> bool result" where
  "isDetectingInThisThread E d =
     dcheck (bld E) ''isStreamValid'' (dc_is_stream_valid d)
     (dcheck (bld E) ''is_stream_valid_'' (dc_is_stream_valid d)
     (Inr (on_runner E = ConnectionStrand)))"

text \<open>\<open>DCHECK(isDetectingInThisThread())\<close>: evaluated in debug builds only.\<close>

definition check_detecting :: "exec_env \<Rightarrow> 's DetectChannel \<Rightarrow> 'a result \<Rightarrow> 'a result" where
  "check_detecting E d k =
     (if bld E = Debug then
        andThen (isDetectingInThisThread E d) (\<lambda>ok. dcheck (bld E) ''isDetectingInThisThread()'' ok k)
      else k)"

definition isDetected :: "'s DetectChannel \<Rightarrow> bool" where
  "isDetected d = dc_detect_done d"

definition configureDetector :: "exec_env \<Rightarrow> nat \<Rightarrow> 's DetectChannel \<Rightarrow> 's DetectChannel result" where
  "configureDetector E expire_timeout d =
     check_detecting E d
     (take_value ''stream_'' (dc_stream d) (\<lambda>st.
        let st = st\<lparr>expiry := ExpiresAfter expire_timeout\<rparr>
        in Inr (d\<lparr>dc_stream := Here (set_rate_limits 10000 850000 st)\<rparr>)))"

definition runDetector :: "exec_env \<Rightarrow> nat \<Rightarrow> 's detect_handler" where
  "runDetector E expire_timeout d =
     dcheck (bld E) ''isStreamValid'' (dc_is_stream_valid d)
     (check_detecting E d
     (andThen (configureDetector E expire_timeout d) (\<lambda>d.
        dcheck (bld E) ''is_stream_valid_'' (dc_is_stream_valid d)
        (dcheck (bld E) ''is_buffer_valid_'' (dc_is_buffer_valid d)
        (take_value ''stream_'' (dc_stream d) (\<lambda>_.
         take_value ''buffer_'' (dc_buffer d) (\<lambda>_.
           Inr (d, (if bld E = Debug then [DetectStartTimeout 7] else []) @ [DetectAsync]))))))))"

definition onDetected ::
  "'s socket_api \<Rightarrow> bool \<Rightarrow> exec_env \<Rightarrow> error_code \<Rightarrow> bool \<Rightarrow> string \<Rightarrow> 's detect_handler" where
  "onDetected A fail_point E ec handshakeResult received d =
     check_detecting E d
     (dcheck (bld E) ''is_stream_valid_'' (dc_is_stream_valid d)
     (dcheck (bld E) ''is_buffer_valid_'' (dc_is_buffer_valid d)
     (dcheck (bld E) ''!atomicDetectDoneFlag_'' (\<not> dc_detect_done d)
     (emit (if bld E = Debug then [DetectStopTimeout] else [])
     (let d = d\<lparr>dc_detect_done := True\<rparr>
      in take_value ''stream_'' (dc_stream d) (\<lambda>st.
         take_value ''buffer_'' (dc_buffer d) (\<lambda>buffer.
         let forceClosing = (\<not> is_open A (socket st));
             forceClosing = (if fail_point then True else forceClosing)
         in Inr (d\<lparr>dc_stream := MovedFrom, dc_buffer := MovedFrom,
                   dc_is_stream_valid := False, dc_is_buffer_valid := False\<rparr>,
                 [DetectPostResult ec handshakeResult st (buffer @ received) forceClosing]))))))))"

definition setSSLDetectResult ::
  "('r, 's, 'q) registry_api \<Rightarrow> exec_env \<Rightarrow> entity \<Rightarrow> error_code \<Rightarrow> bool \<Rightarrow> 's tcp_stream \<Rightarrow>
   string \<Rightarrow> bool \<Rightarrow> 'r \<Rightarrow> 'r result" where
  "setSSLDetectResult R E entity_id ec handshakeResult stream buffer need_close r =
     run_on E RegistrySequence
     (requires ''registry_->remove_if_exists'' (reg_valid R r entity_id)
     (let r = reg_remove R r entity_id (KTag UnusedSSLDetectResultTag);
          result = \<lparr>dr_ec = ec, dr_handshakeResult = handshakeResult, dr_stream = Here stream,
            dr_buffer = Here buffer, dr_need_close = need_close\<rparr>
      in Inr (reg_set R r entity_id (CSSL result))))"

subsection \<open>Lemmas\<close>

definition fresh_detector :: "'s DetectChannel \<Rightarrow> 's tcp_stream \<Rightarrow> string \<Rightarrow> bool" where
  "fresh_detector d st buffer = (dc_stream d = Here st \<and> dc_buffer d = Here buffer \<and>
     dc_is_stream_valid d \<and> dc_is_buffer_valid d \<and> \<not> dc_detect_done d)"

lemma check_detecting_pass:
  "on_runner E = ConnectionStrand \<Longrightarrow> dc_is_stream_valid d \<Longrightarrow> check_detecting E d k = k"
  by (simp add: check_detecting_def isDetectingInThisThread_def)

lemma runDetector_fresh:
  assumes "on_runner E = ConnectionStrand" and "fresh_detector d st buffer"
  shows "\<exists>d'. runDetector E n d = Inr (d', (if bld E = Debug then [DetectStartTimeout 7] else []) @ [DetectAsync]) \<and>
    fresh_detector d' (set_rate_limits 10000 850000 (st\<lparr>expiry := ExpiresAfter n\<rparr>)) buffer"
  using assms
  by (auto simp: runDetector_def configureDetector_def check_detecting_pass fresh_detector_def Let_def)

lemma onDetected_fresh:
  assumes "on_runner E = ConnectionStrand" and "fresh_detector d st buffer"
  shows "\<exists>d'. onDetected A fp E ec hs received d =
      Inr (d', (if bld E = Debug then [DetectStopTimeout] else []) @
        [DetectPostResult ec hs st (buffer @ received) (fp \<or> \<not> is_open A (socket st))]) \<and>
    dc_detect_done d' \<and> dc_stream d' = MovedFrom"
  using assms by (auto simp: onDetected_def check_detecting_pass fresh_detector_def Let_def)

lemma onDetected_again:
  assumes "dc_detect_done d" and "dc_stream d = MovedFrom"
  shows "\<not> returns (onDetected A fp E ec hs received d)"
  using assms
  by (cases "bld E")
     (auto simp: onDetected_def check_detecting_def isDetectingInThisThread_def dcheck_def Let_def)

subsection \<open>Properties\<close>

text \<open>
  The detection of a connection reports exactly once. On a new channel \<open>runDetector\<close> starts
  one detection with the given deadline and the rate limits, its completion posts one result
  with that stream and all bytes received, whatever the error code, and a further completion
  returns in no build. Closing is forced exactly when the socket is no longer open or the fail
  point is on, and in a debug build the time limit that was started is stopped.
\<close>

theorem detect_reports_once:
  assumes "on_runner E = ConnectionStrand"
  shows "\<exists>d1 d2 st. runDetector E n (DetectChannel_new s e) =
      Inr (d1, (if bld E = Debug then [DetectStartTimeout 7] else []) @ [DetectAsync]) \<and>
    onDetected A fp E ec hs received d1 =
      Inr (d2, (if bld E = Debug then [DetectStopTimeout] else []) @
        [DetectPostResult ec hs st received (fp \<or> \<not> is_open A s)]) \<and>
    st = \<lparr>socket = s, expiry = ExpiresAfter n, read_limit = Some 10000, write_limit = Some 850000\<rparr> \<and>
    (\<forall>ec' hs' received' fp'. \<not> returns (onDetected A fp' E ec' hs' received' d2))"
proof -
  have "fresh_detector (DetectChannel_new s e) (stream_of_socket s) []"
    by (simp add: fresh_detector_def DetectChannel_new_def)
  from runDetector_fresh [OF assms this, of n] obtain d1 where
    d1: "runDetector E n (DetectChannel_new s e) =
      Inr (d1, (if bld E = Debug then [DetectStartTimeout 7] else []) @ [DetectAsync])"
    "fresh_detector d1 (set_rate_limits 10000 850000 ((stream_of_socket s)\<lparr>expiry := ExpiresAfter n\<rparr>)) []"
    by blast
  from onDetected_fresh [OF assms d1(2), of A fp ec hs received] d1(1) show ?thesis
    using onDetected_again by (fastforce simp: set_rate_limits_def stream_of_socket_def)
qed

theorem detect_reports_once_witness:
  "\<exists>d1 d2 st. runDetector \<lparr>bld = Debug, on_runner = ConnectionStrand\<rparr> 30 (DetectChannel_new demo_conn 7) =
      Inr (d1, [DetectStartTimeout 7, DetectAsync]) \<and>
    onDetected demo_api False \<lparr>bld = Debug, on_runner = ConnectionStrand\<rparr> Success False ''GET'' d1 =
      Inr (d2, [DetectStopTimeout, DetectPostResult Success False st ''GET'' False])"
  using detect_reports_once [of "\<lparr>bld = Debug, on_runner = ConnectionStrand\<rparr>" 30 demo_conn 7 demo_api
      False Success False "''GET''"]
  by (auto simp: demo_api_def demo_conn_def)

text \<open>
  Storing the result makes it visible to the network system. For a live entity the task
  returns in every build, the entity has the result component with the posted values and no
  \<open>UnusedSSLDetectResultTag\<close>, also when it still carried an older result, and nothing else
  changes.
\<close>

theorem ssl_result_stored:
  assumes "registry R" and "on_runner E = RegistrySequence" and "reg_valid R r e"
  shows "\<exists>r'. setSSLDetectResult R E e ec hs st buf close r = Inr r' \<and>
    reg_find R r' e KSSL = Some (CSSL \<lparr>dr_ec = ec, dr_handshakeResult = hs, dr_stream = Here st,
      dr_buffer = Here buf, dr_need_close = close\<rparr>) \<and>
    \<not> reg_has R r' e (KTag UnusedSSLDetectResultTag) \<and>
    (\<forall>x k. (x, k) \<notin> {(e, KSSL), (e, KTag UnusedSSLDetectResultTag)} \<longrightarrow> reg_find R r' x k = reg_find R r x k)"
  using assms(2,3)
  by (simp add: setSSLDetectResult_def Let_def registry.find_set [OF assms(1)]
      registry.find_remove [OF assms(1)] registry.valid_remove [OF assms(1)] reg_has_def)

theorem ssl_result_stored_witness:
  "\<exists>r'. setSSLDetectResult ref_api \<lparr>bld = Debug, on_runner = RegistrySequence\<rparr> 7 Success False
      (stream_of_socket demo_conn) ''GET'' False (demo_registry :: (demo_socket, nat) ref_registry) = Inr r' \<and>
    reg_has ref_api r' 7 KSSL"
  using ssl_result_stored [OF ref.registry_axioms, of "\<lparr>bld = Debug, on_runner = RegistrySequence\<rparr>"
      "demo_registry :: (demo_socket, nat) ref_registry" 7]
  by (fastforce simp: demo_registry_find reg_has_def)

end
