(* ===== verification/Network_Systems.thy ===== *)
theory Network_Systems
  imports Detect_Channel Http_Channel "HOL-Library.Word"
begin

text \<open>
  The systems of \<open>plugin_NetworkEntity\<close> that a \<open>NetworkEntityUpdater\<close> runs over the registry
  (\<open>examples/server/plugins/plugin_NetworkEntity/src/ECS/systems\<close>): new connections, results of
  the TLS detection, children of unused entities, the two phases of delayed construction, unused
  entities, cleanup; and \<open>network_entity_updater.cc\<close>, which composes them.

  A loop over a view is \<open>each_entity\<close> over the list of entities that the view selects: every
  loop body changes the entity it is called with only, so the list is the one EnTT iterates.

  Parameters: \<open>exclude_not_constructed\<close> of the \<open>basis\<close> library is a list \<open>nc\<close> of excluded kinds;
  its parent/child helpers are a record \<open>relations\<close>; the feature switches that disable a system
  are booleans; \<open>ws_is_open\<close> is \<open>ws_.is_open()\<close>. Not modelled: histograms and logging, debug
  names and GUIDs of context variables.
\<close>

datatype 's net_effect =
    NetCloseLog entity close_log
  | NetPostRunDetector entity nat
  | NetHttp entity "'s http_effect"

fun each_entity ::
  "(entity \<Rightarrow> 'r \<Rightarrow> ('r \<times> 'e list) result) \<Rightarrow> entity list \<Rightarrow> 'r \<Rightarrow> ('r \<times> 'e list) result" where
  "each_entity f [] r = Inr (r, [])"
| "each_entity f (e # es) r = andThen (f e r) (\<lambda>(r, log). emit log (each_entity f es r))"

text \<open>
  The shape of \<open>updateNewConnections\<close> and \<open>updateSSLDetection\<close>: handle the results that are not
  tagged as used, and tag them.
\<close>

definition handle_and_tag ::
  "('r, 's, 'q) registry_api \<Rightarrow> build \<Rightarrow> tag \<Rightarrow> (entity \<Rightarrow> 'r \<Rightarrow> ('r \<times> 'e list) result) \<Rightarrow>
   entity \<Rightarrow> 'r \<Rightarrow> ('r \<times> 'e list) result" where
  "handle_and_tag R b used handle e r =
     dcheck b ''registry->valid(entity)'' (reg_valid R r e)
     (andThen (handle e r) (\<lambda>(r, log). andThen (ensure_tag R e used r) (\<lambda>r. Inr (r, log))))"

definition process_results ::
  "('r, 's, 'q) registry_api \<Rightarrow> build \<Rightarrow> kind \<Rightarrow> tag \<Rightarrow> kind list \<Rightarrow>
   (entity \<Rightarrow> 'r \<Rightarrow> ('r \<times> 'e list) result) \<Rightarrow> 'r \<Rightarrow> ('r \<times> 'e list) result" where
  "process_results R b k used nc handle r =
     each_entity (handle_and_tag R b used handle) (reg_view R r [k] (KTag used # nc)) r"

subsection \<open>New connections\<close>

definition closeAndReleaseResources ::
  "'s socket_api \<Rightarrow> ('r, 's, 'q) registry_api \<Rightarrow> exec_env \<Rightarrow> entity \<Rightarrow> 's AcceptConnectionResult \<Rightarrow>
   'r \<Rightarrow> ('r \<times> 's net_effect list) result" where
  "closeAndReleaseResources A R E e ar r =
     run_on E RegistrySequence
     (take_value ''acceptResult.socket'' (ar_socket ar) (\<lambda>s.
        let (s, logs) = closeSocketUnsafe A s;
            r = reg_set R r e (CAccept (ar\<lparr>ar_socket := Here s\<rparr>))
        in dcheck (bld E) ''registry->valid(entity_id)'' (reg_valid R r e)
          (andThen (ensure_tag R e UnusedTag r) (\<lambda>r. Inr (r, map (NetCloseLog e) logs)))))"

definition handleAcceptResult ::
  "'s socket_api \<Rightarrow> ('r, 's, 'q) registry_api \<Rightarrow> exec_env \<Rightarrow> entity \<Rightarrow> 'r \<Rightarrow>
   ('r \<times> 's net_effect list) result" where
  "handleAcceptResult A R E e r =
     run_on E RegistrySequence
     (dcheck (bld E) ''registry->valid(entity_id)'' (reg_valid R r e)
     (case reg_find R r e KAccept of
        Some (CAccept ar) \<Rightarrow>
          with_tcp R r e (\<lambda>tcp.
            dcheck (bld E) ''try_ctx_var<StrandComponent>'' (ctx_strand tcp)
            (if failed (ar_ec ar) then closeAndReleaseResources A R E e ar r
             else if ar_need_close ar then closeAndReleaseResources A R E e ar r
             else take_value ''acceptResult.socket'' (ar_socket ar) (\<lambda>s.
               let detect = DetectChannel_new s e;
                   r = reg_set R r e (CAccept (ar\<lparr>ar_socket := MovedFrom\<rparr>));
                   r = reg_set R r e (CTcp (tcp\<lparr>ctx_detect_channel := Some detect\<rparr>))
               in dcheck (bld E) ''entityId() == entity_id'' (dc_entity_id detect = e)
                 (dcheck (bld E) ''isDetected() == false'' (\<not> isDetected detect)
                 (Inr (r, [NetPostRunDetector e 3]))))))
      | _ \<Rightarrow> Inl (UNDEFINED ''AcceptConnectionResult'')))"

definition updateNewConnections ::
  "'s socket_api \<Rightarrow> ('r, 's, 'q) registry_api \<Rightarrow> kind list \<Rightarrow> exec_env \<Rightarrow> 'r \<Rightarrow>
   ('r \<times> 's net_effect list) result" where
  "updateNewConnections A R nc E r =
     run_on E RegistrySequence
       (process_results R (bld E) KAccept UnusedAcceptResultTag nc (handleAcceptResult A R E) r)"

subsection \<open>Results of the TLS detection\<close>

definition kShutdownExpireTimeoutSec :: nat where "kShutdownExpireTimeoutSec = 5"

text \<open>\<open>doCloseStream\<close> (\<open>basic_stream::close\<close> closes the socket), then \<open>doMarkUnused\<close>.\<close>

definition doCloseStream :: "'s socket_api \<Rightarrow> 's tcp_stream \<Rightarrow> 's tcp_stream" where
  "doCloseStream A st =
     (let st = (if is_open A (socket st) then st\<lparr>expiry := ExpiresAfter kShutdownExpireTimeoutSec\<rparr> else st)
      in st\<lparr>socket := fst (close_fd A (socket st))\<rparr>)"

definition doMarkUnused ::
  "'s socket_api \<Rightarrow> ('r, 's, 'q) registry_api \<Rightarrow> exec_env \<Rightarrow> entity \<Rightarrow> 's SSLDetectResult \<Rightarrow>
   's tcp_stream \<Rightarrow> 'r \<Rightarrow> ('r \<times> 's net_effect list) result" where
  "doMarkUnused A R E e dr st r =
     run_on E RegistrySequence
     (let (s, logs) = closeSocketUnsafe A (socket st);
          r = reg_set R r e (CSSL (dr\<lparr>dr_stream := Here (st\<lparr>socket := s\<rparr>)\<rparr>))
      in dcheck (bld E) ''registry->valid(entity_id)'' (reg_valid R r e)
        (andThen (ensure_tag R e UnusedTag r) (\<lambda>r. Inr (r, map (NetCloseLog e) logs))))"

definition handleSSLDetectResult ::
  "'s socket_api \<Rightarrow> ('r, 's, 'q) registry_api \<Rightarrow> exec_env \<Rightarrow> entity \<Rightarrow> 'r \<Rightarrow>
   ('r \<times> 's net_effect list) result" where
  "handleSSLDetectResult A R E e r =
     run_on E RegistrySequence
     (dcheck (bld E) ''registry->valid(entity_id)'' (reg_valid R r e)
     (case reg_find R r e KSSL of
        Some (CSSL dr) \<Rightarrow>
          take_value ''detectResult.stream'' (dr_stream dr) (\<lambda>st.
            if dr_need_close dr then doMarkUnused A R E e dr (doCloseStream A st) r
            else if failed (dr_ec dr) then doMarkUnused A R E e dr (doCloseStream A st) r
            else with_tcp R r e (\<lambda>tcp.
              take_value ''detectResult.buffer'' (dr_buffer dr) (\<lambda>buffer.
                let channel = HttpChannel_new st buffer e
                in dcheck (bld E) ''entityId() == entity_id'' (hc_entity_id channel = e)
                  (andThen (Http_Channel.startReadAsync E channel) (\<lambda>(channel, log).
                    let r = reg_set R r e (CSSL (dr\<lparr>dr_stream := MovedFrom, dr_buffer := MovedFrom\<rparr>));
                        r = reg_set R r e (CTcp (tcp\<lparr>ctx_http_channel := Some channel\<rparr>))
                    in Inr (r, map (NetHttp e) log))))))
      | _ \<Rightarrow> Inl (UNDEFINED ''SSLDetectResult'')))"

definition updateSSLDetection ::
  "'s socket_api \<Rightarrow> ('r, 's, 'q) registry_api \<Rightarrow> kind list \<Rightarrow> exec_env \<Rightarrow> 'r \<Rightarrow>
   ('r \<times> 's net_effect list) result" where
  "updateSSLDetection A R nc E r =
     run_on E RegistrySequence
       (process_results R (bld E) KSSL UnusedSSLDetectResultTag nc (handleSSLDetectResult A R E) r)"

subsection \<open>Children of unused entities\<close>

record 'r relations =
  has_first_child :: "'r \<Rightarrow> entity \<Rightarrow> bool"
  top_level_children :: "'r \<Rightarrow> entity \<Rightarrow> entity list"
  removeTopLevelChildrenFromView :: "'r \<Rightarrow> 'r"

definition groupParentsWithUnusedChilds ::
  "('r, 's, 'q) registry_api \<Rightarrow> 'r relations \<Rightarrow> 'r \<Rightarrow> entity list" where
  "groupParentsWithUnusedChilds R L r =
     filter (has_first_child L r)
       (reg_view R r [KTag UnusedTag] [KTag NeedToDestroyTag, KTag DelayedConstruction])"

definition mark_child ::
  "('r, 's, 'q) registry_api \<Rightarrow> exec_env \<Rightarrow> entity \<Rightarrow> 'r \<Rightarrow> 'r result" where
  "mark_child R E childId r =
     dcheck (bld E) ''!has<Internal_ChildrenToDestroy>'' (\<not> reg_has R r childId (KTag ChildrenToDestroy))
       (reg_emplace R childId (CTag ChildrenToDestroy) r)"

definition destroy_child_later ::
  "('r, 's, 'q) registry_api \<Rightarrow> exec_env \<Rightarrow> entity \<Rightarrow> 'r \<Rightarrow> 'r result" where
  "destroy_child_later R E childId r =
     dcheck (bld E) ''!has<NeedToDestroyTag>'' (\<not> reg_has R r childId (KTag NeedToDestroyTag))
     (andThen (reg_emplace R childId (CTag NeedToDestroyTag) r) (\<lambda>r.
        Inr (reg_remove R r childId (KTag ChildrenToDestroy))))"

definition updateUnusedChildList ::
  "('r, 's, 'q) registry_api \<Rightarrow> 'r relations \<Rightarrow> exec_env \<Rightarrow> 'r \<Rightarrow> 'r result" where
  "updateUnusedChildList R L E r =
     run_on E RegistrySequence
     (andThen (foldM (\<lambda>p r. foldM (mark_child R E) (top_level_children L r p) r)
        (groupParentsWithUnusedChilds R L r) r) (\<lambda>r.
      andThen (foldM (destroy_child_later R E) (reg_view R r [KTag ChildrenToDestroy] []) r) (\<lambda>r.
        Inr (removeTopLevelChildrenFromView L r))))"

subsection \<open>Delayed construction\<close>

definition updateDelayedConstructionJustDone ::
  "('r, 's, 'q) registry_api \<Rightarrow> exec_env \<Rightarrow> 'r \<Rightarrow> 'r result" where
  "updateDelayedConstructionJustDone R E r =
     run_on E RegistrySequence
     (foldM (\<lambda>e r.
        dcheck (bld E) ''registry->valid(entity_id)'' (reg_valid R r e)
        (dcheck (bld E) ''!has<DelayedConstruction>'' (\<not> reg_has R r e (KTag DelayedConstruction))
        (dcheck (bld E) ''has<DelayedConstructionJustDone>'' (reg_has R r e (KTag DelayedConstructionJustDone))
        (Inr (reg_remove R r e (KTag DelayedConstructionJustDone))))))
      (reg_view R r [KTag DelayedConstructionJustDone] [KTag NeedToDestroyTag]) r)"

definition updateDelayedConstruction ::
  "('r, 's, 'q) registry_api \<Rightarrow> exec_env \<Rightarrow> 'r \<Rightarrow> 'r result" where
  "updateDelayedConstruction R E r =
     run_on E RegistrySequence
     (foldM (\<lambda>e r.
        dcheck (bld E) ''registry->valid(entity_id)'' (reg_valid R r e)
        (dcheck (bld E) ''has<DelayedConstruction>'' (reg_has R r e (KTag DelayedConstruction))
        (let r = reg_remove R r e (KTag DelayedConstruction)
         in dcheck (bld E) ''!has<DelayedConstruction>'' (\<not> reg_has R r e (KTag DelayedConstruction))
           (reg_emplace R e (CTag DelayedConstructionJustDone) r))))
      (reg_view R r [KTag DelayedConstruction] [KTag NeedToDestroyTag]) r)"

subsection \<open>Unused entities and cleanup\<close>

definition updateUnusedSystem ::
  "('r, 's, 'q) registry_api \<Rightarrow> bool \<Rightarrow> exec_env \<Rightarrow> 'r \<Rightarrow> 'r result" where
  "updateUnusedSystem R disabled E r =
     run_on E RegistrySequence
     (if disabled then Inr r
      else foldM (\<lambda>e r.
        dcheck (bld E) ''registry->valid(entity_id)'' (reg_valid R r e)
        (dcheck (bld E) ''!has<NeedToDestroyTag>'' (\<not> reg_has R r e (KTag NeedToDestroyTag))
        (reg_emplace R e (CTag NeedToDestroyTag) r)))
      (reg_view R r [KTag UnusedTag] [KTag NeedToDestroyTag]) r)"

text \<open>
  Destroying an entity destroys its components: the destructors of the channels in the context
  of its \<open>TcpConnection\<close> run, with their checks.
\<close>

definition delete_channels ::
  "'s socket_api \<Rightarrow> (('s, 'q) WsChannel \<Rightarrow> bool) \<Rightarrow> build \<Rightarrow> ('s, 'q) TcpConnection \<Rightarrow> unit result" where
  "delete_channels A ws_is_open b tcp =
     andThen (case ctx_http_channel tcp of None \<Rightarrow> Inr () | Some h \<Rightarrow> HttpChannel_delete A b h) (\<lambda>_.
       case ctx_ws_channel tcp of None \<Rightarrow> Inr () | Some w \<Rightarrow> WsChannel_delete b (ws_is_open w) w)"

definition destroy_entity ::
  "'s socket_api \<Rightarrow> (('s, 'q) WsChannel \<Rightarrow> bool) \<Rightarrow> ('r, 's, 'q) registry_api \<Rightarrow> build \<Rightarrow> entity \<Rightarrow>
   'r \<Rightarrow> 'r result" where
  "destroy_entity A ws_is_open R b e r =
     requires ''registry->destroy'' (reg_valid R r e)
     (andThen (case reg_find R r e KTcp of
         Some (CTcp tcp) \<Rightarrow> delete_channels A ws_is_open b tcp
       | _ \<Rightarrow> Inr ()) (\<lambda>_. Inr (reg_destroy R r e)))"

definition updateCleanupSystem ::
  "'s socket_api \<Rightarrow> (('s, 'q) WsChannel \<Rightarrow> bool) \<Rightarrow> ('r, 's, 'q) registry_api \<Rightarrow> bool \<Rightarrow> exec_env \<Rightarrow>
   'r \<Rightarrow> 'r result" where
  "updateCleanupSystem A ws_is_open R disabled E r =
     run_on E RegistrySequence
     (if disabled then Inr r
      else foldM (destroy_entity A ws_is_open R (bld E)) (reg_view R r [KTag NeedToDestroyTag] []) r)"

subsection \<open>The updater\<close>

record updater =
  numQueuedUpdateTasks :: "64 word"   \<comment> \<open>\<open>std::atomic<size_t>\<close>\<close>
  warnBigUpdateQueueSize :: "64 word"
  warnBigUpdateQueueFreqMs :: int

text \<open>
  The constructor: the counter is not initialised, so it starts with what is in memory. A switch of the command line replaces
  a default (\<open>GET_SWITCH_AS_SIZE_T\<close> and \<open>GET_SWITCH_AS_INT\<close> of the \<open>basis\<close> library are parameters).
\<close>

definition NetworkEntityUpdater_new ::
  "(string \<Rightarrow> 64 word option) \<Rightarrow> (string \<Rightarrow> int option) \<Rightarrow> 64 word \<Rightarrow> updater" where
  "NetworkEntityUpdater_new switch_as_size switch_as_int memory =
     \<lparr>numQueuedUpdateTasks = memory,
      warnBigUpdateQueueSize = (case switch_as_size ''network-entity-updater-warn-big-update-queue-size'' of
        None \<Rightarrow> 100 | Some n \<Rightarrow> n),
      warnBigUpdateQueueFreqMs = (case switch_as_int ''network-entity-updater-warn-big-update-queue-freq-ms'' of
        None \<Rightarrow> 100 | Some n \<Rightarrow> n)\<rparr>"

datatype update_effect = PostUpdateOnRegistryThread | WarnSkippedUpdate

definition update ::
  "bool \<Rightarrow> bool \<Rightarrow> build \<Rightarrow> updater \<Rightarrow> (updater \<times> update_effect list) result" where
  "update ioc_stopped registry_empty b u =
     (if ioc_stopped then
        dcheck b ''registry_.registryUnsafe().empty()'' registry_empty (Inr (u, [WarnSkippedUpdate]))
      else Inr (u\<lparr>numQueuedUpdateTasks := numQueuedUpdateTasks u + 1\<rparr>, [PostUpdateOnRegistryThread]))"

text \<open>The environment of an update: the features that disable the last two systems.\<close>

record features =
  disable_unused_system :: bool
  disable_cleanup_system :: bool

definition updateOnRegistryThread ::
  "'s socket_api \<Rightarrow> (('s, 'q) WsChannel \<Rightarrow> bool) \<Rightarrow> ('r, 's, 'q) registry_api \<Rightarrow> kind list \<Rightarrow>
   'r relations \<Rightarrow> features \<Rightarrow> exec_env \<Rightarrow> updater \<Rightarrow> 'r \<Rightarrow> (updater \<times> 'r \<times> 's net_effect list) result" where
  "updateOnRegistryThread A ws_is_open R nc L F E u r =
     run_on E RegistrySequence
     (let u = u\<lparr>numQueuedUpdateTasks := numQueuedUpdateTasks u - 1\<rparr>
      in andThen (updateNewConnections A R nc E r) (\<lambda>(r, log1).
         andThen (updateSSLDetection A R nc E r) (\<lambda>(r, log2).
         andThen (updateUnusedChildList R L E r) (\<lambda>r.
         andThen (updateDelayedConstructionJustDone R E r) (\<lambda>r.
         andThen (updateDelayedConstruction R E r) (\<lambda>r.
         andThen (updateUnusedSystem R (disable_unused_system F) E r) (\<lambda>r.
         andThen (updateCleanupSystem A ws_is_open R (disable_cleanup_system F) E r) (\<lambda>r.
           Inr (u, r, log1 @ log2)))))))))"

end
