(* ===== verification/Result_Queue.thy ===== *)
theory Result_Queue
  imports Network_Systems
begin

text \<open>
  The contract of a result that waits in the registry for its system: \<open>handle\<close> consumes the
  result component of one entity, \<open>used\<close> tags it as consumed. The locale states what
  \<open>handleAcceptResult\<close> and \<open>handleSSLDetectResult\<close> promise, and proves once that the loop of
  their systems handles every waiting result exactly once; both are instances, for every
  registry.
\<close>

definition same_elsewhere :: "('r, 's, 'q) registry_api \<Rightarrow> 'r \<Rightarrow> 'r \<Rightarrow> entity set \<Rightarrow> bool" where
  "same_elsewhere R r r' es = ((\<forall>x. reg_valid R r' x = reg_valid R r x) \<and>
     (\<forall>x k. x \<notin> es \<longrightarrow> reg_find R r' x k = reg_find R r x k))"

lemma same_elsewhere_trans:
  "same_elsewhere R r1 r2 es1 \<Longrightarrow> same_elsewhere R r2 r3 es2 \<Longrightarrow> same_elsewhere R r1 r3 (es1 \<union> es2)"
  by (simp add: same_elsewhere_def)

lemma same_elsewhere_refl [simp]: "same_elsewhere R r r es"
  by (simp add: same_elsewhere_def)

lemma same_elsewhere_has:
  "same_elsewhere R r r' es \<Longrightarrow> x \<notin> es \<Longrightarrow> reg_has R r' x k = reg_has R r x k"
  by (simp add: same_elsewhere_def reg_has_def)

text \<open>
  What handling a result does to the components of its own entity: kinds outside \<open>K\<close> are kept,
  and the entity is given up (\<open>UnusedTag\<close>) exactly when the result is \<open>doomed\<close>, in which case
  its \<open>TcpConnection\<close> is kept too.
\<close>

definition settled ::
  "('r, 's, 'q) registry_api \<Rightarrow> kind set \<Rightarrow> bool \<Rightarrow> 'r \<Rightarrow> 'r \<Rightarrow> entity \<Rightarrow> bool" where
  "settled R K doomed r r' e = ((\<forall>k. k \<notin> K \<longrightarrow> reg_find R r' e k = reg_find R r e k) \<and>
     (reg_has R r' e (KTag UnusedTag) \<longleftrightarrow> reg_has R r e (KTag UnusedTag) \<or> doomed) \<and>
     (doomed \<longrightarrow> reg_find R r' e KTcp = reg_find R r e KTcp))"

lemma settled_cong:
  assumes "\<And>k. reg_find R r1 e k = reg_find R r2 e k" and "\<And>k. reg_find R s1 e k = reg_find R s2 e k"
  shows "settled R K d r1 s1 e = settled R K d r2 s2 e"
  using assms by (simp add: settled_def reg_has_def)

locale result_queue = registry R
  for R :: "('r, 's, 'q) registry_api" +
  fixes handle :: "entity \<Rightarrow> 'r \<Rightarrow> ('r \<times> 'e list) result"
    and result_kind :: kind
    and used :: tag
    and ready :: "'r \<Rightarrow> entity \<Rightarrow> bool"
    and doomed :: "'r \<Rightarrow> entity \<Rightarrow> bool"
  assumes handle_ready: "reg_valid R r e \<Longrightarrow> ready r e \<Longrightarrow>
      \<exists>r' log. handle e r = Inr (r', log) \<and> same_elsewhere R r r' {e} \<and>
        settled R {result_kind, KTcp, KTag UnusedTag} (doomed r e) r r' e"
    and ready_local: "(\<And>k. reg_find R r' e k = reg_find R r e k) \<Longrightarrow>
      ready r' e = ready r e \<and> doomed r' e = doomed r e"
    and used_tag: "used \<noteq> UnusedTag"
begin

abbreviation touched :: "kind set" where
  "touched \<equiv> {result_kind, KTcp, KTag UnusedTag, KTag used}"

lemma handle_and_tag_ready:
  assumes "reg_valid R r e" and "ready r e"
  shows "\<exists>r' log. handle_and_tag R b used handle e r = Inr (r', log) \<and> same_elsewhere R r r' {e} \<and>
    reg_has R r' e (KTag used) \<and> settled R touched (doomed r e) r r' e"
proof -
  from handle_ready [OF assms] obtain r1 log where
    h: "handle e r = Inr (r1, log)" "same_elsewhere R r r1 {e}"
    "settled R {result_kind, KTcp, KTag UnusedTag} (doomed r e) r r1 e" by blast
  with assms(1) have "reg_valid R r1 e" by (simp add: same_elsewhere_def)
  from ensure_tag_effect [OF this, of used] obtain r2 where
    t: "ensure_tag R e used r1 = Inr r2" "\<And>x. reg_valid R r2 x = reg_valid R r1 x"
    "\<And>x k. reg_has R r2 x k \<longleftrightarrow> x = e \<and> k = KTag used \<or> reg_has R r1 x k"
    "\<And>x k. \<not> (x = e \<and> k = KTag used) \<Longrightarrow> reg_find R r2 x k = reg_find R r1 x k" by blast
  have "handle_and_tag R b used handle e r = Inr (r2, log)"
    by (simp add: handle_and_tag_def assms(1) h(1) t(1))
  moreover have "reg_has R r2 e (KTag used)" by (simp add: t(3))
  moreover have "same_elsewhere R r r2 {e}" using t h(2) by (auto simp: same_elsewhere_def)
  moreover have "settled R touched (doomed r e) r r2 e"
    using h(3) used_tag unfolding settled_def t(3)
    by (intro conjI allI impI) (simp_all add: t(4))
  ultimately show ?thesis by blast
qed

lemma each_ready:
  assumes "distinct es" and "\<forall>e \<in> set es. reg_valid R r e \<and> ready r e"
  shows "\<exists>r' log. each_entity (handle_and_tag R b used handle) es r = Inr (r', log) \<and>
    same_elsewhere R r r' (set es) \<and>
    (\<forall>e \<in> set es. reg_has R r' e (KTag used) \<and> settled R touched (doomed r e) r r' e)"
  using assms
proof (induction es arbitrary: r)
  case Nil
  then show ?case by simp
next
  case (Cons e es)
  then have "reg_valid R r e" "ready r e" by auto
  from handle_and_tag_ready [OF this] obtain r1 log1 where h: "handle_and_tag R b used handle e r = Inr (r1, log1)"
    "same_elsewhere R r r1 {e}" "reg_has R r1 e (KTag used)" "settled R touched (doomed r e) r r1 e"
    by blast
  have same: "reg_find R r1 x k = reg_find R r x k" "reg_valid R r1 x = reg_valid R r x"
    if "x \<in> set es" for x k
    using that Cons.prems(1) h(2) by (auto simp: same_elsewhere_def)
  have prem: "\<forall>x \<in> set es. reg_valid R r1 x \<and> ready r1 x"
    using same ready_local Cons.prems(2) by (metis list.set_intros(2))
  with Cons.IH [of r1] Cons.prems(1) obtain r2 log2 where
    r2: "each_entity (handle_and_tag R b used handle) es r1 = Inr (r2, log2)"
    "same_elsewhere R r1 r2 (set es)"
    "\<forall>x \<in> set es. reg_has R r2 x (KTag used) \<and> settled R touched (doomed r1 x) r1 r2 x" by auto
  have e: "e \<notin> set es" using Cons.prems(1) by simp
  then have "\<And>k. reg_find R r2 e k = reg_find R r1 e k" using r2(2) by (simp add: same_elsewhere_def)
  then have "settled R touched (doomed r e) r r2 e" "reg_has R r2 e (KTag used)"
    using h(3,4) settled_cong [of R r e r r2 r1] by (auto simp: reg_has_def)
  moreover have "settled R touched (doomed r x) r r2 x" if "x \<in> set es" for x
    using r2(3) that same [OF that] ready_local [of r1 x r] settled_cong [of R r1 x r r2 r2] by auto
  ultimately show ?case using h r2 same_elsewhere_trans [OF h(2) r2(2)] by auto
qed

text \<open>One pass handles all waiting results; the next pass finds nothing to do.\<close>

lemma process_once:
  assumes "\<And>e. e \<in> set (reg_view R r [result_kind] (KTag used # nc)) \<Longrightarrow> ready r e"
  shows "\<exists>r' log. process_results R b result_kind used nc handle r = Inr (r', log) \<and>
    same_elsewhere R r r' (set (reg_view R r [result_kind] (KTag used # nc))) \<and>
    (\<forall>e \<in> set (reg_view R r [result_kind] (KTag used # nc)). reg_has R r' e (KTag used) \<and>
      settled R touched (doomed r e) r r' e) \<and>
    process_results R b result_kind used nc handle r' = Inr (r', [])"
proof -
  let ?es = "reg_view R r [result_kind] (KTag used # nc)"
  have "\<forall>e \<in> set ?es. reg_valid R r e \<and> ready r e"
    using assms set_view by auto
  from each_ready [OF distinct_view this] obtain r' log where
    r': "each_entity (handle_and_tag R b used handle) ?es r = Inr (r', log)" "same_elsewhere R r r' (set ?es)"
    "\<forall>e \<in> set ?es. reg_has R r' e (KTag used) \<and> settled R touched (doomed r e) r r' e" by blast
  have "set (reg_view R r' [result_kind] (KTag used # nc)) = {}"
  proof -
    have False if x: "x \<in> set (reg_view R r' [result_kind] (KTag used # nc))" for x
    proof (cases "x \<in> set ?es")
      case True
      with r'(3) x show False by (auto simp: set_view)
    next
      case False
      with x r'(2) show False
        by (auto simp: set_view same_elsewhere_has) (simp_all add: same_elsewhere_def)
    qed
    then show ?thesis by (meson equals0I)
  qed
  with r' show ?thesis by (auto simp: process_results_def)
qed

end

subsection \<open>The instances\<close>

definition accept_ready :: "('r, 's, 'q) registry_api \<Rightarrow> 'r \<Rightarrow> entity \<Rightarrow> bool" where
  "accept_ready R r e = (\<exists>tcp ar s. reg_find R r e KTcp = Some (CTcp tcp) \<and> ctx_strand tcp \<and>
     reg_find R r e KAccept = Some (CAccept ar) \<and> ar_socket ar = Here s)"

definition ssl_ready :: "('r, 's, 'q) registry_api \<Rightarrow> 'r \<Rightarrow> entity \<Rightarrow> bool" where
  "ssl_ready R r e = (\<exists>tcp dr st buffer. reg_find R r e KTcp = Some (CTcp tcp) \<and>
     reg_find R r e KSSL = Some (CSSL dr) \<and> dr_stream dr = Here st \<and> dr_buffer dr = Here buffer)"

definition accept_doomed :: "('r, 's, 'q) registry_api \<Rightarrow> 'r \<Rightarrow> entity \<Rightarrow> bool" where
  "accept_doomed R r e = (case reg_find R r e KAccept of
     Some (CAccept ar) \<Rightarrow> failed (ar_ec ar) \<or> ar_need_close ar | _ \<Rightarrow> False)"

definition ssl_doomed :: "('r, 's, 'q) registry_api \<Rightarrow> 'r \<Rightarrow> entity \<Rightarrow> bool" where
  "ssl_doomed R r e = (case reg_find R r e KSSL of
     Some (CSSL dr) \<Rightarrow> failed (dr_ec dr) \<or> dr_need_close dr | _ \<Rightarrow> False)"

definition on_registry :: "build \<Rightarrow> exec_env" where
  "on_registry b = \<lparr>bld = b, on_runner = RegistrySequence\<rparr>"

lemma on_registry_simps [simp]:
  "bld (on_registry b) = b" "on_runner (on_registry b) = RegistrySequence"
  by (simp_all add: on_registry_def)

context registry
begin

text \<open>The branches of the two handlers on an entity that is ready.\<close>

lemma accept_close:
  assumes "reg_valid R r e" and "reg_find R r e KTcp = Some (CTcp tcp)" "ctx_strand tcp"
    and "reg_find R r e KAccept = Some (CAccept ar)" "ar_socket ar = Here s"
    and "failed (ar_ec ar) \<or> ar_need_close ar"
  shows "\<exists>r'. handleAcceptResult A R (on_registry b) e r =
      Inr (r', map (NetCloseLog e) (snd (closeSocketUnsafe A s))) \<and>
    same_elsewhere R r r' {e} \<and>
    reg_find R r' e KAccept = Some (CAccept (ar\<lparr>ar_socket := Here (fst (closeSocketUnsafe A s))\<rparr>)) \<and>
    (\<forall>k. k \<noteq> KAccept \<and> k \<noteq> KTag UnusedTag \<longrightarrow> reg_find R r' e k = reg_find R r e k) \<and>
    reg_has R r' e (KTag UnusedTag)"
proof -
  obtain s' logs where c: "closeSocketUnsafe A s = (s', logs)" by force
  let ?r = "reg_set R r e (CAccept (ar\<lparr>ar_socket := Here s'\<rparr>))"
  have v: "reg_valid R ?r e" using assms(1) by simp
  from ensure_tag_effect [OF v, of UnusedTag] obtain r2 where
    t: "ensure_tag R e UnusedTag ?r = Inr r2" "\<And>x. reg_valid R r2 x = reg_valid R ?r x"
    "\<And>x k. reg_has R r2 x k \<longleftrightarrow> x = e \<and> k = KTag UnusedTag \<or> reg_has R ?r x k"
    "\<And>x k. \<not> (x = e \<and> k = KTag UnusedTag) \<Longrightarrow> reg_find R r2 x k = reg_find R ?r x k" by blast
  have "handleAcceptResult A R (on_registry b) e r = Inr (r2, map (NetCloseLog e) logs)"
    using assms t(1) v by (auto simp: handleAcceptResult_def closeAndReleaseResources_def with_tcp_def c)
  with t assms(1) c show ?thesis by (auto simp: same_elsewhere_def)
qed

lemma accept_detect:
  assumes "reg_valid R r e" and "reg_find R r e KTcp = Some (CTcp tcp)" "ctx_strand tcp"
    and "reg_find R r e KAccept = Some (CAccept ar)" "ar_socket ar = Here s"
    and "\<not> failed (ar_ec ar)" "\<not> ar_need_close ar"
  shows "\<exists>r'. handleAcceptResult A R (on_registry b) e r = Inr (r', [NetPostRunDetector e 3]) \<and>
    same_elsewhere R r r' {e} \<and>
    reg_find R r' e KAccept = Some (CAccept (ar\<lparr>ar_socket := MovedFrom\<rparr>)) \<and>
    reg_find R r' e KTcp = Some (CTcp (tcp\<lparr>ctx_detect_channel := Some (DetectChannel_new s e)\<rparr>)) \<and>
    (\<forall>k. k \<noteq> KAccept \<and> k \<noteq> KTcp \<longrightarrow> reg_find R r' e k = reg_find R r e k)"
  using assms
  by (auto simp: handleAcceptResult_def with_tcp_def DetectChannel_new_def isDetected_def Let_def
      same_elsewhere_def)

lemma doCloseStream_log:
  assumes "socket_laws A"
  shows "closeSocketUnsafe A (socket (doCloseStream A st)) = (socket (doCloseStream A st), [AlreadyClosed])"
  using assms by (simp add: doCloseStream_def socket_laws_def closeSocketUnsafe_def)

lemma ssl_close:
  assumes "reg_valid R r e" and "socket_laws A"
    and "reg_find R r e KSSL = Some (CSSL dr)" "dr_stream dr = Here st"
    and "failed (dr_ec dr) \<or> dr_need_close dr"
  shows "\<exists>r'. handleSSLDetectResult A R (on_registry b) e r = Inr (r', [NetCloseLog e AlreadyClosed]) \<and>
    same_elsewhere R r r' {e} \<and>
    reg_find R r' e KSSL = Some (CSSL (dr\<lparr>dr_stream := Here (doCloseStream A st)\<rparr>)) \<and>
    (\<forall>k. k \<noteq> KSSL \<and> k \<noteq> KTag UnusedTag \<longrightarrow> reg_find R r' e k = reg_find R r e k) \<and>
    reg_has R r' e (KTag UnusedTag)"
proof -
  let ?st = "doCloseStream A st"
  let ?r = "reg_set R r e (CSSL (dr\<lparr>dr_stream := Here ?st\<rparr>))"
  have v: "reg_valid R ?r e" using assms(1) by simp
  from ensure_tag_effect [OF v, of UnusedTag] obtain r2 where
    t: "ensure_tag R e UnusedTag ?r = Inr r2" "\<And>x. reg_valid R r2 x = reg_valid R ?r x"
    "\<And>x k. reg_has R r2 x k \<longleftrightarrow> x = e \<and> k = KTag UnusedTag \<or> reg_has R ?r x k"
    "\<And>x k. \<not> (x = e \<and> k = KTag UnusedTag) \<Longrightarrow> reg_find R r2 x k = reg_find R ?r x k" by blast
  have "?st\<lparr>socket := socket ?st\<rparr> = ?st" by simp
  with assms t(1) v have "handleSSLDetectResult A R (on_registry b) e r = Inr (r2, [NetCloseLog e AlreadyClosed])"
    by (auto simp: handleSSLDetectResult_def doMarkUnused_def doCloseStream_log Let_def)
  with t assms(1) show ?thesis by (auto simp: same_elsewhere_def)
qed

lemma ssl_http:
  assumes "reg_valid R r e" and "reg_find R r e KTcp = Some (CTcp tcp)"
    and "reg_find R r e KSSL = Some (CSSL dr)" "dr_stream dr = Here st" "dr_buffer dr = Here buffer"
    and "\<not> failed (dr_ec dr)" "\<not> dr_need_close dr"
  shows "\<exists>r'. handleSSLDetectResult A R (on_registry b) e r = Inr (r', [NetHttp e HttpPostRead]) \<and>
    same_elsewhere R r r' {e} \<and>
    reg_find R r' e KSSL = Some (CSSL (dr\<lparr>dr_stream := MovedFrom, dr_buffer := MovedFrom\<rparr>)) \<and>
    reg_find R r' e KTcp = Some (CTcp (tcp\<lparr>ctx_http_channel := Some (HttpChannel_new st buffer e)\<rparr>)) \<and>
    (\<forall>k. k \<noteq> KSSL \<and> k \<noteq> KTcp \<longrightarrow> reg_find R r' e k = reg_find R r e k)"
  using assms
  by (auto simp: handleSSLDetectResult_def with_tcp_def HttpChannel_new_def Let_def member_guard_def
      Http_Channel.startReadAsync_def same_elsewhere_def)

end

sublocale registry \<subseteq> accept_queue: result_queue R "handleAcceptResult A R (on_registry b)"
  KAccept UnusedAcceptResultTag "accept_ready R" "accept_doomed R" for A b
proof unfold_locales
  fix r e assume v: "reg_valid R r e" and "accept_ready R r e"
  then obtain tcp ar s where a: "reg_find R r e KTcp = Some (CTcp tcp)" "ctx_strand tcp"
    "reg_find R r e KAccept = Some (CAccept ar)" "ar_socket ar = Here s"
    by (auto simp: accept_ready_def)
  show "\<exists>r' log. handleAcceptResult A R (on_registry b) e r = Inr (r', log) \<and> same_elsewhere R r r' {e} \<and>
      settled R {KAccept, KTcp, KTag UnusedTag} (accept_doomed R r e) r r' e"
  proof (cases "failed (ar_ec ar) \<or> ar_need_close ar")
    case True
    with accept_close [OF v a, of A b] a(3) show ?thesis by (auto simp: settled_def accept_doomed_def)
  next
    case False
    with accept_detect [OF v a, of A b] a(3) show ?thesis
      by (auto simp: settled_def accept_doomed_def reg_has_def)
  qed
next
  fix r r' e assume "\<And>k. reg_find R r' e k = reg_find R r e k"
  then show "accept_ready R r' e = accept_ready R r e \<and> accept_doomed R r' e = accept_doomed R r e"
    by (simp add: accept_ready_def accept_doomed_def)
qed simp

lemma ssl_result_queue:
  assumes "registry R" and "socket_laws A"
  shows "result_queue R (handleSSLDetectResult A R (on_registry b)) KSSL UnusedSSLDetectResultTag
    (ssl_ready R) (ssl_doomed R)"
proof (intro result_queue.intro result_queue_axioms.intro)
  show "registry R" by (rule assms(1))
next
  fix r e assume v: "reg_valid R r e" and "ssl_ready R r e"
  then obtain tcp dr st buffer where a: "reg_find R r e KTcp = Some (CTcp tcp)"
    "reg_find R r e KSSL = Some (CSSL dr)" "dr_stream dr = Here st" "dr_buffer dr = Here buffer"
    by (auto simp: ssl_ready_def)
  show "\<exists>r' log. handleSSLDetectResult A R (on_registry b) e r = Inr (r', log) \<and> same_elsewhere R r r' {e} \<and>
      settled R {KSSL, KTcp, KTag UnusedTag} (ssl_doomed R r e) r r' e"
  proof (cases "failed (dr_ec dr) \<or> dr_need_close dr")
    case True
    with registry.ssl_close [OF assms(1) v assms(2) a(2,3), of b] a(2) show ?thesis
      by (auto simp: settled_def ssl_doomed_def)
  next
    case False
    with registry.ssl_http [OF assms(1) v a, of A b] a(2) show ?thesis
      by (auto simp: settled_def ssl_doomed_def reg_has_def)
  qed
next
  fix r r' e assume "\<And>k. reg_find R r' e k = reg_find R r e k"
  then show "ssl_ready R r' e = ssl_ready R r e \<and> ssl_doomed R r' e = ssl_doomed R r e"
    by (simp add: ssl_ready_def ssl_doomed_def)
qed simp

end
