(* ===== verification/Network_Update.thy ===== *)
theory Network_Update
  imports Result_Queue
begin

text \<open>
  What the systems of \<open>Network_Systems\<close> do to a registry, as one equation per system for
  \<open>valid\<close> and \<open>find\<close>, from one lemma about loops that treat each entity on its own; and the
  properties of the update as a whole.
\<close>

lemma foldM_pointwise:
  assumes "distinct es"
    and "\<And>e r'. e \<in> set es \<Longrightarrow> reg_valid R r' e = reg_valid R r e \<Longrightarrow>
      (\<And>k. reg_find R r' e k = reg_find R r e k) \<Longrightarrow>
      \<exists>r''. f e r' = Inr r'' \<and>
        (\<forall>x. reg_valid R r'' x = (if x = e then V e else reg_valid R r' x)) \<and>
        (\<forall>x k. reg_find R r'' x k = (if x = e then F e k else reg_find R r' x k))"
  shows "\<exists>r'. foldM f es r = Inr r' \<and>
    (\<forall>x. reg_valid R r' x = (if x \<in> set es then V x else reg_valid R r x)) \<and>
    (\<forall>x k. reg_find R r' x k = (if x \<in> set es then F x k else reg_find R r x k))"
proof (rule foldM_rule [where P = "\<lambda>done r'.
    (\<forall>x. reg_valid R r' x = (if x \<in> set done then V x else reg_valid R r x)) \<and>
    (\<forall>x k. reg_find R r' x k = (if x \<in> set done then F x k else reg_find R r x k))"])
  show "(\<forall>x. reg_valid R r x = (if x \<in> set [] then V x else reg_valid R r x)) \<and>
    (\<forall>x k. reg_find R r x k = (if x \<in> set [] then F x k else reg_find R r x k))" by simp
next
  fix ys x zs s
  assume es: "es = ys @ x # zs" and P: "(\<forall>xa. reg_valid R s xa = (if xa \<in> set ys then V xa else reg_valid R r xa)) \<and>
    (\<forall>xa k. reg_find R s xa k = (if xa \<in> set ys then F xa k else reg_find R r xa k))"
  from es assms(1) have x: "x \<in> set es" "x \<notin> set ys" by auto
  with P assms(2) [of x s] obtain s' where
    s': "f x s = Inr s'" "\<forall>y. reg_valid R s' y = (if y = x then V x else reg_valid R s y)"
    "\<forall>y k. reg_find R s' y k = (if y = x then F x k else reg_find R s y k)" by auto
  with P show "\<exists>s'. f x s = Inr s' \<and>
      (\<forall>xa. reg_valid R s' xa = (if xa \<in> set (ys @ [x]) then V xa else reg_valid R r xa)) \<and>
      (\<forall>xa k. reg_find R s' xa k = (if xa \<in> set (ys @ [x]) then F xa k else reg_find R r xa k))"
    by auto
qed

text \<open>The entity sets of the systems.\<close>

definition just_done :: "('r, 's, 'q) registry_api \<Rightarrow> 'r \<Rightarrow> entity \<Rightarrow> bool" where
  "just_done R r e = (reg_has R r e (KTag DelayedConstructionJustDone) \<and> \<not> reg_has R r e (KTag NeedToDestroyTag))"

definition constructing :: "('r, 's, 'q) registry_api \<Rightarrow> 'r \<Rightarrow> entity \<Rightarrow> bool" where
  "constructing R r e = (reg_has R r e (KTag DelayedConstruction) \<and> \<not> reg_has R r e (KTag NeedToDestroyTag))"

text \<open>No entity is in both phases of its construction.\<close>

definition phases_ok :: "('r, 's, 'q) registry_api \<Rightarrow> 'r \<Rightarrow> bool" where
  "phases_ok R r = (\<forall>e. \<not> (reg_has R r e (KTag DelayedConstruction) \<and>
     reg_has R r e (KTag DelayedConstructionJustDone)))"

definition deletable ::
  "'s socket_api \<Rightarrow> (('s, 'q) WsChannel \<Rightarrow> bool) \<Rightarrow> ('r, 's, 'q) registry_api \<Rightarrow> build \<Rightarrow> 'r \<Rightarrow> entity \<Rightarrow> bool" where
  "deletable A ws_is_open R b r e = (\<forall>tcp. reg_find R r e KTcp = Some (CTcp tcp) \<longrightarrow>
     delete_channels A ws_is_open b tcp = Inr ())"

text \<open>
  The children \<open>cs\<close> of the unused entities: linked to one parent each, alive and not yet in
  destruction, and nothing is left of an earlier pass.
\<close>

definition children_ok :: "('r, 's, 'q) registry_api \<Rightarrow> 'r relations \<Rightarrow> 'r \<Rightarrow> entity list \<Rightarrow> bool" where
  "children_ok R L r cs = (distinct cs \<and>
     (\<forall>c \<in> set cs. reg_valid R r c \<and> \<not> reg_has R r c (KTag NeedToDestroyTag)) \<and>
     (\<forall>x. \<not> reg_has R r x (KTag ChildrenToDestroy)))"

context registry
begin

lemma find_tag_iff: "reg_has R r e (KTag t) \<longleftrightarrow> reg_find R r e (KTag t) = Some (CTag t)"
proof
  assume "reg_has R r e (KTag t)"
  then obtain c where c: "reg_find R r e (KTag t) = Some c" by (auto simp: reg_has_def)
  then have "kind_of c = KTag t" by (rule find_kind)
  with c show "reg_find R r e (KTag t) = Some (CTag t)" by (cases c) auto
qed (simp add: reg_has_def)

lemma just_done_spec:
  assumes "phases_ok R r"
  shows "\<exists>r'. updateDelayedConstructionJustDone R (on_registry b) r = Inr r' \<and>
    (\<forall>x. reg_valid R r' x = reg_valid R r x) \<and>
    (\<forall>x k. reg_find R r' x k =
      (if just_done R r x \<and> k = KTag DelayedConstructionJustDone then None else reg_find R r x k))"
proof -
  let ?v = "reg_view R r [KTag DelayedConstructionJustDone] [KTag NeedToDestroyTag]"
  let ?F = "\<lambda>x k. if k = KTag DelayedConstructionJustDone then None else reg_find R r x k"
  have v: "x \<in> set ?v \<longleftrightarrow> just_done R r x" for x
    using has_valid by (auto simp: set_view just_done_def)
  have "\<exists>r'. updateDelayedConstructionJustDone R (on_registry b) r = Inr r' \<and>
    (\<forall>x. reg_valid R r' x = (if x \<in> set ?v then reg_valid R r x else reg_valid R r x)) \<and>
    (\<forall>x k. reg_find R r' x k = (if x \<in> set ?v then ?F x k else reg_find R r x k))"
    unfolding updateDelayedConstructionJustDone_def on_registry_simps run_on_same [OF on_registry_simps(2)]
  proof (rule foldM_pointwise, rule distinct_view)
    fix e r' assume "e \<in> set ?v" and same: "reg_valid R r' e = reg_valid R r e"
      "\<And>k. reg_find R r' e k = reg_find R r e k"
    then have "reg_has R r' e (KTag DelayedConstructionJustDone)"
      "\<not> reg_has R r' e (KTag DelayedConstruction)" "reg_valid R r' e"
      using v assms by (auto simp: just_done_def phases_ok_def reg_has_def set_view)
    then show "\<exists>r''. dcheck b ''registry->valid(entity_id)'' (reg_valid R r' e)
        (dcheck b ''!has<DelayedConstruction>'' (\<not> reg_has R r' e (KTag DelayedConstruction))
        (dcheck b ''has<DelayedConstructionJustDone>'' (reg_has R r' e (KTag DelayedConstructionJustDone))
        (Inr (reg_remove R r' e (KTag DelayedConstructionJustDone))))) = Inr r'' \<and>
      (\<forall>x. reg_valid R r'' x = (if x = e then reg_valid R r e else reg_valid R r' x)) \<and>
      (\<forall>x k. reg_find R r'' x k = (if x = e then ?F e k else reg_find R r' x k))"
      using same by auto
  qed
  then show ?thesis by (auto simp: v)
qed

lemma constructing_spec:
  assumes "\<forall>x. constructing R r x \<longrightarrow> \<not> reg_has R r x (KTag DelayedConstructionJustDone)"
  shows "\<exists>r'. updateDelayedConstruction R (on_registry b) r = Inr r' \<and>
    (\<forall>x. reg_valid R r' x = reg_valid R r x) \<and>
    (\<forall>x k. reg_find R r' x k =
      (if constructing R r x then
         (if k = KTag DelayedConstruction then None
          else if k = KTag DelayedConstructionJustDone then Some (CTag DelayedConstructionJustDone)
          else reg_find R r x k)
       else reg_find R r x k))"
proof -
  let ?v = "reg_view R r [KTag DelayedConstruction] [KTag NeedToDestroyTag]"
  let ?F = "\<lambda>x k. if k = KTag DelayedConstruction then None
    else if k = KTag DelayedConstructionJustDone then Some (CTag DelayedConstructionJustDone)
    else reg_find R r x k"
  have v: "x \<in> set ?v \<longleftrightarrow> constructing R r x" for x
    using has_valid by (auto simp: set_view constructing_def)
  have "\<exists>r'. updateDelayedConstruction R (on_registry b) r = Inr r' \<and>
    (\<forall>x. reg_valid R r' x = (if x \<in> set ?v then reg_valid R r x else reg_valid R r x)) \<and>
    (\<forall>x k. reg_find R r' x k = (if x \<in> set ?v then ?F x k else reg_find R r x k))"
    unfolding updateDelayedConstruction_def on_registry_simps run_on_same [OF on_registry_simps(2)]
  proof (rule foldM_pointwise, rule distinct_view)
    fix e r' assume e: "e \<in> set ?v" and same: "reg_valid R r' e = reg_valid R r e"
      "\<And>k. reg_find R r' e k = reg_find R r e k"
    then have "reg_has R r' e (KTag DelayedConstruction)"
      "\<not> reg_has R r' e (KTag DelayedConstructionJustDone)" "reg_valid R r' e" "reg_valid R r e"
      using v assms by (auto simp: constructing_def reg_has_def set_view)
    then show "\<exists>r''. dcheck b ''registry->valid(entity_id)'' (reg_valid R r' e)
        (dcheck b ''has<DelayedConstruction>'' (reg_has R r' e (KTag DelayedConstruction))
        (let r' = reg_remove R r' e (KTag DelayedConstruction)
         in dcheck b ''!has<DelayedConstruction>'' (\<not> reg_has R r' e (KTag DelayedConstruction))
           (reg_emplace R e (CTag DelayedConstructionJustDone) r'))) = Inr r'' \<and>
      (\<forall>x. reg_valid R r'' x = (if x = e then reg_valid R r e else reg_valid R r' x)) \<and>
      (\<forall>x k. reg_find R r'' x k = (if x = e then ?F e k else reg_find R r' x k))"
      using same by (auto simp: reg_emplace_def Let_def)
  qed
  then show ?thesis by (auto simp: v)
qed

lemma unused_spec:
  "\<exists>r'. updateUnusedSystem R False (on_registry b) r = Inr r' \<and>
    (\<forall>x. reg_valid R r' x = reg_valid R r x) \<and>
    (\<forall>x k. reg_find R r' x k =
      (if k = KTag NeedToDestroyTag \<and> reg_has R r x (KTag UnusedTag) then Some (CTag NeedToDestroyTag)
       else reg_find R r x k))"
proof -
  let ?v = "reg_view R r [KTag UnusedTag] [KTag NeedToDestroyTag]"
  let ?F = "\<lambda>x k. if k = KTag NeedToDestroyTag then Some (CTag NeedToDestroyTag) else reg_find R r x k"
  have v: "x \<in> set ?v \<longleftrightarrow> reg_has R r x (KTag UnusedTag) \<and> \<not> reg_has R r x (KTag NeedToDestroyTag)" for x
    using has_valid by (auto simp: set_view)
  have "\<exists>r'. updateUnusedSystem R False (on_registry b) r = Inr r' \<and>
    (\<forall>x. reg_valid R r' x = (if x \<in> set ?v then reg_valid R r x else reg_valid R r x)) \<and>
    (\<forall>x k. reg_find R r' x k = (if x \<in> set ?v then ?F x k else reg_find R r x k))"
    unfolding updateUnusedSystem_def on_registry_simps run_on_same [OF on_registry_simps(2)] if_False
  proof (rule foldM_pointwise, rule distinct_view)
    fix e r' assume "e \<in> set ?v" and same: "reg_valid R r' e = reg_valid R r e"
      "\<And>k. reg_find R r' e k = reg_find R r e k"
    then have "\<not> reg_has R r' e (KTag NeedToDestroyTag)" "reg_valid R r' e" "reg_valid R r e"
      by (auto simp: reg_has_def set_view)
    then show "\<exists>r''. dcheck b ''registry->valid(entity_id)'' (reg_valid R r' e)
        (dcheck b ''!has<NeedToDestroyTag>'' (\<not> reg_has R r' e (KTag NeedToDestroyTag))
        (reg_emplace R e (CTag NeedToDestroyTag) r')) = Inr r'' \<and>
      (\<forall>x. reg_valid R r'' x = (if x = e then reg_valid R r e else reg_valid R r' x)) \<and>
      (\<forall>x k. reg_find R r'' x k = (if x = e then ?F e k else reg_find R r' x k))"
      using same by (auto simp: reg_emplace_def)
  qed
  then show ?thesis by (auto simp: v find_tag_iff)
qed

lemma cleanup_spec:
  assumes "\<forall>x. reg_has R r x (KTag NeedToDestroyTag) \<longrightarrow> deletable A ws_is_open R b r x"
  shows "\<exists>r'. updateCleanupSystem A ws_is_open R False (on_registry b) r = Inr r' \<and>
    (\<forall>x. reg_valid R r' x = (reg_valid R r x \<and> \<not> reg_has R r x (KTag NeedToDestroyTag))) \<and>
    (\<forall>x k. reg_find R r' x k = (if reg_has R r x (KTag NeedToDestroyTag) then None else reg_find R r x k))"
proof -
  let ?v = "reg_view R r [KTag NeedToDestroyTag] []"
  have v: "x \<in> set ?v \<longleftrightarrow> reg_has R r x (KTag NeedToDestroyTag)" for x
    using has_valid by (auto simp: set_view)
  have "\<exists>r'. updateCleanupSystem A ws_is_open R False (on_registry b) r = Inr r' \<and>
    (\<forall>x. reg_valid R r' x = (if x \<in> set ?v then False else reg_valid R r x)) \<and>
    (\<forall>x k. reg_find R r' x k = (if x \<in> set ?v then None else reg_find R r x k))"
    unfolding updateCleanupSystem_def on_registry_simps run_on_same [OF on_registry_simps(2)] if_False
  proof (rule foldM_pointwise, rule distinct_view)
    fix e r' assume e: "e \<in> set ?v" and same: "reg_valid R r' e = reg_valid R r e"
      "\<And>k. reg_find R r' e k = reg_find R r e k"
    then have "reg_valid R r' e" "deletable A ws_is_open R b r' e"
      using assms v by (auto simp: set_view deletable_def)
    then have "destroy_entity A ws_is_open R b e r' = Inr (reg_destroy R r' e)"
      by (auto simp: destroy_entity_def deletable_def split: option.splits component.splits)
    then show "\<exists>r''. destroy_entity A ws_is_open R b e r' = Inr r'' \<and>
      (\<forall>x. reg_valid R r'' x = (if x = e then False else reg_valid R r' x)) \<and>
      (\<forall>x k. reg_find R r'' x k = (if x = e then None else reg_find R r' x k))"
      by simp
  qed
  then show ?thesis by (auto simp: v)
qed

text \<open>Children: the marks of the first loop, the tags of the second.\<close>

lemma mark_children_flat:
  assumes laws: "\<And>r e c p. reg_valid R r e \<Longrightarrow> top_level_children L (reg_set R r e c) p = top_level_children L r p"
    and "\<And>p. top_level_children L r p = ch p"
    and "foldM (mark_child R E) (concat (map ch ps)) r = Inr r'"
  shows "foldM (\<lambda>p r. foldM (mark_child R E) (top_level_children L r p) r) ps r = Inr r'"
  using assms(2,3)
proof (induction ps arbitrary: r)
  case Nil
  then show ?case by simp
next
  case (Cons p ps)
  from Cons.prems(2) obtain r1 where r1: "foldM (mark_child R E) (ch p) r = Inr r1"
    "foldM (mark_child R E) (concat (map ch ps)) r1 = Inr r'"
    by (auto simp: foldM_append andThen_Inr)
  have "foldM (mark_child R E) es r = Inr r1 \<Longrightarrow> top_level_children L r1 q = top_level_children L r q" for es r r1 q
    by (induction es arbitrary: r)
       (auto simp: mark_child_def reg_emplace_def result_simps laws)
  from this [OF r1(1)] Cons.prems(1) have "top_level_children L r1 q = ch q" for q by simp
  from Cons.IH [OF this r1(2)] r1(1) Cons.prems(1) show ?case by simp
qed

lemma children_spec:
  assumes laws: "\<And>r e c p. reg_valid R r e \<Longrightarrow> top_level_children L (reg_set R r e c) p = top_level_children L r p"
    and unlink: "\<And>r x. reg_valid R (removeTopLevelChildrenFromView L r) x = reg_valid R r x"
      "\<And>r x k. reg_find R (removeTopLevelChildrenFromView L r) x k = reg_find R r x k"
    and ok: "children_ok R L r (concat (map (top_level_children L r) (groupParentsWithUnusedChilds R L r)))"
  shows "\<exists>r'. updateUnusedChildList R L (on_registry b) r = Inr r' \<and>
    (\<forall>x. reg_valid R r' x = reg_valid R r x) \<and>
    (\<forall>x k. reg_find R r' x k =
      (if k = KTag NeedToDestroyTag \<and>
          (\<exists>p \<in> set (groupParentsWithUnusedChilds R L r). x \<in> set (top_level_children L r p))
       then Some (CTag NeedToDestroyTag) else reg_find R r x k))"
proof -
  define cs where "cs = concat (map (top_level_children L r) (groupParentsWithUnusedChilds R L r))"
  have ok': "children_ok R L r cs" using ok by (simp only: cs_def)
  have in_cs: "(\<exists>p \<in> set (groupParentsWithUnusedChilds R L r). x \<in> set (top_level_children L r p)) \<longleftrightarrow> x \<in> set cs" for x
    by (simp add: cs_def)
  let ?F1 = "\<lambda>x k. if k = KTag ChildrenToDestroy then Some (CTag ChildrenToDestroy) else reg_find R r x k"
  have "\<exists>r1. foldM (mark_child R (on_registry b)) cs r = Inr r1 \<and>
    (\<forall>x. reg_valid R r1 x = (if x \<in> set cs then reg_valid R r x else reg_valid R r x)) \<and>
    (\<forall>x k. reg_find R r1 x k = (if x \<in> set cs then ?F1 x k else reg_find R r x k))"
    by (rule foldM_pointwise)
       (use ok' in \<open>auto simp: children_ok_def mark_child_def reg_emplace_def reg_has_def\<close>)
  then obtain r1 where r1: "foldM (mark_child R (on_registry b)) cs r = Inr r1"
    "\<And>x. reg_valid R r1 x = reg_valid R r x"
    "\<And>x k. reg_find R r1 x k = (if x \<in> set cs then ?F1 x k else reg_find R r x k)"
    unfolding if_cancel by blast
  let ?v = "reg_view R r1 [KTag ChildrenToDestroy] []"
  have v: "x \<in> set ?v \<longleftrightarrow> x \<in> set cs" for x
    using ok' r1(2,3) by (auto simp: set_view_find children_ok_def reg_has_def)
  let ?F2 = "\<lambda>x k. if k = KTag ChildrenToDestroy then None
    else if k = KTag NeedToDestroyTag then Some (CTag NeedToDestroyTag) else reg_find R r x k"
  have "\<exists>r2. foldM (destroy_child_later R (on_registry b)) ?v r1 = Inr r2 \<and>
    (\<forall>x. reg_valid R r2 x = (if x \<in> set ?v then reg_valid R r x else reg_valid R r1 x)) \<and>
    (\<forall>x k. reg_find R r2 x k = (if x \<in> set ?v then ?F2 x k else reg_find R r1 x k))"
  proof (rule foldM_pointwise, rule distinct_view)
    fix e r' assume e: "e \<in> set ?v" and same: "reg_valid R r' e = reg_valid R r1 e"
      "\<And>k. reg_find R r' e k = reg_find R r1 e k"
    from e v ok' have "reg_valid R r e" "\<not> reg_has R r e (KTag NeedToDestroyTag)" "e \<in> set cs"
      by (auto simp: children_ok_def)
    with same r1 have "reg_valid R r' e" "\<not> reg_has R r' e (KTag NeedToDestroyTag)"
      "\<And>k. reg_find R r' e k = ?F1 e k" "reg_valid R r e"
      by (auto simp: reg_has_def)
    then show "\<exists>r''. destroy_child_later R (on_registry b) e r' = Inr r'' \<and>
      (\<forall>x. reg_valid R r'' x = (if x = e then reg_valid R r e else reg_valid R r' x)) \<and>
      (\<forall>x k. reg_find R r'' x k = (if x = e then ?F2 e k else reg_find R r' x k))"
      by (auto simp: destroy_child_later_def reg_emplace_def)
  qed
  then obtain r2 where r2: "foldM (destroy_child_later R (on_registry b)) ?v r1 = Inr r2"
    "\<And>x. reg_valid R r2 x = reg_valid R r x"
    "\<And>x k. reg_find R r2 x k = (if x \<in> set cs then ?F2 x k else reg_find R r x k)"
    using r1 v by auto
  have "\<not> reg_has R r x (KTag ChildrenToDestroy)" for x using ok' by (simp add: children_ok_def)
  with r2 mark_children_flat [OF laws _ r1(1) [unfolded cs_def]] show ?thesis
    unfolding in_cs by (auto simp: updateUnusedChildList_def unlink reg_has_def)
qed

end

end
