(* ===== verification/Network_Properties.thy ===== *)
theory Network_Properties
  imports Network_Update Ws_Properties
begin

text \<open>
  The properties of the network systems: the branches of the two result handlers, processing
  once, the two phases of construction, the destruction of children, and what one update of the
  \<open>NetworkEntityUpdater\<close> does to the set of live entities.
\<close>

definition accept_view :: "('r, 's, 'q) registry_api \<Rightarrow> kind list \<Rightarrow> 'r \<Rightarrow> entity set" where
  "accept_view R nc r = set (reg_view R r [KAccept] (KTag UnusedAcceptResultTag # nc))"

definition ssl_view :: "('r, 's, 'q) registry_api \<Rightarrow> kind list \<Rightarrow> 'r \<Rightarrow> entity set" where
  "ssl_view R nc r = set (reg_view R r [KSSL] (KTag UnusedSSLDetectResultTag # nc))"

text \<open>The entities that an update gives up.\<close>

definition given_up :: "('r, 's, 'q) registry_api \<Rightarrow> kind list \<Rightarrow> 'r \<Rightarrow> entity \<Rightarrow> bool" where
  "given_up R nc r e = (reg_has R r e (KTag UnusedTag) \<or> reg_has R r e (KTag NeedToDestroyTag) \<or>
     e \<in> accept_view R nc r \<and> accept_doomed R r e \<or> e \<in> ssl_view R nc r \<and> ssl_doomed R r e)"

text \<open>
  The registry an update starts from: every waiting result is complete, belongs to an entity that
  is not given up yet, and an entity waits for one result at a time; an entity that will be
  given up has no channel that its destructor would find open; no mark of a child is left over.
\<close>

definition update_ready ::
  "'s socket_api \<Rightarrow> (('s, 'q) WsChannel \<Rightarrow> bool) \<Rightarrow> ('r, 's, 'q) registry_api \<Rightarrow> kind list \<Rightarrow> build \<Rightarrow> 'r \<Rightarrow> bool" where
  "update_ready A ws_is_open R nc b r =
     ((\<forall>e \<in> accept_view R nc r. accept_ready R r e) \<and> (\<forall>e \<in> ssl_view R nc r. ssl_ready R r e) \<and>
      accept_view R nc r \<inter> ssl_view R nc r = {} \<and>
      (\<forall>e \<in> accept_view R nc r \<union> ssl_view R nc r.
        \<not> reg_has R r e (KTag UnusedTag) \<and> \<not> reg_has R r e (KTag NeedToDestroyTag)) \<and>
      (\<forall>e. given_up R nc r e \<longrightarrow> deletable A ws_is_open R b r e) \<and>
      (\<forall>e. \<not> reg_has R r e (KTag ChildrenToDestroy)) \<and> phases_ok R r)"

definition construction_tags :: "kind set" where
  "construction_tags = {KTag NeedToDestroyTag, KTag DelayedConstruction, KTag DelayedConstructionJustDone}"

context registry
begin

text \<open>Each result system handles what waits, once.\<close>

lemma accept_once:
  assumes "\<forall>e \<in> accept_view R nc r. accept_ready R r e"
  shows "\<exists>r' log. updateNewConnections A R nc (on_registry b) r = Inr (r', log) \<and>
    same_elsewhere R r r' (accept_view R nc r) \<and>
    (\<forall>e \<in> accept_view R nc r. reg_has R r' e (KTag UnusedAcceptResultTag) \<and>
      settled R {KAccept, KTcp, KTag UnusedTag, KTag UnusedAcceptResultTag} (accept_doomed R r e) r r' e) \<and>
    updateNewConnections A R nc (on_registry b) r' = Inr (r', [])"
  using assms accept_queue.process_once [of r nc]
  by (simp add: accept_view_def updateNewConnections_def)

lemma ssl_once:
  assumes "socket_laws A" and "\<forall>e \<in> ssl_view R nc r. ssl_ready R r e"
  shows "\<exists>r' log. updateSSLDetection A R nc (on_registry b) r = Inr (r', log) \<and>
    same_elsewhere R r r' (ssl_view R nc r) \<and>
    (\<forall>e \<in> ssl_view R nc r. reg_has R r' e (KTag UnusedSSLDetectResultTag) \<and>
      settled R {KSSL, KTcp, KTag UnusedTag, KTag UnusedSSLDetectResultTag} (ssl_doomed R r e) r r' e) \<and>
    updateSSLDetection A R nc (on_registry b) r' = Inr (r', [])"
  using assms(2) result_queue.process_once [OF ssl_result_queue [OF registry_axioms assms(1)], of r nc]
  by (simp add: ssl_view_def updateSSLDetection_def)

text \<open>The two result systems as one step.\<close>

lemma results_spec:
  assumes laws: "socket_laws A" and nc: "set nc \<subseteq> construction_tags"
    and ready: "update_ready A ws_is_open R nc b r"
  shows "\<exists>r1 log1 r2 log2. updateNewConnections A R nc (on_registry b) r = Inr (r1, log1) \<and>
    updateSSLDetection A R nc (on_registry b) r1 = Inr (r2, log2) \<and>
    (\<forall>x. reg_valid R r2 x = reg_valid R r x) \<and>
    (\<forall>x. reg_has R r2 x (KTag UnusedTag) \<longleftrightarrow> reg_has R r x (KTag UnusedTag) \<or>
       x \<in> accept_view R nc r \<and> accept_doomed R r x \<or> x \<in> ssl_view R nc r \<and> ssl_doomed R r x) \<and>
    (\<forall>x k. k \<in> construction_tags \<or> k = KTag ChildrenToDestroy \<longrightarrow> reg_find R r2 x k = reg_find R r x k) \<and>
    (\<forall>x. given_up R nc r x \<longrightarrow> reg_find R r2 x KTcp = reg_find R r x KTcp) \<and>
    (\<forall>x k. x \<notin> accept_view R nc r \<union> ssl_view R nc r \<longrightarrow> reg_find R r2 x k = reg_find R r x k)"
proof -
  let ?a = "accept_view R nc r" and ?s = "ssl_view R nc r"
  have "\<forall>e \<in> ?a. accept_ready R r e" using ready by (simp add: update_ready_def)
  from accept_once [OF this, of A b] obtain r1 log1 where
    r1: "updateNewConnections A R nc (on_registry b) r = Inr (r1, log1)"
    "same_elsewhere R r r1 ?a"
    "\<forall>e \<in> ?a. settled R {KAccept, KTcp, KTag UnusedTag, KTag UnusedAcceptResultTag} (accept_doomed R r e) r r1 e"
    by blast
  have same1: "reg_valid R r1 x = reg_valid R r x" "x \<notin> ?a \<Longrightarrow> reg_find R r1 x k = reg_find R r x k" for x k
    using r1(2) by (simp_all add: same_elsewhere_def)
  have keep1: "k \<notin> {KAccept, KTcp, KTag UnusedTag, KTag UnusedAcceptResultTag} \<Longrightarrow>
      reg_find R r1 x k = reg_find R r x k" for x k
    using same1(2) r1(3) by (cases "x \<in> ?a") (auto simp: settled_def)
  have nc_keep: "k \<in> set nc \<Longrightarrow> reg_find R r1 x k = reg_find R r x k" for x k
    using nc by (intro keep1) (auto simp: construction_tags_def)
  have "x \<in> ssl_view R nc r1 \<longleftrightarrow> x \<in> ?s" for x
    by (simp add: ssl_view_def set_view_find same1(1) keep1 nc_keep)
  then have s1: "ssl_view R nc r1 = ?s" by blast
  have "\<forall>e \<in> ?s. e \<notin> ?a" using ready by (auto simp: update_ready_def)
  then have "\<forall>e \<in> ?s. reg_find R r1 e = reg_find R r e"
    using same1(2) by (auto intro: ext)
  then have doom: "\<forall>e \<in> ?s. ssl_ready R r1 e \<and> ssl_doomed R r1 e = ssl_doomed R r e"
    using ready by (auto simp: update_ready_def ssl_ready_def ssl_doomed_def)
  then have "\<forall>e \<in> ssl_view R nc r1. ssl_ready R r1 e" using s1 by simp
  from ssl_once [OF laws this, of b] obtain r2 log2 where
    r2: "updateSSLDetection A R nc (on_registry b) r1 = Inr (r2, log2)"
    "same_elsewhere R r1 r2 ?s"
    "\<forall>e \<in> ?s. settled R {KSSL, KTcp, KTag UnusedTag, KTag UnusedSSLDetectResultTag} (ssl_doomed R r1 e) r1 r2 e"
    unfolding s1 by blast
  have same2: "reg_valid R r2 x = reg_valid R r1 x" "x \<notin> ?s \<Longrightarrow> reg_find R r2 x k = reg_find R r1 x k" for x k
    using r2(2) by (simp_all add: same_elsewhere_def)
  have keep2: "k \<notin> {KSSL, KTcp, KTag UnusedTag, KTag UnusedSSLDetectResultTag} \<Longrightarrow>
      reg_find R r2 x k = reg_find R r1 x k" for x k
    using same2(2) r2(3) by (cases "x \<in> ?s") (auto simp: settled_def)
  have u1: "reg_has R r1 x (KTag UnusedTag) \<longleftrightarrow> reg_has R r x (KTag UnusedTag) \<or> x \<in> ?a \<and> accept_doomed R r x" for x
    using same1(2) r1(3) by (cases "x \<in> ?a") (auto simp: settled_def reg_has_def)
  have u2: "reg_has R r2 x (KTag UnusedTag) \<longleftrightarrow> reg_has R r1 x (KTag UnusedTag) \<or> x \<in> ?s \<and> ssl_doomed R r x" for x
    using same2(2) r2(3) doom by (cases "x \<in> ?s") (auto simp: settled_def reg_has_def)
  have tcp: "reg_find R r2 x KTcp = reg_find R r x KTcp" if g: "given_up R nc r x" for x
  proof -
    have disj: "?a \<inter> ?s = {}" and fresh: "\<forall>e \<in> ?a \<union> ?s.
        \<not> reg_has R r e (KTag UnusedTag) \<and> \<not> reg_has R r e (KTag NeedToDestroyTag)"
      using ready by (simp_all add: update_ready_def)
    consider "x \<in> ?a" "accept_doomed R r x" "x \<notin> ?s" | "x \<in> ?s" "ssl_doomed R r x" "x \<notin> ?a" | "x \<notin> ?a" "x \<notin> ?s"
      using g disj fresh unfolding given_up_def by blast
    then show ?thesis
      using same1(2) same2(2) r1(3) r2(3) doom by cases (auto simp: settled_def)
  qed
  have tags: "k \<in> construction_tags \<or> k = KTag ChildrenToDestroy \<Longrightarrow> reg_find R r2 x k = reg_find R r x k" for x k
    using keep1 keep2 by (auto simp: construction_tags_def)
  have rest: "x \<notin> ?a \<union> ?s \<Longrightarrow> reg_find R r2 x k = reg_find R r x k" for x k
    using same1(2) [of x k] same2(2) [of x k] by simp
  show ?thesis
    using r1(1) r2(1) same1(1) same2(1) u1 u2 tcp tags rest
    by simp
qed

text \<open>Without children, the system for children only unlinks.\<close>

lemma no_children_spec:
  assumes "\<And>r e. \<not> has_first_child L r e" and "\<forall>e. \<not> reg_has R r e (KTag ChildrenToDestroy)"
  shows "updateUnusedChildList R L (on_registry b) r = Inr (removeTopLevelChildrenFromView L r)"
proof -
  have "x \<notin> set (reg_view R r [KTag ChildrenToDestroy] [])" for x
    using assms(2) by (simp add: set_view)
  then have "reg_view R r [KTag ChildrenToDestroy] [] = []"
    by (metis list.set_intros(1) neq_Nil_conv)
  then show ?thesis
    using assms(1) by (simp add: updateUnusedChildList_def groupParentsWithUnusedChilds_def)
qed

lemma update_spec:
  assumes laws: "socket_laws A" and nc: "set nc \<subseteq> construction_tags"
    and no_child: "\<And>r e. \<not> has_first_child L r e"
    and unlink: "\<And>r x. reg_valid R (removeTopLevelChildrenFromView L r) x = reg_valid R r x"
      "\<And>r x k. reg_find R (removeTopLevelChildrenFromView L r) x k = reg_find R r x k"
    and ready: "update_ready A ws_is_open R nc b r"
  shows "\<exists>r' log. updateOnRegistryThread A ws_is_open R nc L
      \<lparr>disable_unused_system = False, disable_cleanup_system = False\<rparr> (on_registry b) u r =
      Inr (u\<lparr>numQueuedUpdateTasks := numQueuedUpdateTasks u - 1\<rparr>, r', log) \<and>
    (\<forall>x. reg_valid R r' x \<longleftrightarrow> reg_valid R r x \<and> \<not> given_up R nc r x) \<and>
    (\<forall>x k. \<not> given_up R nc r x \<and> x \<notin> accept_view R nc r \<union> ssl_view R nc r \<and> k \<notin> construction_tags \<longrightarrow>
       reg_find R r' x k = reg_find R r x k) \<and>
    (\<forall>x. \<not> reg_has R r' x (KTag NeedToDestroyTag))"
proof -
  from results_spec [OF laws nc ready] obtain r1 log1 r2 log2 where
    h: "updateNewConnections A R nc (on_registry b) r = Inr (r1, log1) \<and>
    updateSSLDetection A R nc (on_registry b) r1 = Inr (r2, log2) \<and>
    (\<forall>x. reg_valid R r2 x = reg_valid R r x) \<and>
    (\<forall>x. reg_has R r2 x (KTag UnusedTag) \<longleftrightarrow> reg_has R r x (KTag UnusedTag) \<or>
       x \<in> accept_view R nc r \<and> accept_doomed R r x \<or> x \<in> ssl_view R nc r \<and> ssl_doomed R r x) \<and>
    (\<forall>x k. k \<in> construction_tags \<or> k = KTag ChildrenToDestroy \<longrightarrow> reg_find R r2 x k = reg_find R r x k) \<and>
    (\<forall>x. given_up R nc r x \<longrightarrow> reg_find R r2 x KTcp = reg_find R r x KTcp) \<and>
    (\<forall>x k. x \<notin> accept_view R nc r \<union> ssl_view R nc r \<longrightarrow> reg_find R r2 x k = reg_find R r x k)"
    by (elim exE) (rule that)
  note r12 = h [THEN conjunct1] h [THEN conjunct2, THEN conjunct1]
  note v2 = h [THEN conjunct2, THEN conjunct2, THEN conjunct1, rule_format]
  note unused2 = h [THEN conjunct2, THEN conjunct2, THEN conjunct2, THEN conjunct1, rule_format]
  note tags2 = h [THEN conjunct2, THEN conjunct2, THEN conjunct2, THEN conjunct2, THEN conjunct1, rule_format]
  note tcp2 = h [THEN conjunct2, THEN conjunct2, THEN conjunct2, THEN conjunct2, THEN conjunct2, THEN conjunct1, rule_format]
  note rest2 = h [THEN conjunct2, THEN conjunct2, THEN conjunct2, THEN conjunct2, THEN conjunct2, THEN conjunct2, rule_format]
  have has2: "reg_has R r2 x k = reg_has R r x k" if "k \<in> construction_tags \<or> k = KTag ChildrenToDestroy" for x k
    using tags2 [OF that] by (simp add: reg_has_def)
  let ?r3 = "removeTopLevelChildrenFromView L r2"
  have c: "updateUnusedChildList R L (on_registry b) r2 = Inr ?r3"
    using no_child ready has2 by (intro no_children_spec) (auto simp: update_ready_def)
  have has3: "reg_has R ?r3 x k = reg_has R r2 x k" for x k by (simp add: reg_has_def unlink)
  have "phases_ok R ?r3"
    using ready has2 by (simp add: update_ready_def phases_ok_def has3 construction_tags_def)
  from just_done_spec [OF this, of b] obtain r4 where
    r4: "updateDelayedConstructionJustDone R (on_registry b) ?r3 = Inr r4"
    "\<And>x. reg_valid R r4 x = reg_valid R ?r3 x"
    "\<And>x k. reg_find R r4 x k = (if just_done R ?r3 x \<and> k = KTag DelayedConstructionJustDone then None
       else reg_find R ?r3 x k)" by blast
  have "\<forall>x. constructing R r4 x \<longrightarrow> \<not> reg_has R r4 x (KTag DelayedConstructionJustDone)"
    by (auto simp: constructing_def reg_has_def r4(3) just_done_def)
  from constructing_spec [OF this, of b] obtain r5 where
    r5: "updateDelayedConstruction R (on_registry b) r4 = Inr r5"
    "\<And>x. reg_valid R r5 x = reg_valid R r4 x"
    "\<And>x k. k \<noteq> KTag DelayedConstruction \<Longrightarrow> k \<noteq> KTag DelayedConstructionJustDone \<Longrightarrow>
       reg_find R r5 x k = reg_find R r4 x k" by auto
  from unused_spec [of b r5] obtain r6 where
    r6: "updateUnusedSystem R False (on_registry b) r5 = Inr r6"
    "\<And>x. reg_valid R r6 x = reg_valid R r5 x"
    "\<And>x k. reg_find R r6 x k = (if k = KTag NeedToDestroyTag \<and> reg_has R r5 x (KTag UnusedTag)
       then Some (CTag NeedToDestroyTag) else reg_find R r5 x k)" by blast
  have keep: "reg_find R r5 x k = reg_find R r2 x k"
    if "k \<noteq> KTag DelayedConstruction" "k \<noteq> KTag DelayedConstructionJustDone" for x k
    using that r5(3) r4(3) unlink(2) by simp
  have ntd2: "reg_has R r2 x (KTag NeedToDestroyTag) = reg_has R r x (KTag NeedToDestroyTag)" for x
    by (rule has2) (simp add: construction_tags_def)
  have gone: "reg_has R r6 x (KTag NeedToDestroyTag) \<longleftrightarrow> given_up R nc r x" for x
    using unused2 [of x] ntd2 [of x] keep
    by (auto simp: reg_has_def r6(3) given_up_def split: if_splits)
  have "\<forall>x. reg_has R r6 x (KTag NeedToDestroyTag) \<longrightarrow> deletable A ws_is_open R b r6 x"
    using ready tcp2 keep by (auto simp: gone r6(3) update_ready_def deletable_def)
  from cleanup_spec [OF this] obtain r7 where
    r7: "updateCleanupSystem A ws_is_open R False (on_registry b) r6 = Inr r7"
    "\<And>x. reg_valid R r7 x = (reg_valid R r6 x \<and> \<not> reg_has R r6 x (KTag NeedToDestroyTag))"
    "\<And>x k. reg_find R r7 x k = (if reg_has R r6 x (KTag NeedToDestroyTag) then None else reg_find R r6 x k)"
    by blast
  have "reg_valid R r6 x = reg_valid R r x" for x
    by (simp add: r6(2) r5(2) r4(2) unlink(1) v2)
  then have "\<forall>x. reg_valid R r7 x \<longleftrightarrow> reg_valid R r x \<and> \<not> given_up R nc r x"
    by (simp add: r7(2) gone)
  moreover have "reg_find R r7 x k = reg_find R r x k"
    if "\<not> given_up R nc r x" "x \<notin> accept_view R nc r \<union> ssl_view R nc r" "k \<notin> construction_tags" for x k
    using that by (simp add: r7(3) gone r6(3) keep construction_tags_def rest2)
  moreover have "\<not> reg_has R r7 x (KTag NeedToDestroyTag)" for x
    by (simp add: reg_has_def r7(3))
  ultimately show ?thesis
    by (simp add: updateOnRegistryThread_def r12 c r4(1) r5(1) r6(1) r7(1) Let_def)
qed

end

subsection \<open>Registries for evaluation\<close>

definition demo_tcp :: "('s, 'q) TcpConnection" where
  "demo_tcp = TcpConnection_new\<lparr>ctx_strand := True\<rparr>"

definition demo_accept :: "error_code \<Rightarrow> demo_socket AcceptConnectionResult" where
  "demo_accept ec = \<lparr>ar_ec = ec, ar_socket = Here demo_conn, ar_need_close = False\<rparr>"

definition demo_ssl :: "error_code \<Rightarrow> demo_socket SSLDetectResult" where
  "demo_ssl ec = \<lparr>dr_ec = ec, dr_handshakeResult = False, dr_stream = Here (stream_of_socket demo_conn),
     dr_buffer = Here ''GET'', dr_need_close = False\<rparr>"

text \<open>Entity 1 waits for \<open>updateNewConnections\<close>, entity 2 for \<open>updateSSLDetection\<close>, 3 is unused.\<close>

definition demo_net :: "error_code \<Rightarrow> (demo_socket, ring) ref_registry" where
  "demo_net ec = \<lparr>rr_next = 4, rr_alive = [1, 2, 3], rr_components =
     [((1, KTcp), CTcp demo_tcp), ((1, KAccept), CAccept (demo_accept ec)),
      ((2, KTcp), CTcp demo_tcp), ((2, KSSL), CSSL (demo_ssl ec)),
      ((3, KTag UnusedTag), CTag UnusedTag)]\<rparr>"

lemma demo_net_find:
  "reg_valid ref_api (demo_net ec) x \<longleftrightarrow> x \<in> {1, 2, 3}"
  "reg_find ref_api (demo_net ec) x k =
    (if x = 1 \<and> k = KTcp then Some (CTcp demo_tcp)
     else if x = 1 \<and> k = KAccept then Some (CAccept (demo_accept ec))
     else if x = 2 \<and> k = KTcp then Some (CTcp demo_tcp)
     else if x = 2 \<and> k = KSSL then Some (CSSL (demo_ssl ec))
     else if x = 3 \<and> k = KTag UnusedTag then Some (CTag UnusedTag) else None)"
  by (auto simp: ref_api_def ref_valid_def ref_find_def demo_net_def)

lemma demo_net_views:
  "accept_view ref_api [] (demo_net ec) = {1}"
  "ssl_view ref_api [] (demo_net ec) = {2}"
  by (auto simp: accept_view_def ssl_view_def ref.set_view_find demo_net_find split: if_splits)

lemma demo_net_ready:
  "update_ready demo_api (\<lambda>_. False) ref_api [] b (demo_net ec)"
  by (auto simp: update_ready_def demo_net_views accept_ready_def ssl_ready_def demo_net_find
      demo_tcp_def demo_accept_def demo_ssl_def TcpConnection_new_def reg_has_def deletable_def
      delete_channels_def phases_ok_def)

subsection \<open>Properties\<close>


definition demo_updater :: updater where
  "demo_updater = NetworkEntityUpdater_new (\<lambda>_. None) (\<lambda>_. None) 1"


text \<open>
  A new connection. A result with an error or a close request gets its socket closed and its
  entity marked \<open>UnusedTag\<close>, and keeps its context; every other result moves the socket into a
  new \<open>DetectChannel\<close> in the context of the same entity and starts the detection on the
  connection's strand with a deadline of 3 seconds. Nothing outside the entity changes.
\<close>

theorem accept_result_branches:
  assumes "registry R" and "socket_laws A" and "reg_valid R r e"
    and "reg_find R r e KTcp = Some (CTcp tcp)" "ctx_strand tcp"
    and "reg_find R r e KAccept = Some (CAccept ar)" "ar_socket ar = Here s"
  shows "\<exists>r' log. handleAcceptResult A R (on_registry b) e r = Inr (r', log) \<and>
    same_elsewhere R r r' {e} \<and>
    (if failed (ar_ec ar) \<or> ar_need_close ar then
       reg_has R r' e (KTag UnusedTag) \<and> reg_find R r' e KTcp = Some (CTcp tcp) \<and>
       (\<exists>s'. reg_find R r' e KAccept = Some (CAccept (ar\<lparr>ar_socket := Here s'\<rparr>)) \<and> \<not> is_open A s')
     else log = [NetPostRunDetector e 3] \<and>
       reg_find R r' e KAccept = Some (CAccept (ar\<lparr>ar_socket := MovedFrom\<rparr>)) \<and>
       reg_find R r' e KTcp = Some (CTcp (tcp\<lparr>ctx_detect_channel := Some (DetectChannel_new s e)\<rparr>)) \<and>
       reg_has R r' e (KTag UnusedTag) = reg_has R r e (KTag UnusedTag))"
proof (cases "failed (ar_ec ar) \<or> ar_need_close ar")
  case True
  from registry.accept_close [OF assms(1,3-7) True, of A b] assms(4)
    closeSocketUnsafe_closed [OF assms(2), of s] True
  show ?thesis by auto
next
  case False
  then have f: "\<not> failed (ar_ec ar)" "\<not> ar_need_close ar" by simp_all
  from registry.accept_detect [OF assms(1,3-7) f, of A b] f show ?thesis
    by (auto simp: reg_has_def)
qed

theorem accept_result_branches_witness:
  "\<exists>r'. handleAcceptResult demo_api ref_api (on_registry Debug) 1 (demo_net Success) =
      Inr (r', [NetPostRunDetector 1 3])"
  using accept_result_branches [OF ref.registry_axioms demo_api_laws, of "demo_net Success" 1 demo_tcp
      "demo_accept Success" demo_conn Debug]
  by (auto simp: demo_net_find demo_tcp_def demo_accept_def)

text \<open>
  The result of a detection. A result with a close request or an error closes the stream and
  marks the entity \<open>UnusedTag\<close>; the shutdown that \<open>closeSocketUnsafe\<close> performs on an open socket
  never happens, since the stream is closed before. Every other result, secure or not, moves
  stream and buffer into a new \<open>HttpChannel\<close> in the context of the same entity and posts its
  first read.
\<close>

theorem ssl_result_branches:
  assumes "registry R" and "socket_laws A" and "reg_valid R r e"
    and "reg_find R r e KTcp = Some (CTcp tcp)"
    and "reg_find R r e KSSL = Some (CSSL dr)" "dr_stream dr = Here st" "dr_buffer dr = Here buffer"
  shows "\<exists>r' log. handleSSLDetectResult A R (on_registry b) e r = Inr (r', log) \<and>
    same_elsewhere R r r' {e} \<and>
    (if failed (dr_ec dr) \<or> dr_need_close dr then
       log = [NetCloseLog e AlreadyClosed] \<and> reg_has R r' e (KTag UnusedTag) \<and>
       (\<exists>st'. reg_find R r' e KSSL = Some (CSSL (dr\<lparr>dr_stream := Here st'\<rparr>)) \<and> \<not> is_open A (socket st'))
     else log = [NetHttp e HttpPostRead] \<and>
       reg_find R r' e KTcp = Some (CTcp (tcp\<lparr>ctx_http_channel := Some (HttpChannel_new st buffer e)\<rparr>)) \<and>
       reg_find R r' e KSSL = Some (CSSL (dr\<lparr>dr_stream := MovedFrom, dr_buffer := MovedFrom\<rparr>)))"
proof (cases "failed (dr_ec dr) \<or> dr_need_close dr")
  case True
  have "\<not> is_open A (socket (doCloseStream A st))"
    using assms(2) by (simp add: doCloseStream_def socket_laws_def)
  with registry.ssl_close [OF assms(1,3,2,5,6) True, of b] True show ?thesis by auto
next
  case False
  then have f: "\<not> failed (dr_ec dr)" "\<not> dr_need_close dr" by simp_all
  from registry.ssl_http [OF assms(1,3-7) f, of A b] f show ?thesis by auto
qed

theorem ssl_result_branches_witness:
  "\<exists>r'. handleSSLDetectResult demo_api ref_api (on_registry Release) 2 (demo_net Success) =
      Inr (r', [NetHttp 2 HttpPostRead])"
  using ssl_result_branches [OF ref.registry_axioms demo_api_laws, of "demo_net Success" 2 demo_tcp
      "demo_ssl Success" "stream_of_socket demo_conn" "''GET''" Release]
  by (auto simp: demo_net_find demo_ssl_def)

text \<open>
  Results are processed once. When all waiting results are complete, both systems return,
  tag every result they handled, leave all other entities alone, and a second run right after
  finds nothing to do.
\<close>

theorem results_processed_once:
  assumes "registry R" and "socket_laws A"
    and "\<forall>e \<in> accept_view R nc r. accept_ready R r e" and "\<forall>e \<in> ssl_view R nc r. ssl_ready R r e"
  shows "(\<exists>r' log. updateNewConnections A R nc (on_registry b) r = Inr (r', log) \<and>
      same_elsewhere R r r' (accept_view R nc r) \<and>
      (\<forall>e \<in> accept_view R nc r. reg_has R r' e (KTag UnusedAcceptResultTag)) \<and>
      updateNewConnections A R nc (on_registry b) r' = Inr (r', [])) \<and>
    (\<exists>r' log. updateSSLDetection A R nc (on_registry b) r = Inr (r', log) \<and>
      same_elsewhere R r r' (ssl_view R nc r) \<and>
      (\<forall>e \<in> ssl_view R nc r. reg_has R r' e (KTag UnusedSSLDetectResultTag)) \<and>
      updateSSLDetection A R nc (on_registry b) r' = Inr (r', []))"
  using registry.accept_once [OF assms(1,3), of A b] registry.ssl_once [OF assms(1,2,4), of b] by blast

theorem results_processed_once_witness:
  "\<exists>r' log. updateNewConnections demo_api ref_api [] (on_registry Debug) (demo_net Success) = Inr (r', log) \<and>
    reg_has ref_api r' 1 (KTag UnusedAcceptResultTag) \<and>
    updateNewConnections demo_api ref_api [] (on_registry Debug) r' = Inr (r', [])"
  using results_processed_once [OF ref.registry_axioms demo_api_laws, of "[]" "demo_net Success" Debug]
    demo_net_ready [of Debug Success]
  by (auto simp: update_ready_def demo_net_views)

text \<open>
  Delayed construction takes two updates. In one pass of the two systems, in their order, an
  entity under construction becomes just-constructed, and one that was just-constructed becomes
  ordinary; entities in destruction are left alone, and no entity is in both phases afterwards.
\<close>

theorem construction_two_phases:
  assumes "registry R" and "phases_ok R r"
  shows "\<exists>r1 r2. updateDelayedConstructionJustDone R (on_registry b) r = Inr r1 \<and>
    updateDelayedConstruction R (on_registry b) r1 = Inr r2 \<and> phases_ok R r2 \<and>
    (\<forall>x. reg_valid R r2 x = reg_valid R r x) \<and>
    (\<forall>x k. k \<noteq> KTag DelayedConstruction \<and> k \<noteq> KTag DelayedConstructionJustDone \<longrightarrow>
       reg_find R r2 x k = reg_find R r x k) \<and>
    (\<forall>x. \<not> reg_has R r x (KTag NeedToDestroyTag) \<longrightarrow>
       \<not> reg_has R r2 x (KTag DelayedConstruction) \<and>
       (reg_has R r2 x (KTag DelayedConstructionJustDone) \<longleftrightarrow> reg_has R r x (KTag DelayedConstruction))) \<and>
    (\<forall>x. reg_has R r x (KTag NeedToDestroyTag) \<longrightarrow> (\<forall>k. reg_find R r2 x k = reg_find R r x k))"
proof -
  from registry.just_done_spec [OF assms, of b] obtain r1 where
    r1: "updateDelayedConstructionJustDone R (on_registry b) r = Inr r1"
    "\<And>x. reg_valid R r1 x = reg_valid R r x"
    "\<And>x k. reg_find R r1 x k = (if just_done R r x \<and> k = KTag DelayedConstructionJustDone then None
       else reg_find R r x k)" by blast
  have con: "constructing R r1 x \<longleftrightarrow> constructing R r x" for x
    by (simp add: constructing_def reg_has_def r1(3))
  have "\<forall>x. constructing R r1 x \<longrightarrow> \<not> reg_has R r1 x (KTag DelayedConstructionJustDone)"
    by (auto simp: constructing_def reg_has_def r1(3) just_done_def)
  from registry.constructing_spec [OF assms(1) this, of b] obtain r2 where
    r2: "updateDelayedConstruction R (on_registry b) r1 = Inr r2"
    "\<And>x. reg_valid R r2 x = reg_valid R r1 x"
    "\<And>x k. reg_find R r2 x k = (if constructing R r1 x then
         (if k = KTag DelayedConstruction then None
          else if k = KTag DelayedConstructionJustDone then Some (CTag DelayedConstructionJustDone)
          else reg_find R r1 x k) else reg_find R r1 x k)" by blast
  have f: "reg_find R r2 x k =
      (if constructing R r x \<and> k = KTag DelayedConstruction then None
       else if constructing R r x \<and> k = KTag DelayedConstructionJustDone then Some (CTag DelayedConstructionJustDone)
       else if just_done R r x \<and> k = KTag DelayedConstructionJustDone then None
       else reg_find R r x k)" for x k
    by (simp add: r2(3) r1(3) con)
  have "phases_ok R r2"
    using assms(2) by (auto simp: phases_ok_def reg_has_def f constructing_def just_done_def)
  then show ?thesis
    using r1(1,2) r2(1,2) by (auto simp: f reg_has_def constructing_def just_done_def)
qed

theorem construction_two_phases_witness:
  "\<exists>r1 r2. updateDelayedConstructionJustDone ref_api (on_registry Debug)
      (reg_set ref_api (demo_net Success) 2 (CTag DelayedConstruction)) = Inr r1 \<and>
    updateDelayedConstruction ref_api (on_registry Debug) r1 = Inr r2 \<and>
    reg_has ref_api r2 2 (KTag DelayedConstructionJustDone)"
proof -
  let ?r = "reg_set ref_api (demo_net Success) 2 (CTag DelayedConstruction)"
  have "phases_ok ref_api ?r" by (auto simp: phases_ok_def reg_has_def demo_net_find)
  from construction_two_phases [OF ref.registry_axioms this, of Debug] show ?thesis
    by (force simp: reg_has_def demo_net_find)
qed

text \<open>
  The children of unused entities (the messages of a closed connection) are put in
  destruction: after \<open>updateUnusedChildList\<close> exactly the children of live, fully constructed
  unused entities carry \<open>NeedToDestroyTag\<close> in addition, no mark is left behind, and no other
  component changes.
\<close>

theorem unused_children_doomed:
  assumes "registry R"
    and "\<And>r e c p. reg_valid R r e \<Longrightarrow> top_level_children L (reg_set R r e c) p = top_level_children L r p"
    and "\<And>r x. reg_valid R (removeTopLevelChildrenFromView L r) x = reg_valid R r x"
    and "\<And>r x k. reg_find R (removeTopLevelChildrenFromView L r) x k = reg_find R r x k"
    and "children_ok R L r (concat (map (top_level_children L r) (groupParentsWithUnusedChilds R L r)))"
  shows "\<exists>r'. updateUnusedChildList R L (on_registry b) r = Inr r' \<and>
    (\<forall>x. reg_valid R r' x = reg_valid R r x) \<and>
    (\<forall>x k. reg_find R r' x k =
      (if k = KTag NeedToDestroyTag \<and>
          (\<exists>p \<in> set (groupParentsWithUnusedChilds R L r). x \<in> set (top_level_children L r p))
       then Some (CTag NeedToDestroyTag) else reg_find R r x k))"
  by (rule registry.children_spec [OF assms(1) assms(2) assms(3) assms(4) assms(5)])

theorem unused_children_doomed_witness:
  "\<exists>r'. updateUnusedChildList ref_api
      \<lparr>has_first_child = \<lambda>_ e. e = 3, top_level_children = \<lambda>_ p. if p = 3 then [2] else [],
       removeTopLevelChildrenFromView = \<lambda>r. r\<rparr> (on_registry Debug) (demo_net Success) = Inr r' \<and>
    reg_has ref_api r' 2 (KTag NeedToDestroyTag)"
proof -
  let ?L = "\<lparr>has_first_child = \<lambda>_ e. e = 3, top_level_children = \<lambda>_ p. if p = 3 then [2] else [],
    removeTopLevelChildrenFromView = \<lambda>r. r\<rparr> :: (demo_socket, ring) ref_registry relations"
  have v: "reg_view ref_api (demo_net Success) [KTag UnusedTag] [KTag NeedToDestroyTag, KTag DelayedConstruction] = [3]"
    by (simp add: ref_api_def ref_valid_def ref_find_def demo_net_def)
  then have g: "groupParentsWithUnusedChilds ref_api ?L (demo_net Success) = [3]"
    by (simp add: groupParentsWithUnusedChilds_def)
  then have "children_ok ref_api ?L (demo_net Success)
      (concat (map (top_level_children ?L (demo_net Success)) (groupParentsWithUnusedChilds ref_api ?L (demo_net Success))))"
    by (simp add: children_ok_def reg_has_def demo_net_find)
  from unused_children_doomed [OF ref.registry_axioms _ _ _ this, of Debug] g show ?thesis
    by (auto simp: reg_has_def)
qed

end
