(* ===== verification/Lifecycle.thy ===== *)
theory Lifecycle
  imports Prelude
begin

text \<open>
  State machines driven by a transition table, as \<open>Listener\<close> and \<open>AppState\<close> use them. The class
  \<open>basis::UnsafeStateMachine\<close> is not part of the repository: \<open>state_machine\<close> is its
  \<open>ProcessEvent\<close> as a parameter, and \<open>follows_table\<close> what it documents: an event that the table
  lists for the current state changes the state, runs the exit actions of the old and then the
  entry actions of the new state and reports success, any other event reports failure and does
  nothing. What runs when a state is entered from itself is left open.

  The two tables of the repository have the same shape over different state types. The locale
  \<open>lifecycle\<close> is that shape; its lemma says which sequences of events it accepts.
\<close>

type_synonym ('st, 'ev) table = "'st \<Rightarrow> 'ev \<Rightarrow> 'st option"

type_synonym ('st, 'ev, 'act) state_machine =
  "('st, 'ev) table \<Rightarrow> ('st \<Rightarrow> 'act list) \<Rightarrow> ('st \<Rightarrow> 'act list) \<Rightarrow> 'st \<Rightarrow> 'ev \<Rightarrow> bool \<times> 'st \<times> 'act list"

definition follows_table :: "('st, 'ev, 'act) state_machine \<Rightarrow> bool" where
  "follows_table P = (\<forall>T ex en s e. case T s e of
        None \<Rightarrow> P T ex en s e = (False, s, [])
      | Some t \<Rightarrow> \<exists>acts. P T ex en s e = (True, t, acts) \<and>
          (t \<noteq> s \<longrightarrow> acts = ex s @ en t) \<and> set acts \<subseteq> set (ex s) \<union> set (en t))"

lemma follows_table_at:
  "follows_table P \<Longrightarrow> case T s e of
        None \<Rightarrow> P T ex en s e = (False, s, [])
      | Some t \<Rightarrow> \<exists>acts. P T ex en s e = (True, t, acts) \<and>
          (t \<noteq> s \<longrightarrow> acts = ex s @ en t) \<and> set acts \<subseteq> set (ex s) \<union> set (en t)"
  unfolding follows_table_def by (elim allE)

lemma follows_table_None:
  "follows_table P \<Longrightarrow> T s e = None \<Longrightarrow> P T ex en s e = (False, s, [])"
  using follows_table_at [where P = P and T = T and s = s and e = e and ex = ex and en = en] by simp

lemma follows_table_Some:
  "follows_table P \<Longrightarrow> T s e = Some t \<Longrightarrow> \<exists>acts. P T ex en s e = (True, t, acts) \<and>
     (t \<noteq> s \<longrightarrow> acts = ex s @ en t) \<and> set acts \<subseteq> set (ex s) \<union> set (en t)"
  using follows_table_at [where P = P and T = T and s = s and e = e and ex = ex and en = en] by simp

text \<open>A concrete machine with these laws, for evaluation.\<close>

definition table_machine :: "('st, 'ev, 'act) state_machine" where
  "table_machine T ex en s e = (case T s e of None \<Rightarrow> (False, s, []) | Some t \<Rightarrow> (True, t, ex s @ en t))"

lemma table_machine_follows: "follows_table table_machine"
  by (auto simp: follows_table_def table_machine_def split: option.splits)

text \<open>The state after a sequence of events, when the table accepts all of them.\<close>

fun run_events :: "('st, 'ev) table \<Rightarrow> 'st \<Rightarrow> 'ev list \<Rightarrow> 'st option" where
  "run_events T s [] = Some s"
| "run_events T s (e # es) = (case T s e of None \<Rightarrow> None | Some t \<Rightarrow> run_events T t es)"

subsection \<open>The shape of both tables\<close>

locale lifecycle =
  fixes T :: "('st, 'ev) table"
    and uninitialized started paused terminated failed_state :: 'st
    and START PAUSE TERMINATE FAULT :: 'ev
  assumes states: "distinct [uninitialized, started, paused, terminated, failed_state]"
    and events: "distinct [START, PAUSE, TERMINATE, FAULT]"
    and from_uninitialized: "T uninitialized e =
      (if e = START then Some started else if e = TERMINATE then Some terminated
       else if e = FAULT then Some failed_state else None)"
    and from_started: "T started e =
      (if e = PAUSE then Some paused else if e = TERMINATE then Some terminated
       else if e = FAULT then Some failed_state else None)"
    and from_paused: "T paused e =
      (if e = TERMINATE then Some terminated else if e = FAULT then Some failed_state else None)"
    and from_terminated: "T terminated e =
      (if e = TERMINATE then Some terminated else if e = FAULT then Some failed_state else None)"
    and from_failed: "T failed_state e = (if e = FAULT then Some failed_state else None)"
begin

lemma run_failed: "run_events T failed_state es = Some s \<longleftrightarrow>
    s = failed_state \<and> (\<exists>m. es = replicate m FAULT)"
proof (induction es)
  case Nil
  then show ?case by (auto intro: exI [of _ "0::nat"])
next
  case (Cons e es)
  have "(\<exists>m. e # es = replicate m FAULT) \<longleftrightarrow> e = FAULT \<and> (\<exists>m. es = replicate m FAULT)"
  proof
    assume "\<exists>m. e # es = replicate m FAULT"
    then obtain m where "e # es = replicate m FAULT" ..
    then show "e = FAULT \<and> (\<exists>m. es = replicate m FAULT)" by (cases m) auto
  next
    assume "e = FAULT \<and> (\<exists>m. es = replicate m FAULT)"
    then obtain m where "e # es = replicate (Suc m) FAULT" by auto
    then show "\<exists>m. e # es = replicate m FAULT" by blast
  qed
  with Cons show ?case by (auto simp: from_failed)
qed

lemma run_terminated: "run_events T terminated es = Some s \<longleftrightarrow>
    (\<exists>n m. es = replicate n TERMINATE @ replicate m FAULT \<and>
      s = (if m = 0 then terminated else failed_state))"
proof (induction es)
  case Nil
  then show ?case by (auto intro: exI [of _ "0::nat"])
next
  case (Cons e es)
  have tf: "TERMINATE \<noteq> FAULT" using events by simp
  consider "e = TERMINATE" | "e = FAULT" "e \<noteq> TERMINATE" | "e \<noteq> TERMINATE" "e \<noteq> FAULT" by blast
  then show ?case
  proof cases
    case 1
    have "(\<exists>n m. TERMINATE # es = replicate n TERMINATE @ replicate m FAULT \<and> P m) \<longleftrightarrow>
        (\<exists>n m. es = replicate n TERMINATE @ replicate m FAULT \<and> P m)" for P
    proof
      assume "\<exists>n m. TERMINATE # es = replicate n TERMINATE @ replicate m FAULT \<and> P m"
      then obtain n m where e: "TERMINATE # es = replicate n TERMINATE @ replicate m FAULT" "P m" by blast
      from e(1) tf obtain n' where "n = Suc n'" by (cases n; cases m) auto
      with e have "es = replicate n' TERMINATE @ replicate m FAULT \<and> P m" by simp
      then show "\<exists>n m. es = replicate n TERMINATE @ replicate m FAULT \<and> P m" by blast
    next
      assume "\<exists>n m. es = replicate n TERMINATE @ replicate m FAULT \<and> P m"
      then show "\<exists>n m. TERMINATE # es = replicate n TERMINATE @ replicate m FAULT \<and> P m"
        by (metis append_Cons replicate_Suc)
    qed
    with 1 Cons show ?thesis by (simp add: from_terminated)
  next
    case 2
    have "(\<exists>n m. FAULT # es = replicate n TERMINATE @ replicate m FAULT \<and>
        s = (if m = 0 then terminated else failed_state)) \<longleftrightarrow> s = failed_state \<and> (\<exists>m. es = replicate m FAULT)"
      (is "?l = ?r")
    proof
      assume ?l
      then obtain n m where e: "FAULT # es = replicate n TERMINATE @ replicate m FAULT"
        "s = (if m = 0 then terminated else failed_state)" by blast
      from e(1) tf show ?r using e(2) by (cases n; cases m) auto
    next
      assume ?r
      then obtain m where "s = failed_state" "es = replicate m FAULT" by blast
      then have "FAULT # es = replicate 0 TERMINATE @ replicate (Suc m) FAULT" by simp
      with \<open>s = failed_state\<close> show ?l by (metis nat.distinct(1))
    qed
    with 2 show ?thesis by (simp add: from_terminated run_failed)
  next
    case 3
    have "e # es \<noteq> replicate n TERMINATE @ replicate m FAULT" for n m
      using 3 by (cases n; cases m) auto
    with 3 show ?thesis by (simp add: from_terminated)
  qed
qed

text \<open>
  The accepted sequences: start at most once and first, pause at most once and only after the
  start, then any number of terminations, then any number of faults.
\<close>

definition phase_of :: "'ev list \<Rightarrow> nat \<Rightarrow> nat \<Rightarrow> 'st" where
  "phase_of a n m = (if 0 < m then failed_state else if 0 < n then terminated
     else if a = [] then uninitialized else if a = [START] then started else paused)"

lemma run_tail:
  assumes "s0 \<in> {uninitialized, started, paused}"
    and "e = TERMINATE \<or> e = FAULT"
  shows "run_events T s0 (e # es) = Some s \<longleftrightarrow>
    (\<exists>n m. e # es = replicate n TERMINATE @ replicate m FAULT \<and>
      s = (if m = 0 then terminated else failed_state))"
proof -
  have "T s0 e = T terminated e"
    using assms events by (auto simp: from_uninitialized from_started from_paused from_terminated)
  then have "run_events T s0 (e # es) = run_events T terminated (e # es)" by simp
  then show ?thesis by (simp only: run_terminated)
qed

definition tail_state :: "'st \<Rightarrow> nat \<Rightarrow> nat \<Rightarrow> 'st" where
  "tail_state s0 n m = (if 0 < m then failed_state else if 0 < n then terminated else s0)"

lemma tail_fwd:
  assumes r: "run_events T s0 es = Some t" and s0: "s0 \<in> {uninitialized, started, paused}"
    and hd: "es = [] \<or> hd es = TERMINATE \<or> hd es = FAULT"
  shows "\<exists>n m. es = replicate n TERMINATE @ replicate m FAULT \<and> t = tail_state s0 n m"
proof (cases es)
  case Nil
  with r have "es = replicate 0 TERMINATE @ replicate 0 FAULT \<and> t = tail_state s0 0 0"
    by (simp add: tail_state_def)
  then show ?thesis by blast
next
  case (Cons e es')
  with hd have "e = TERMINATE \<or> e = FAULT" by simp
  from run_tail [OF s0 this, of es' t] r Cons obtain n m where
    nm: "es = replicate n TERMINATE @ replicate m FAULT" "t = (if m = 0 then terminated else failed_state)"
    by blast
  have "0 < m \<or> 0 < n" using nm(1) Cons by (cases n; cases m) simp_all
  with nm have "es = replicate n TERMINATE @ replicate m FAULT \<and> t = tail_state s0 n m"
    by (auto simp: tail_state_def)
  then show ?thesis by blast
qed

lemma tail_bwd:
  assumes s0: "s0 \<in> {uninitialized, started, paused}"
  shows "run_events T s0 (replicate n TERMINATE @ replicate m FAULT) = Some (tail_state s0 n m)"
proof (cases "replicate n TERMINATE @ replicate m FAULT")
  case Nil
  then show ?thesis by (simp add: tail_state_def)
next
  case (Cons e es')
  then have e: "e = TERMINATE \<or> e = FAULT" by (cases n; cases m) simp_all
  have "0 < m \<or> 0 < n" using Cons by (cases n; cases m) simp_all
  with Cons have "e # es' = replicate n TERMINATE @ replicate m FAULT \<and>
    tail_state s0 n m = (if m = 0 then terminated else failed_state)"
    by (auto simp: tail_state_def)
  then have "run_events T s0 (e # es') = Some (tail_state s0 n m)"
    using run_tail [OF s0 e, of es'] by blast
  then show ?thesis by (simp only: Cons)
qed

lemma first_event:
  "run_events T uninitialized es = Some s \<Longrightarrow> es = [] \<or> hd es \<in> {START, TERMINATE, FAULT}"
  "run_events T started es = Some s \<Longrightarrow> es = [] \<or> hd es \<in> {PAUSE, TERMINATE, FAULT}"
  "run_events T paused es = Some s \<Longrightarrow> es = [] \<or> hd es \<in> {TERMINATE, FAULT}"
  by (cases es; simp add: from_uninitialized from_started from_paused split: if_splits)+

lemma accepted_fwd:
  assumes l: "run_events T uninitialized es = Some s"
  shows "\<exists>a n m. a \<in> {[], [START], [START, PAUSE]} \<and>
      es = a @ replicate n TERMINATE @ replicate m FAULT \<and> s = phase_of a n m"
proof (cases "es \<noteq> [] \<and> hd es = START")
  case False
  then have "es = [] \<or> hd es = TERMINATE \<or> hd es = FAULT" using first_event(1) [OF l] by blast
  from tail_fwd [OF l _ this] obtain n m where "es = [] @ replicate n TERMINATE @ replicate m FAULT"
    "s = phase_of [] n m" by (auto simp: phase_of_def tail_state_def)
  then show ?thesis by blast
next
  case True
  then obtain es1 where es1: "es = START # es1" by (cases es) auto
  with l have r1: "run_events T started es1 = Some s" by (simp add: from_uninitialized)
  show ?thesis
  proof (cases "es1 \<noteq> [] \<and> hd es1 = PAUSE")
    case False
    then have "es1 = [] \<or> hd es1 = TERMINATE \<or> hd es1 = FAULT" using first_event(2) [OF r1] by blast
    from tail_fwd [OF r1 _ this] obtain n m where "es1 = replicate n TERMINATE @ replicate m FAULT"
      "s = phase_of [START] n m" by (auto simp: phase_of_def tail_state_def)
    with es1 have "es = [START] @ replicate n TERMINATE @ replicate m FAULT" by simp
    with \<open>s = phase_of [START] n m\<close> show ?thesis by blast
  next
    case True
    then obtain es2 where es2: "es1 = PAUSE # es2" by (cases es1) auto
    with r1 have r2: "run_events T paused es2 = Some s" by (simp add: from_started)
    then have "es2 = [] \<or> hd es2 = TERMINATE \<or> hd es2 = FAULT" using first_event(3) [OF r2] by blast
    from tail_fwd [OF r2 _ this] obtain n m where "es2 = replicate n TERMINATE @ replicate m FAULT"
      "s = phase_of [START, PAUSE] n m" by (auto simp: phase_of_def tail_state_def)
    with es1 es2 have "es = [START, PAUSE] @ replicate n TERMINATE @ replicate m FAULT" by simp
    with \<open>s = phase_of [START, PAUSE] n m\<close> show ?thesis by blast
  qed
qed

lemma accepted_bwd:
  assumes "a \<in> {[], [START], [START, PAUSE]}"
  shows "run_events T uninitialized (a @ replicate n TERMINATE @ replicate m FAULT) = Some (phase_of a n m)"
proof -
  note t = tail_bwd [of uninitialized n m] tail_bwd [of started n m] tail_bwd [of paused n m]
  have "PAUSE \<noteq> START" using events by auto
  consider "a = []" | "a = [START]" | "a = [START, PAUSE]" using assms by blast
  then show ?thesis
    using t \<open>PAUSE \<noteq> START\<close>
    by cases (simp_all add: from_uninitialized from_started phase_of_def tail_state_def)
qed

lemma accepted:
  "run_events T uninitialized es = Some s \<longleftrightarrow>
    (\<exists>a n m. a \<in> {[], [START], [START, PAUSE]} \<and>
      es = a @ replicate n TERMINATE @ replicate m FAULT \<and> s = phase_of a n m)"
  using accepted_fwd accepted_bwd by blast

end

text \<open>\<open>Listener::Event\<close> and \<open>AppState::Event\<close>: the two enums have the same members.\<close>

datatype event = START | PAUSE | SUSPEND | TERMINATE | FAULT

end
