(* ===== verification/Listener.thy ===== *)
theory Listener
  imports Lifecycle Registry
begin

text \<open>
  \<open>src/websocket/listener.cpp\<close>, \<open>include/flexnet/websocket/listener.hpp\<close>: the acceptor of new
  connections. The acceptor is Asio's, a value of type \<open>'a\<close> with the calls of an
  \<open>acceptor_api\<close>; each returns the new acceptor and the error code. The state machine \<open>sm_\<close>
  exists in debug builds only: the field \<open>ls_state\<close> is changed and consulted there only, through
  the parameter \<open>P\<close> (see \<open>Lifecycle\<close>).

  Handlers return the new listener, their \<open>listener_effect\<close>s and, where the source returns
  one, a \<open>basis::Status\<close>. \<open>ioc_stopped\<close> is \<open>ioc_.stopped()\<close>; \<open>fail_point\<close> is the answer of the
  fail point of aborted connections; \<open>entityAllocator\<close> is the callback of the constructor. Not
  modelled: the endpoint's address, warnings about big registries, promises of posted tasks,
  weak pointers.
\<close>

datatype Listener_State =
    Listener_UNINITIALIZED | Listener_STARTED | Listener_PAUSED | Listener_TERMINATED | Listener_FAILED

record 'a acceptor_api =
  acc_is_open :: "'a \<Rightarrow> bool"
  acc_open :: "'a \<Rightarrow> 'a \<times> error_code"
  acc_reuse_address :: "'a \<Rightarrow> 'a \<times> error_code"
  acc_bind :: "'a \<Rightarrow> 'a \<times> error_code"
  acc_listen :: "'a \<Rightarrow> 'a \<times> error_code"
  acc_cancel :: "'a \<Rightarrow> 'a \<times> error_code"
  acc_close :: "'a \<Rightarrow> 'a \<times> error_code"

record 'a listener =
  ls_acceptor :: 'a
  ls_state :: Listener_State

datatype status = Ok | Error string

datatype failure_class =
    ConnectionAbortedError | StreamTruncatedError | OperationAbortedError | WebsocketClosedError | PlainError

datatype 's listener_effect =
    ListenerLog failure_class string error_code
  | PostConfigureAndRun
  | PostStopAcceptor
  | PostAllocate                         \<comment> \<open>task \<open>allocateTcpResourceAndAccept\<close>\<close>
  | PostAsyncAccept entity
  | AsyncAccept entity                   \<comment> \<open>\<open>acceptor_.async_accept\<close>\<close>
  | PostSetResult entity error_code 's
  | PostDoAccept

type_synonym ('a, 's) listener_step = "('a listener \<times> 's listener_effect list) result"
type_synonym ('a, 's) listener_status = "(('a listener \<times> status) \<times> 's listener_effect list) result"

definition Listener_table :: "(Listener_State, event) table" where
  "Listener_table s e =
     (case (s, e) of
        (Listener_UNINITIALIZED, START) \<Rightarrow> Some Listener_STARTED
      | (Listener_UNINITIALIZED, TERMINATE) \<Rightarrow> Some Listener_TERMINATED
      | (Listener_UNINITIALIZED, FAULT) \<Rightarrow> Some Listener_FAILED
      | (Listener_STARTED, PAUSE) \<Rightarrow> Some Listener_PAUSED
      | (Listener_STARTED, TERMINATE) \<Rightarrow> Some Listener_TERMINATED
      | (Listener_STARTED, FAULT) \<Rightarrow> Some Listener_FAILED
      | (Listener_PAUSED, TERMINATE) \<Rightarrow> Some Listener_TERMINATED
      | (Listener_PAUSED, FAULT) \<Rightarrow> Some Listener_FAILED
      | (Listener_TERMINATED, TERMINATE) \<Rightarrow> Some Listener_TERMINATED
      | (Listener_TERMINATED, FAULT) \<Rightarrow> Some Listener_FAILED
      | (Listener_FAILED, FAULT) \<Rightarrow> Some Listener_FAILED
      | _ \<Rightarrow> None)"

interpretation listener_lifecycle: lifecycle Listener_table Listener_UNINITIALIZED Listener_STARTED
  Listener_PAUSED Listener_TERMINATED Listener_FAILED START PAUSE TERMINATE FAULT
  by unfold_locales (auto simp: Listener_table_def split: event.splits)

type_synonym listener_machine = "(Listener_State, event, unit) state_machine"

subsection \<open>Construction, destruction, reporting\<close>

definition Listener_new :: "'a \<Rightarrow> 'a listener" where
  "Listener_new acceptor = \<lparr>ls_acceptor = acceptor, ls_state = Listener_UNINITIALIZED\<rparr>"

definition Listener_delete ::
  "'a acceptor_api \<Rightarrow> build \<Rightarrow> bool \<Rightarrow> bool \<Rightarrow> 'a listener \<Rightarrow> unit result" where
  "Listener_delete AA b registry_empty ioc_stopped l =
     dcheck b ''!acceptor_.is_open()'' (\<not> acc_is_open AA (ls_acceptor l))
     (dcheck b ''sm_.currentState()''
        (ls_state l \<in> {Listener_UNINITIALIZED, Listener_TERMINATED, Listener_FAILED})
     (dcheck b ''registry_.registryUnsafe().empty()'' registry_empty
     (dcheck b ''ioc_.stopped()'' ioc_stopped (Inr ()))))"

definition logFailure :: "error_code \<Rightarrow> string \<Rightarrow> 's listener_effect list" where
  "logFailure ec what =
     (if ec = ConnectionAborted then [ListenerLog ConnectionAbortedError what ec]
      else if ec = StreamTruncated then [ListenerLog StreamTruncatedError what ec]
      else if ec = OperationAborted then [ListenerLog OperationAbortedError what ec]
      else if ec = WebsocketClosed then [ListenerLog WebsocketClosedError what ec]
      else [ListenerLog PlainError what ec])"

definition isAcceptorOpen :: "'a acceptor_api \<Rightarrow> exec_env \<Rightarrow> 'a listener \<Rightarrow> bool result" where
  "isAcceptorOpen AA E l = run_on E AcceptorStrand (Inr (acc_is_open AA (ls_acceptor l)))"

text \<open>\<open>if(isAcceptorOpen())\<close>\<close>

definition if_open ::
  "'a acceptor_api \<Rightarrow> exec_env \<Rightarrow> 'a listener \<Rightarrow> 'b result \<Rightarrow> 'b result \<Rightarrow> 'b result" where
  "if_open AA E l yes no = andThen (isAcceptorOpen AA E l) (\<lambda>open. if open then yes else no)"

definition check_state :: "exec_env \<Rightarrow> Listener_State set \<Rightarrow> 'a listener \<Rightarrow> 'b result \<Rightarrow> 'b result" where
  "check_state E states l k = dcheck (bld E) ''sm_.currentState()'' (ls_state l \<in> states) k"

definition ioc_guard :: "exec_env \<Rightarrow> bool \<Rightarrow> 'b result \<Rightarrow> 'b result" where
  "ioc_guard E ioc_stopped k = dcheck (bld E) ''isIocRunning'' (\<not> ioc_stopped) k"

text \<open>Compiled in debug builds only; the callers ignore the status.\<close>

definition Listener_processStateChange ::
  "listener_machine \<Rightarrow> exec_env \<Rightarrow> event \<Rightarrow> 'a listener \<Rightarrow> ('a listener \<times> bool) result" where
  "Listener_processStateChange P E processEvent l =
     run_on E AcceptorStrand
     (case P Listener_table (\<lambda>_. []) (\<lambda>_. []) (ls_state l) processEvent of (ok, s, _) \<Rightarrow>
        if \<not> ok then dcheck (bld E) ''false'' False (Inr (l\<lparr>ls_state := s\<rparr>, ok))
        else Inr (l\<lparr>ls_state := s\<rparr>, ok))"

definition debug_state_change ::
  "listener_machine \<Rightarrow> exec_env \<Rightarrow> event \<Rightarrow> 'a listener \<Rightarrow> ('a listener \<Rightarrow> 'b result) \<Rightarrow> 'b result" where
  "debug_state_change P E ev l k =
     (if bld E = Debug then andThen (Listener_processStateChange P E ev l) (\<lambda>(l, _). k l) else k l)"

subsection \<open>Opening, configuring, running\<close>

definition openAcceptor :: "'a acceptor_api \<Rightarrow> exec_env \<Rightarrow> 'a listener \<Rightarrow> ('a, 's) listener_status" where
  "openAcceptor AA E l =
     run_on E AcceptorStrand
     (check_state E {Listener_UNINITIALIZED, Listener_PAUSED} l
     (let (acceptor, ec) = acc_open AA (ls_acceptor l);
          l = l\<lparr>ls_acceptor := acceptor\<rparr>
      in if failed ec then Inr ((l, Error ''Could not call open for acceptor''), logFailure ec ''open'')
         else if_open AA E l
           (Inr ((l, Ok), []))
           (Inr ((l, Error ''Failed to open acceptor''), []))))"

definition configureAcceptor :: "'a acceptor_api \<Rightarrow> exec_env \<Rightarrow> 'a listener \<Rightarrow> ('a, 's) listener_status" where
  "configureAcceptor AA E l =
     run_on E AcceptorStrand
     (check_state E {Listener_UNINITIALIZED, Listener_PAUSED} l
     (let (acceptor, ec) = acc_reuse_address AA (ls_acceptor l);
          l = l\<lparr>ls_acceptor := acceptor\<rparr>
      in if failed ec then Inr ((l, Error ''Could not call set_option for acceptor''), logFailure ec ''set_option'')
      else (let (acceptor, ec) = acc_bind AA (ls_acceptor l);
                l = l\<lparr>ls_acceptor := acceptor\<rparr>
      in if failed ec then Inr ((l, Error ''Could not call bind for acceptor''), logFailure ec ''bind'')
      else (let (acceptor, ec) = acc_listen AA (ls_acceptor l);
                l = l\<lparr>ls_acceptor := acceptor\<rparr>
      in if failed ec then Inr ((l, Error ''Could not call listen for acceptor''), logFailure ec ''listen'')
      else Inr ((l, Ok), [])))))"

definition doAccept :: "'a acceptor_api \<Rightarrow> exec_env \<Rightarrow> 'a listener \<Rightarrow> ('a, 's) listener_step" where
  "doAccept AA E l =
     run_on E AcceptorStrand
     (if_open AA E l
        (check_state E {Listener_STARTED} l (Inr (l, [PostAllocate])))
        (Inr (l, [])))"

definition configureAndRun :: "exec_env \<Rightarrow> bool \<Rightarrow> 'a listener \<Rightarrow> ('a, 's) listener_step" where
  "configureAndRun E ioc_stopped l =
     ioc_guard E ioc_stopped
     (dcheck (bld E) ''!isAcceptingInThisThread()'' (on_runner E \<noteq> AcceptorStrand)
     (dcheck (bld E) ''!ioc_.stopped()'' (\<not> ioc_stopped) (Inr (l, [PostConfigureAndRun]))))"

text \<open>\<open>RETURN_IF_NOT_OK\<close>: return the status unless it is ok, else go on with the new listener.\<close>

definition if_ok ::
  "('a, 's) listener_status \<Rightarrow> ('a listener \<Rightarrow> ('a, 's) listener_status) \<Rightarrow> ('a, 's) listener_status" where
  "if_ok m k = andThen m (\<lambda>((l, st), log).
     case st of Ok \<Rightarrow> emit log (k l) | Error e \<Rightarrow> Inr ((l, Error e), log))"

definition configureAndRunAcceptor ::
  "listener_machine \<Rightarrow> 'a acceptor_api \<Rightarrow> exec_env \<Rightarrow> 'a listener \<Rightarrow> ('a, 's) listener_status" where
  "configureAndRunAcceptor P AA E l =
     run_on E AcceptorStrand
     (check_state E {Listener_UNINITIALIZED, Listener_PAUSED} l
     (if_ok (openAcceptor AA E l) (\<lambda>l.
      if_ok (configureAcceptor AA E l) (\<lambda>l.
        if_open AA E l
          (debug_state_change P E START l (\<lambda>l.
             andThen (doAccept AA E l) (\<lambda>(l, log). Inr ((l, Ok), log))))
          (Inr ((l, Error ''Unable to run closed acceptor''), []))))))"

subsection \<open>The accept chain\<close>

definition allocateTcpResourceAndAccept ::
  "('r, 's, 'q) registry_api \<Rightarrow> ('r \<Rightarrow> (entity \<times> 'r) result) \<Rightarrow> exec_env \<Rightarrow> bool \<Rightarrow> 'r \<Rightarrow>
   ('r \<times> 's listener_effect list) result" where
  "allocateTcpResourceAndAccept R entityAllocator E ioc_stopped r =
     ioc_guard E ioc_stopped
     (run_on E RegistrySequence
     (andThen (entityAllocator r) (\<lambda>(tcp_entity_id, r).
        dcheck (bld E) ''registry_->valid(tcp_entity_id)'' (reg_valid R r tcp_entity_id)
        (dcheck (bld E) ''registry_->has<ECS::TcpConnection>'' (reg_has R r tcp_entity_id KTcp)
        (with_tcp R r tcp_entity_id (\<lambda>tcp.
          let tcp = tcp\<lparr>ctx_strand := True\<rparr>;
              r = reg_set R r tcp_entity_id (CTcp tcp)
          in if ioc_stopped then notreached (bld E) ''stopped ioc'' (Inr (r, []))
             else dcheck (bld E) ''try_ctx_var<StrandComponent>'' (ctx_strand tcp)
               (Inr (r, [PostAsyncAccept tcp_entity_id]))))))))"

definition asyncAccept :: "'a acceptor_api \<Rightarrow> exec_env \<Rightarrow> entity \<Rightarrow> 'a listener \<Rightarrow> ('a, 's) listener_step" where
  "asyncAccept AA E tcp_entity_id l =
     run_on E AcceptorStrand
     (if_open AA E l
        (check_state E {Listener_STARTED} l (Inr (l, [AsyncAccept tcp_entity_id])))
        (Inr (l, [])))"

text \<open>
  \<open>peer_connected\<close> says whether \<open>socket.remote_endpoint()\<close> finds a connected peer; the overload
  that the source calls throws otherwise, and it is called outside of any tracing macro.
\<close>

definition Listener_onAccept ::
  "'s socket_api \<Rightarrow> ('s \<Rightarrow> bool) \<Rightarrow> exec_env \<Rightarrow> bool \<Rightarrow> bool \<Rightarrow> entity \<Rightarrow> error_code \<Rightarrow> 's \<Rightarrow>
   'a listener \<Rightarrow> ('a, 's) listener_step" where
  "Listener_onAccept A peer_connected E fail_point ioc_stopped tcp_entity_id ec sock l =
     ioc_guard E ioc_stopped
     (run_on E ConnectionStrand
     (let errorCode = (if fail_point then ConnectionAborted else ec);
          log = (if failed errorCode then logFailure errorCode ''accept'' else [])
      in emit log
        (let k = (if ioc_stopped then notreached (bld E) ''stopped ioc'' (Inr (l, []))
                  else Inr (l, [PostSetResult tcp_entity_id errorCode sock, PostDoAccept]))
         in if \<not> is_open A sock then k
            else throws_unless ''socket.remote_endpoint()'' (peer_connected sock) k)))"

definition setAcceptConnectionResult ::
  "'s socket_api \<Rightarrow> ('r, 's, 'q) registry_api \<Rightarrow> exec_env \<Rightarrow> entity \<Rightarrow> error_code \<Rightarrow> 's \<Rightarrow> 'r \<Rightarrow> 'r result" where
  "setAcceptConnectionResult A R E tcp_entity_id ec sock r =
     run_on E RegistrySequence
     (dcheck (bld E) ''registry_->valid(tcp_entity_id)'' (reg_valid R r tcp_entity_id)
     (with_tcp R r tcp_entity_id (\<lambda>tcp.
        dcheck (bld E) ''try_ctx_var<StrandComponent>'' (ctx_strand tcp)
        (let r = reg_remove R r tcp_entity_id (KTag UnusedAcceptResultTag);
             forceClosing = (\<not> is_open A sock)
         in Inr (reg_set R r tcp_entity_id
              (CAccept \<lparr>ar_ec = ec, ar_socket = Here sock, ar_need_close = forceClosing\<rparr>))))))"

subsection \<open>Pausing and stopping\<close>

definition pause :: "listener_machine \<Rightarrow> exec_env \<Rightarrow> 'a listener \<Rightarrow> ('a, 's) listener_status" where
  "pause P E l =
     run_on E AcceptorStrand (debug_state_change P E PAUSE l (\<lambda>l. Inr ((l, Ok), [])))"

definition stopAcceptor ::
  "listener_machine \<Rightarrow> 'a acceptor_api \<Rightarrow> exec_env \<Rightarrow> 'a listener \<Rightarrow> ('a, 's) listener_status" where
  "stopAcceptor P AA E l =
     run_on E AcceptorStrand
     (debug_state_change P E TERMINATE l (\<lambda>l.
      if_open AA E l
        (let (acceptor, ec) = acc_cancel AA (ls_acceptor l);
             l = l\<lparr>ls_acceptor := acceptor\<rparr>
         in if failed ec then
              Inr ((l, Error ''Failed to call acceptor_cancel for acceptor''), logFailure ec ''acceptor_cancel'')
            else (let (acceptor, ec) = acc_close AA (ls_acceptor l);
                      l = l\<lparr>ls_acceptor := acceptor\<rparr>
              in if failed ec then
                   Inr ((l, Error ''Failed to call acceptor_close for acceptor''), logFailure ec ''acceptor_close'')
                 else if bld E = Debug then
                   andThen (isAcceptorOpen AA E l) (\<lambda>open.
                     dcheck (bld E) ''!isAcceptorOpen()'' (\<not> open) (Inr ((l, Ok), [])))
                 else Inr ((l, Ok), [])))
        (Inr ((l, Ok), []))))"

definition stopAcceptorAsync :: "exec_env \<Rightarrow> bool \<Rightarrow> 'a listener \<Rightarrow> ('a, 's) listener_step" where
  "stopAcceptorAsync E ioc_stopped l =
     ioc_guard E ioc_stopped
     (dcheck (bld E) ''!isAcceptingInThisThread()'' (on_runner E \<noteq> AcceptorStrand)
     (dcheck (bld E) ''!ioc_.stopped()'' (\<not> ioc_stopped) (Inr (l, [PostStopAcceptor]))))"

end
