(* ===== verification/Listener_Machine.thy ===== *)
theory Listener_Machine
  imports Listener
begin

text \<open>
  The accept chain of a \<open>Listener\<close> from a successful \<open>configureAndRunAcceptor\<close> on: the tasks and
  the accept operation that are outstanding, completed in any order, with \<open>stopAcceptor\<close> at any
  moment. The io context keeps running and the tasks that store the results are only counted.
  \<open>alloc\<close> is the entity allocator; the rest of the program may change the registry at any moment,
  to any \<open>r\<close> with \<open>J r\<close>, and the allocator is called on such registries only.
\<close>

datatype accept_op = OpDoAccept | OpAllocate | OpAsyncAccept entity | OpAccept entity

fun accept_ops :: "'s listener_effect list \<Rightarrow> accept_op list" where
  "accept_ops [] = []"
| "accept_ops (PostAllocate # es) = OpAllocate # accept_ops es"
| "accept_ops (PostAsyncAccept e # es) = OpAsyncAccept e # accept_ops es"
| "accept_ops (AsyncAccept e # es) = OpAccept e # accept_ops es"
| "accept_ops (PostDoAccept # es) = OpDoAccept # accept_ops es"
| "accept_ops (_ # es) = accept_ops es"

lemma accept_ops_append [simp]: "accept_ops (es @ es') = accept_ops es @ accept_ops es'"
  by (induction es rule: accept_ops.induct) auto

record ('a, 'r, 's) listener_run =
  lr_listener :: "'a listener"
  lr_registry :: 'r
  lr_ops :: "accept_op list"
  lr_log :: "'s listener_effect list"

text \<open>The environments of the runners.\<close>

definition at :: "build \<Rightarrow> runner \<Rightarrow> exec_env" where
  "at b r = \<lparr>bld = b, on_runner = r\<rparr>"

lemma at_simps [simp]: "bld (at b r) = b" "on_runner (at b r) = r"
  by (simp_all add: at_def)

definition lr_next ::
  "('a, 'r, 's) listener_run \<Rightarrow> accept_op list \<Rightarrow> 'a listener \<Rightarrow> 'r \<Rightarrow> 's listener_effect list \<Rightarrow>
   ('a, 'r, 's) listener_run" where
  "lr_next m ops l r es = \<lparr>lr_listener = l, lr_registry = r, lr_ops = ops @ accept_ops es, lr_log = lr_log m @ es\<rparr>"

definition lr_complete ::
  "'s socket_api \<Rightarrow> ('s \<Rightarrow> bool) \<Rightarrow> ('r, 's, 'q) registry_api \<Rightarrow> ('r \<Rightarrow> (entity \<times> 'r) result) \<Rightarrow>
   'a acceptor_api \<Rightarrow> build \<Rightarrow> bool \<Rightarrow> error_code \<Rightarrow> 's \<Rightarrow> accept_op \<Rightarrow> accept_op list \<Rightarrow>
   ('a, 'r, 's) listener_run \<Rightarrow> ('a, 'r, 's) listener_run result" where
  "lr_complete A peer R alloc AA b fp ec sock op ops m =
     (let l = lr_listener m; r = lr_registry m in case op of
        OpDoAccept \<Rightarrow> andThen (doAccept AA (at b AcceptorStrand) l) (\<lambda>(l, es). Inr (lr_next m ops l r es))
      | OpAllocate \<Rightarrow> andThen (allocateTcpResourceAndAccept R alloc (at b RegistrySequence) False r)
          (\<lambda>(r, es). Inr (lr_next m ops l r es))
      | OpAsyncAccept e \<Rightarrow> andThen (asyncAccept AA (at b AcceptorStrand) e l) (\<lambda>(l, es). Inr (lr_next m ops l r es))
      | OpAccept e \<Rightarrow> andThen (Listener_onAccept A peer (at b ConnectionStrand) fp False e ec sock l)
          (\<lambda>(l, es). Inr (lr_next m ops l r es)))"

definition listener_start ::
  "listener_machine \<Rightarrow> 'a acceptor_api \<Rightarrow> build \<Rightarrow> 'a \<Rightarrow> 'r \<Rightarrow> ('a, 'r, 's) listener_run result \<Rightarrow> bool" where
  "listener_start P AA b acceptor r s = (\<exists>l es.
     configureAndRunAcceptor P AA (at b AcceptorStrand) (Listener_new acceptor) = Inr ((l, Ok), es) \<and>
     s = Inr \<lparr>lr_listener = l, lr_registry = r, lr_ops = accept_ops es, lr_log = es\<rparr>)"

inductive listener_step ::
  "'s socket_api \<Rightarrow> ('s \<Rightarrow> bool) \<Rightarrow> ('r, 's, 'q) registry_api \<Rightarrow> ('r \<Rightarrow> bool) \<Rightarrow>
   ('r \<Rightarrow> (entity \<times> 'r) result) \<Rightarrow> listener_machine \<Rightarrow> 'a acceptor_api \<Rightarrow> build \<Rightarrow>
   ('a, 'r, 's) listener_run result \<Rightarrow> ('a, 'r, 's) listener_run result \<Rightarrow> bool"
  for A :: "'s socket_api" and peer :: "'s \<Rightarrow> bool" and R :: "('r, 's, 'q) registry_api"
    and J :: "'r \<Rightarrow> bool" and alloc :: "'r \<Rightarrow> (entity \<times> 'r) result" and P :: listener_machine and AA :: "'a acceptor_api"
    and b :: build where
  step_op: "lr_ops m = ops1 @ op # ops2 \<Longrightarrow>
    (is_open A sock \<longrightarrow> peer sock) \<Longrightarrow> (op = OpAllocate \<longrightarrow> J (lr_registry m)) \<Longrightarrow>
    listener_step A peer R J alloc P AA b (Inr m) (lr_complete A peer R alloc AA b fp ec sock op (ops1 @ ops2) m)"
| step_stop:
    "listener_step A peer R J alloc P AA b (Inr m)
      (andThen (stopAcceptor P AA (at b AcceptorStrand) (lr_listener m)) (\<lambda>((l, st), es).
         Inr (lr_next m (lr_ops m) l (lr_registry m) es)))"

| step_registry:
    "J r' \<Longrightarrow> listener_step A peer R J alloc P AA b (Inr m) (Inr (m\<lparr>lr_registry := r'\<rparr>))"

inductive_cases listener_stepE: "listener_step A peer R J alloc P AA b s t"

text \<open>What the chain relies on.\<close>

definition allocator_ok ::
  "('r, 's, 'q) registry_api \<Rightarrow> ('r \<Rightarrow> bool) \<Rightarrow> ('r \<Rightarrow> (entity \<times> 'r) result) \<Rightarrow> bool" where
  "allocator_ok R J alloc = (\<forall>r. J r \<longrightarrow> (\<exists>e r'. alloc r = Inr (e, r') \<and> reg_valid R r' e \<and> reg_has R r' e KTcp))"

definition acceptor_closes :: "'a acceptor_api \<Rightarrow> bool" where
  "acceptor_closes AA = (\<forall>a. snd (acc_cancel AA a) = Success \<and> snd (acc_close AA a) = Success \<and>
     \<not> acc_is_open AA (fst (acc_close AA a)))"

subsection \<open>The invariant\<close>

definition asked :: "'s listener_effect list \<Rightarrow> entity list" where
  "asked es = concat (map (\<lambda>e. case e of AsyncAccept x \<Rightarrow> [x] | _ \<Rightarrow> []) es)"

definition answered :: "'s listener_effect list \<Rightarrow> entity list" where
  "answered es = concat (map (\<lambda>e. case e of PostSetResult x _ _ \<Rightarrow> [x] | _ \<Rightarrow> []) es)"

definition pending :: "accept_op list \<Rightarrow> entity list" where
  "pending ops = concat (map (\<lambda>op. case op of OpAccept x \<Rightarrow> [x] | _ \<Rightarrow> []) ops)"

lemma counting_simps [simp]:
  "asked [] = []" "asked (es @ es') = asked es @ asked es'"
  "asked (e # es) = (case e of AsyncAccept x \<Rightarrow> [x] | _ \<Rightarrow> []) @ asked es"
  "answered [] = []" "answered (es @ es') = answered es @ answered es'"
  "answered (e # es) = (case e of PostSetResult x _ _ \<Rightarrow> [x] | _ \<Rightarrow> []) @ answered es"
  "pending [] = []" "pending (op # ops) = (case op of OpAccept x \<Rightarrow> [x] | _ \<Rightarrow> []) @ pending ops"
  by (simp_all add: asked_def answered_def pending_def)

lemma logFailure_silent [simp]:
  "accept_ops (logFailure ec w) = []" "asked (logFailure ec w) = []" "answered (logFailure ec w) = []"
  by (simp_all add: logFailure_def)

definition chain_ok :: "'a acceptor_api \<Rightarrow> build \<Rightarrow> ('a, 'r, 's) listener_run \<Rightarrow> bool" where
  "chain_ok AA b m =
     (length (lr_ops m) \<le> 1 \<and>
      (if acc_is_open AA (ls_acceptor (lr_listener m))
       then length (lr_ops m) = 1 \<and> (b = Debug \<longrightarrow> ls_state (lr_listener m) = Listener_STARTED)
       else b = Debug \<longrightarrow> ls_state (lr_listener m) = Listener_TERMINATED) \<and>
      asked (lr_log m) = answered (lr_log m) @ pending (lr_ops m))"

definition listener_inv :: "'a acceptor_api \<Rightarrow> build \<Rightarrow> ('a, 'r, 's) listener_run result \<Rightarrow> bool" where
  "listener_inv AA b s = (\<exists>m. s = Inr m \<and> chain_ok AA b m)"

lemma debug_change:
  assumes "follows_table P" and "Listener_table (ls_state l) ev = Some t"
  shows "debug_state_change P (at b AcceptorStrand) ev l k =
    k (if b = Debug then l\<lparr>ls_state := t\<rparr> else l)"
  using follows_table_Some [where P = P and T = Listener_table and s = "ls_state l" and e = ev and t = t
      and ex = "\<lambda>_. []" and en = "\<lambda>_. []", OF assms]
  by (auto simp: debug_state_change_def Listener_processStateChange_def)

lemma release_change [simp]: "debug_state_change P (at Release q) ev l k = k l"
  by (simp add: debug_state_change_def)

lemma if_ok_Ok: "if_ok m k = Inr ((l, Ok), es) \<longleftrightarrow>
    (\<exists>l1 es1 es2. m = Inr ((l1, Ok), es1) \<and> k l1 = Inr ((l, Ok), es2) \<and> es = es1 @ es2)"
  by (auto simp: if_ok_def andThen_Inr emit_Inr split: status.splits) (metis status.exhaust)

lemma openAcceptor_Ok: "openAcceptor AA (at b AcceptorStrand) l = Inr ((l1, Ok), es) \<Longrightarrow>
    ls_state l1 = ls_state l \<and> es = []"
  by (auto simp: openAcceptor_def check_state_def if_open_def isAcceptorOpen_def result_simps Let_def
      split: prod.splits if_splits)

lemma configureAcceptor_Ok: "configureAcceptor AA (at b AcceptorStrand) l = Inr ((l1, Ok), es) \<Longrightarrow>
    ls_state l1 = ls_state l \<and> es = []"
  by (auto simp: configureAcceptor_def check_state_def result_simps Let_def split: prod.splits if_splits)

text \<open>A configuration that succeeds has reached the state change.\<close>

lemma configureAndRunAcceptor_Ok:
  assumes "configureAndRunAcceptor P AA (at b AcceptorStrand) l = Inr ((l2, Ok), es)"
  obtains l1 where "ls_state l1 = ls_state l" and "acc_is_open AA (ls_acceptor l1)"
    and "debug_state_change P (at b AcceptorStrand) START l1 (\<lambda>l.
       andThen (doAccept AA (at b AcceptorStrand) l) (\<lambda>(l, log). Inr ((l, Ok), log))) = Inr ((l2, Ok), es)"
  using assms
  by (auto simp: configureAndRunAcceptor_def check_state_def if_ok_Ok if_open_def isAcceptorOpen_def
      result_simps split: if_splits dest!: openAcceptor_Ok configureAcceptor_Ok)

lemma start_chain:
  assumes "follows_table P" and "listener_start P AA b acceptor r s"
  shows "listener_inv AA b s"
proof -
  from assms(2) obtain l es where
    c: "configureAndRunAcceptor P AA (at b AcceptorStrand) (Listener_new acceptor) = Inr ((l, Ok), es)"
    and s: "s = Inr \<lparr>lr_listener = l, lr_registry = r, lr_ops = accept_ops es, lr_log = es\<rparr>"
    by (auto simp: listener_start_def)
  have st: "Listener_table Listener_UNINITIALIZED START = Some Listener_STARTED"
    by (simp add: Listener_table_def)
  from c obtain l2 where
    "ls_state l2 = Listener_UNINITIALIZED" and op: "acc_is_open AA (ls_acceptor l2)"
    and d: "debug_state_change P (at b AcceptorStrand) START l2 (\<lambda>l.
       andThen (doAccept AA (at b AcceptorStrand) l) (\<lambda>(l, log). Inr ((l, Ok), log))) = Inr ((l, Ok), es)"
    by (rule configureAndRunAcceptor_Ok) (simp add: Listener_new_def)
  with st have "andThen (doAccept AA (at b AcceptorStrand) (if b = Debug then l2\<lparr>ls_state := Listener_STARTED\<rparr> else l2))
      (\<lambda>(l, log). Inr ((l, Ok), log)) = Inr ((l, Ok), es)"
    by (simp add: debug_change [OF assms(1), of l2 START Listener_STARTED b])
  with op have "es = [PostAllocate]" "acc_is_open AA (ls_acceptor l)"
    "b = Debug \<longrightarrow> ls_state l = Listener_STARTED"
    by (auto simp: doAccept_def if_open_def isAcceptorOpen_def check_state_def result_simps split: if_splits)
  then show ?thesis by (simp add: s listener_inv_def chain_ok_def)
qed

text \<open>What one completion does to a listener of the chain.\<close>

lemma chain_states:
  assumes "chain_ok AA b m"
  shows "acc_is_open AA (ls_acceptor (lr_listener m)) \<Longrightarrow> b = Debug \<Longrightarrow> ls_state (lr_listener m) = Listener_STARTED"
    and "\<not> acc_is_open AA (ls_acceptor (lr_listener m)) \<Longrightarrow> b = Debug \<Longrightarrow>
      ls_state (lr_listener m) = Listener_TERMINATED"
  using assms by (simp_all add: chain_ok_def)

lemma doAccept_chain:
  assumes "chain_ok AA b m"
  shows "doAccept AA (at b AcceptorStrand) (lr_listener m) =
    Inr (lr_listener m, if acc_is_open AA (ls_acceptor (lr_listener m)) then [PostAllocate] else [])"
  using chain_states [OF assms]
  by (auto simp: doAccept_def if_open_def isAcceptorOpen_def check_state_def dcheck_def)

lemma asyncAccept_chain:
  assumes "chain_ok AA b m"
  shows "asyncAccept AA (at b AcceptorStrand) e (lr_listener m) =
    Inr (lr_listener m, if acc_is_open AA (ls_acceptor (lr_listener m)) then [AsyncAccept e] else [])"
  using chain_states [OF assms]
  by (auto simp: asyncAccept_def if_open_def isAcceptorOpen_def check_state_def dcheck_def)

lemma allocate_chain:
  assumes "registry R" and "allocator_ok R J alloc" and "J r"
  shows "\<exists>e r'. allocateTcpResourceAndAccept R alloc (at b RegistrySequence) False r = Inr (r', [PostAsyncAccept e])"
proof -
  obtain e r' where a: "alloc r = Inr (e, r')" "reg_valid R r' e" "reg_has R r' e KTcp"
    using assms(2,3) unfolding allocator_ok_def by blast
  from registry.tcp_found [OF assms(1) a(3)] a show ?thesis
    by (auto simp: allocateTcpResourceAndAccept_def ioc_guard_def with_tcp_def Let_def)
qed

lemma onAccept_chain:
  assumes "is_open A sock \<longrightarrow> peer sock"
  shows "Listener_onAccept A peer (at b ConnectionStrand) fp False e ec sock l =
    Inr (l, (if failed (if fp then ConnectionAborted else ec)
             then logFailure (if fp then ConnectionAborted else ec) ''accept'' else []) @
      [PostSetResult e (if fp then ConnectionAborted else ec) sock, PostDoAccept])"
  using assms by (simp add: Listener_onAccept_def ioc_guard_def Let_def)

lemma stopAcceptor_chain:
  assumes "follows_table P" and "acceptor_closes AA" and "chain_ok AA b m"
  shows "\<exists>l. stopAcceptor P AA (at b AcceptorStrand) (lr_listener m) = Inr ((l, Ok), []) \<and>
    \<not> acc_is_open AA (ls_acceptor l) \<and> (b = Debug \<longrightarrow> ls_state l = Listener_TERMINATED)"
proof -
  let ?l = "lr_listener m"
  have t: "b = Debug \<longrightarrow> Listener_table (ls_state ?l) TERMINATE = Some Listener_TERMINATED"
    using assms(3) by (auto simp: chain_ok_def Listener_table_def split: if_splits)
  obtain a1 where c1: "acc_cancel AA (ls_acceptor ?l) = (a1, Success)"
    using assms(2) by (cases "acc_cancel AA (ls_acceptor ?l)") (auto simp: acceptor_closes_def, metis snd_conv)
  obtain a2 where c2: "acc_close AA a1 = (a2, Success)" "\<not> acc_is_open AA a2"
    using assms(2) unfolding acceptor_closes_def by (metis prod.collapse)
  show ?thesis
  proof (cases b)
    case Debug
    with t have "Listener_table (ls_state ?l) TERMINATE = Some Listener_TERMINATED" by simp
    note d = debug_change [OF assms(1) this]
    from Debug show ?thesis
      by (cases "acc_is_open AA (ls_acceptor ?l)")
         (simp_all add: stopAcceptor_def d if_open_def isAcceptorOpen_def Let_def c1 c2)
  next
    case Release
    then show ?thesis
      by (cases "acc_is_open AA (ls_acceptor ?l)")
         (simp_all add: stopAcceptor_def if_open_def isAcceptorOpen_def Let_def c1 c2)
  qed
qed

lemma complete_chain:
  assumes "registry R" and "allocator_ok R J alloc" and "is_open A sock \<longrightarrow> peer sock"
    and "chain_ok AA b m" and "lr_ops m = [op]" and "op = OpAllocate \<longrightarrow> J (lr_registry m)"
  shows "listener_inv AA b (lr_complete A peer R alloc AA b fp ec sock op [] m)"
proof (cases op)
  case OpDoAccept
  with assms(4,5) show ?thesis
    by (auto simp: doAccept_chain [OF assms(4)] lr_complete_def lr_next_def listener_inv_def chain_ok_def)
next
  case OpAllocate
  obtain e r' where "allocateTcpResourceAndAccept R alloc (at b RegistrySequence) False (lr_registry m) =
      Inr (r', [PostAsyncAccept e] :: 'b listener_effect list)"
    using allocate_chain [OF assms(1,2)] assms(6) OpAllocate by blast
  with OpAllocate assms(4,5) show ?thesis
    by (auto simp: lr_complete_def lr_next_def listener_inv_def chain_ok_def)
next
  case (OpAsyncAccept e)
  with assms(4,5) show ?thesis
    by (auto simp: asyncAccept_chain [OF assms(4)] lr_complete_def lr_next_def listener_inv_def chain_ok_def)
next
  case (OpAccept e)
  with assms(4,5) show ?thesis
    by (auto simp: lr_complete_def onAccept_chain [where A = A and sock = sock and peer = peer, OF assms(3)] lr_next_def listener_inv_def chain_ok_def)
qed

lemma listener_machine_inv:
  fixes acceptor :: 'a and r :: 'r and A :: "'s socket_api" and R :: "('r, 's, 'q) registry_api"
  assumes "registry R" and "allocator_ok R J alloc" and "acceptor_closes AA" and "follows_table P"
  shows "invariant_machine (listener_start P AA b acceptor r) (listener_step A peer R J alloc P AA b)
    (listener_inv AA b)"
proof unfold_locales
  fix s :: "('a, 'r, 's) listener_run result"
  assume "listener_start P AA b acceptor r s"
  then show "listener_inv AA b s" by (rule start_chain [OF assms(4)])
next
  fix s t :: "('a, 'r, 's) listener_run result"
  assume inv: "listener_inv AA b s" and "listener_step A peer R J alloc P AA b s t"
  from this(2) show "listener_inv AA b t"
  proof (rule listener_stepE)
    fix m ops1 op ops2 sock fp ec
    assume 1: "s = Inr m" "lr_ops m = ops1 @ op # ops2" "is_open A sock \<longrightarrow> peer sock"
      "op = OpAllocate \<longrightarrow> J (lr_registry m)" "t = lr_complete A peer R alloc AA b fp ec sock op (ops1 @ ops2) m"
    with inv have c: "chain_ok AA b m" by (simp add: listener_inv_def)
    then have "length (lr_ops m) \<le> 1" by (simp add: chain_ok_def)
    with 1 have "ops1 = []" "ops2 = []" by auto
    with 1 complete_chain [OF assms(1,2) _ c, where A = A and sock = sock and peer = peer and op = op]
    show ?thesis by simp
  next
    fix m
    assume 1: "s = Inr m" "t = andThen (stopAcceptor P AA (at b AcceptorStrand) (lr_listener m))
      (\<lambda>((l, st), es). Inr (lr_next m (lr_ops m) l (lr_registry m) es))"
    with inv have c: "chain_ok AA b m" by (simp add: listener_inv_def)
    obtain l where "stopAcceptor P AA (at b AcceptorStrand) (lr_listener m) =
        Inr ((l, Ok), [] :: 's listener_effect list)"
      "\<not> acc_is_open AA (ls_acceptor l)" "b = Debug \<longrightarrow> ls_state l = Listener_TERMINATED"
      using stopAcceptor_chain [OF assms(4,3) c] by blast
    with 1 c show ?thesis by (simp add: listener_inv_def lr_next_def chain_ok_def)
  next
    fix m r' assume "s = Inr m" "t = Inr (m\<lparr>lr_registry := r'\<rparr>)"
    with inv show ?thesis by (simp add: listener_inv_def chain_ok_def)
  qed
qed

end
