(* ===== verification/Listener_Properties.thy ===== *)
theory Listener_Properties
  imports Listener_Machine
begin

text \<open>
  Properties of the \<open>Listener\<close>: its accept chain under every interleaving, the outcomes of its
  configuration, of an accept and of a stop, and what a pause does.
\<close>

subsection \<open>An acceptor for evaluation\<close>

record demo_acceptor =
  da_open :: bool
  da_bind_ec :: error_code
  da_cancel_ec :: error_code

definition demo_acceptor_api :: "demo_acceptor acceptor_api" where
  "demo_acceptor_api = \<lparr>
     acc_is_open = da_open,
     acc_open = (\<lambda>a. (a\<lparr>da_open := True\<rparr>, Success)),
     acc_reuse_address = (\<lambda>a. (a, Success)),
     acc_bind = (\<lambda>a. (a, da_bind_ec a)),
     acc_listen = (\<lambda>a. (a, Success)),
     acc_cancel = (\<lambda>a. (a, Success)),
     acc_close = (\<lambda>a. (a\<lparr>da_open := False\<rparr>, Success))\<rparr>"

definition demo_acceptor :: demo_acceptor where
  "demo_acceptor = \<lparr>da_open = False, da_bind_ec = Success, da_cancel_ec = Success\<rparr>"

text \<open>The acceptor with a \<open>cancel\<close> that reports the error of the field.\<close>

definition failing_cancel_api :: "demo_acceptor acceptor_api" where
  "failing_cancel_api = demo_acceptor_api\<lparr>acc_cancel := (\<lambda>a. (a, da_cancel_ec a))\<rparr>"

lemma demo_acceptor_closes: "acceptor_closes demo_acceptor_api"
  by (simp add: acceptor_closes_def demo_acceptor_api_def)

text \<open>An allocator that creates an entity with a fresh connection.\<close>

definition demo_alloc ::
  "(demo_socket, 'q) ref_registry \<Rightarrow> (entity \<times> (demo_socket, 'q) ref_registry) result" where
  "demo_alloc r = (let (e, r) = reg_create ref_api r
     in Inr (e, reg_set ref_api r e (CTcp TcpConnection_new)))"

lemma demo_allocator_ok: "allocator_ok ref_api (\<lambda>_. True) demo_alloc"
proof -
  have "\<exists>e r'. demo_alloc r = Inr (e, r') \<and> reg_valid ref_api r' e \<and> reg_has ref_api r' e KTcp"
    for r :: "(demo_socket, 'q) ref_registry"
  proof -
    obtain e r1 where c: "reg_create ref_api r = (e, r1)" by (cases "reg_create ref_api r")
    then have "reg_valid ref_api r1 e" using ref.create_valid by blast
    with c show ?thesis by (simp add: demo_alloc_def)
  qed
  then show ?thesis unfolding allocator_ok_def by blast
qed

interpretation demo_listener: invariant_machine
  "listener_start table_machine demo_acceptor_api b acceptor r"
  "listener_step demo_api peer ref_api (\<lambda>_. True) demo_alloc table_machine demo_acceptor_api b"
  "listener_inv demo_acceptor_api b" for b acceptor r peer
  by (rule listener_machine_inv [OF ref.registry_axioms demo_allocator_ok demo_acceptor_closes
        table_machine_follows])

abbreviation listener_reach where
  "listener_reach A peer R J alloc P AA b acceptor r \<equiv>
     reach (listener_start P AA b acceptor r) (listener_step A peer R J alloc P AA b)"

subsection \<open>The accept chain\<close>


text \<open>A started listener, for the witness.\<close>

definition demo_started :: "(demo_acceptor, (demo_socket, unit) ref_registry, demo_socket) listener_run" where
  "demo_started = \<lparr>lr_listener = \<lparr>ls_acceptor = demo_acceptor\<lparr>da_open := True\<rparr>, ls_state = Listener_STARTED\<rparr>,
     lr_registry = demo_registry, lr_ops = [OpAllocate], lr_log = [PostAllocate]\<rparr>"

lemma demo_started_start:
  "listener_start table_machine demo_acceptor_api Debug demo_acceptor demo_registry (Inr demo_started)"
  by (simp add: listener_start_def demo_started_def configureAndRunAcceptor_def Listener_new_def check_state_def
      if_ok_def openAcceptor_def configureAcceptor_def demo_acceptor_api_def demo_acceptor_def if_open_def
      isAcceptorOpen_def debug_state_change_def Listener_processStateChange_def table_machine_def
      Listener_table_def doAccept_def Let_def)

lemma demo_started_reach:
  "listener_reach demo_api peer ref_api (\<lambda>_. True) demo_alloc table_machine demo_acceptor_api Debug demo_acceptor
     demo_registry (Inr demo_started)"
  by (rule reach_init) (rule demo_started_start)


subsection \<open>Configuration\<close>

text \<open>What the source relies on: a successful \<open>open\<close> opens, the other calls do not close.\<close>

definition acceptor_opens :: "'a acceptor_api \<Rightarrow> bool" where
  "acceptor_opens AA = (\<forall>a.
     (snd (acc_open AA a) = Success \<longrightarrow> acc_is_open AA (fst (acc_open AA a))) \<and>
     (acc_is_open AA a \<longrightarrow> acc_is_open AA (fst (acc_reuse_address AA a)) \<and>
       acc_is_open AA (fst (acc_bind AA a)) \<and> acc_is_open AA (fst (acc_listen AA a))))"

lemma demo_acceptor_opens: "acceptor_opens demo_acceptor_api"
  by (simp add: acceptor_opens_def demo_acceptor_api_def)

lemma opens_chain:
  assumes "acceptor_opens AA" and "acc_open AA a = (a1, Success)" and "acc_reuse_address AA a1 = (a2, e2)"
    and "acc_bind AA a2 = (a3, e3)" and "acc_listen AA a3 = (a4, e4)"
  shows "acc_is_open AA a1" "acc_is_open AA a2" "acc_is_open AA a3" "acc_is_open AA a4"
proof -
  show 1: "acc_is_open AA a1" using assms(1,2) unfolding acceptor_opens_def by (metis fst_conv snd_conv)
  show 2: "acc_is_open AA a2" using assms(1,3) 1 unfolding acceptor_opens_def by (metis fst_conv)
  show 3: "acc_is_open AA a3" using assms(1,4) 2 unfolding acceptor_opens_def by (metis fst_conv)
  show "acc_is_open AA a4" using assms(1,5) 3 unfolding acceptor_opens_def by (metis fst_conv)
qed

text \<open>
  Configuring and running a new listener, on every branch. The first call of the acceptor
  that fails is reported once under its name, its status is returned, the state machine stays in
  \<open>UNINITIALIZED\<close> and nothing is posted; if all four calls succeed the listener is started and
  asks for its first connection.
\<close>

theorem listener_configuration:
  fixes AA :: "'a acceptor_api"
  assumes "follows_table P" and "acceptor_opens AA"
    and "acc_open AA acceptor = (a1, e1)" and "acc_reuse_address AA a1 = (a2, e2)"
    and "acc_bind AA a2 = (a3, e3)" and "acc_listen AA a3 = (a4, e4)"
  shows "(configureAndRunAcceptor P AA (at b AcceptorStrand) (Listener_new acceptor) :: ('a, 's) listener_status) =
    (let idle = (\<lambda>a. \<lparr>ls_acceptor = a, ls_state = Listener_UNINITIALIZED\<rparr>) in
     if failed e1 then Inr ((idle a1, Error ''Could not call open for acceptor''), logFailure e1 ''open'')
     else if failed e2 then
       Inr ((idle a2, Error ''Could not call set_option for acceptor''), logFailure e2 ''set_option'')
     else if failed e3 then Inr ((idle a3, Error ''Could not call bind for acceptor''), logFailure e3 ''bind'')
     else if failed e4 then Inr ((idle a4, Error ''Could not call listen for acceptor''), logFailure e4 ''listen'')
     else Inr ((if b = Debug then (idle a4)\<lparr>ls_state := Listener_STARTED\<rparr> else idle a4, Ok), [PostAllocate]))"
proof (cases "e1 = Success")
  case False
  with assms(3) show ?thesis
    by (simp add: configureAndRunAcceptor_def Listener_new_def check_state_def if_ok_def openAcceptor_def
        failed_def)
next
  case True
  note o = opens_chain [OF assms(2) assms(3) [unfolded True] assms(4-6)]
  have t: "Listener_table (ls_state \<lparr>ls_acceptor = a4, ls_state = Listener_UNINITIALIZED\<rparr>) START =
      Some Listener_STARTED" by (simp add: Listener_table_def)
  have open_ok: "openAcceptor AA (at b AcceptorStrand) (Listener_new acceptor) =
      Inr ((\<lparr>ls_acceptor = a1, ls_state = Listener_UNINITIALIZED\<rparr>, Ok), [])"
    using assms(3) True o by (simp add: openAcceptor_def Listener_new_def check_state_def if_open_def isAcceptorOpen_def)
  show ?thesis
    using assms(4-6) o
    by (simp add: True configureAndRunAcceptor_def open_ok if_ok_def check_state_def dcheck_def 
        configureAcceptor_def Listener_new_def [of acceptor, THEN arg_cong [where f = ls_state]] if_open_def
        isAcceptorOpen_def debug_change [OF assms(1) t] doAccept_def Let_def split: if_splits)
qed

theorem listener_configuration_witness:
  "\<exists>l. configureAndRunAcceptor table_machine demo_acceptor_api (at Debug AcceptorStrand)
      (Listener_new (demo_acceptor\<lparr>da_bind_ec := OtherError 98\<rparr>)) =
    Inr ((l, Error ''Could not call bind for acceptor''),
      [ListenerLog PlainError ''bind'' (OtherError 98) :: demo_socket listener_effect]) \<and>
    da_open (ls_acceptor l)"
  using listener_configuration [OF table_machine_follows demo_acceptor_opens,
      where acceptor = "demo_acceptor\<lparr>da_bind_ec := OtherError 98\<rparr>" and b = Debug
        and ?a1.0 = "demo_acceptor\<lparr>da_open := True, da_bind_ec := OtherError 98\<rparr>"
        and ?a2.0 = "demo_acceptor\<lparr>da_open := True, da_bind_ec := OtherError 98\<rparr>"
        and ?a3.0 = "demo_acceptor\<lparr>da_open := True, da_bind_ec := OtherError 98\<rparr>"
        and ?a4.0 = "demo_acceptor\<lparr>da_open := True, da_bind_ec := OtherError 98\<rparr>"
        and ?e1.0 = Success and ?e2.0 = Success and ?e3.0 = "OtherError 98" and ?e4.0 = Success
        and 's = demo_socket]
  by (simp add: demo_acceptor_api_def demo_acceptor_def logFailure_def)

subsection \<open>Completion of an accept\<close>



subsection \<open>Storing the result\<close>

text \<open>
  \<open>setAcceptConnectionResult\<close> replaces the accept result of its entity by the error code and
  the socket it is given, drops a leftover \<open>UnusedAcceptResultTag\<close> and asks for a close exactly
  if the socket is not open, whatever the error code is; no other entity, no other component of the
  entity and no entity's validity changes.
\<close>

theorem listener_result_stored:
  assumes "registry R" and "reg_find R r e KTcp = Some (CTcp tcp)" and "ctx_strand tcp"
  shows "\<exists>r'. setAcceptConnectionResult A R (at b RegistrySequence) e ec sock r = Inr r' \<and>
    reg_find R r' e KAccept =
      Some (CAccept \<lparr>ar_ec = ec, ar_socket = Here sock, ar_need_close = (\<not> is_open A sock)\<rparr>) \<and>
    \<not> reg_has R r' e (KTag UnusedAcceptResultTag) \<and>
    (\<forall>x. reg_valid R r' x = reg_valid R r x) \<and>
    (\<forall>x k. \<not> (x = e \<and> k \<in> {KAccept, KTag UnusedAcceptResultTag}) \<longrightarrow> reg_find R r' x k = reg_find R r x k)"
proof -
  note R = registry.find_valid [OF assms(1)] registry.valid_set [OF assms(1)]
    registry.find_set [OF assms(1)] registry.valid_remove [OF assms(1)] registry.find_remove [OF assms(1)]
  from R(1) [OF assms(2)] have "reg_valid R r e" .
  with assms(2,3) show ?thesis
    by (auto simp: setAcceptConnectionResult_def with_tcp_def R(2-) reg_has_def)
qed

theorem listener_result_stored_witness:
  "\<exists>r'. setAcceptConnectionResult demo_api ref_api (at Debug RegistrySequence) 7 OperationAborted
      (demo_conn\<lparr>demo_open := False\<rparr>)
      (reg_set ref_api (demo_registry :: (demo_socket, unit) ref_registry) 7
        (CTcp (TcpConnection_new\<lparr>ctx_strand := True\<rparr>))) = Inr r' \<and>
    reg_find ref_api r' 7 KAccept = Some (CAccept \<lparr>ar_ec = OperationAborted,
      ar_socket = Here (demo_conn\<lparr>demo_open := False\<rparr>), ar_need_close = True\<rparr>)"
  using listener_result_stored [OF ref.registry_axioms, where e = 7
      and r = "reg_set ref_api (demo_registry :: (demo_socket, unit) ref_registry) 7
        (CTcp (TcpConnection_new\<lparr>ctx_strand := True\<rparr>))"
      and A = demo_api and b = Debug and ec = OperationAborted and sock = "demo_conn\<lparr>demo_open := False\<rparr>"]
  by (auto simp: demo_registry_find demo_api_def demo_conn_def)

subsection \<open>Stopping and pausing\<close>



text \<open>
  Pausing a started listener. \<open>pause\<close> only changes the debug state machine: in a release build
  it has no effect and the listener goes on accepting. In a debug build it leaves the acceptor
  open in the state \<open>PAUSED\<close>, so the next \<open>doAccept\<close> or \<open>asyncAccept\<close> of the chain ends the process, and
  configuring the listener again never succeeds, although its checks admit the state \<open>PAUSED\<close>: the
  table has no transition for \<open>START\<close> there.
\<close>

theorem listener_pause:
  fixes AA :: "'a acceptor_api" and l :: "'a listener"
  assumes "follows_table P" and "acc_is_open AA (ls_acceptor l)" and "ls_state l = Listener_STARTED"
  shows "(pause P (at Release AcceptorStrand) l :: ('a, 's) listener_status) = Inr ((l, Ok), []) \<and>
    (let l' = l\<lparr>ls_state := Listener_PAUSED\<rparr>; E = at Debug AcceptorStrand in
      (pause P E l :: ('a, 's) listener_status) = Inr ((l', Ok), []) \<and>
      (doAccept AA E l' :: ('a, 's) listener_step) = Inl (DCHECK ''sm_.currentState()'') \<and>
      (asyncAccept AA E e l' :: ('a, 's) listener_step) = Inl (DCHECK ''sm_.currentState()'') \<and>
      (\<forall>l2 es. configureAndRunAcceptor P AA E l' \<noteq> (Inr ((l2, Ok), es) :: ('a, 's) listener_status)))"
proof -
  let ?l = "l\<lparr>ls_state := Listener_PAUSED\<rparr>"
  have t: "Listener_table (ls_state l) PAUSE = Some Listener_PAUSED"
    using assms(3) by (simp add: Listener_table_def)
  have "configureAndRunAcceptor P AA (at Debug AcceptorStrand) ?l \<noteq> (Inr ((l2, Ok), es) :: ('a, 's) listener_status)"
    for l2 es
  proof
    assume "configureAndRunAcceptor P AA (at Debug AcceptorStrand) ?l =
      (Inr ((l2, Ok), es) :: ('a, 's) listener_status)"
    then obtain l1 where p: "ls_state l1 = Listener_PAUSED"
      and d: "debug_state_change P (at Debug AcceptorStrand) START l1 (\<lambda>l.
         andThen (doAccept AA (at Debug AcceptorStrand) l) (\<lambda>(l, log). Inr ((l, Ok), log))) =
        (Inr ((l2, Ok), es) :: ('a, 's) listener_status)"
      by (rule configureAndRunAcceptor_Ok) simp
    have "Listener_table (ls_state l1) START = None" by (simp add: p Listener_table_def)
    from follows_table_None [where P = P and T = Listener_table and s = "ls_state l1" and e = START
        and ex = "\<lambda>_. []" and en = "\<lambda>_. []", OF assms(1) this] d
    show False by (auto simp: debug_state_change_def Listener_processStateChange_def result_simps)
  qed
  with assms(2,3) show ?thesis
    by (simp add: pause_def debug_change [OF assms(1) t] doAccept_def asyncAccept_def if_open_def
        isAcceptorOpen_def check_state_def Let_def)
qed

theorem listener_pause_witness:
  "(doAccept demo_acceptor_api (at Debug AcceptorStrand)
      \<lparr>ls_acceptor = demo_acceptor\<lparr>da_open := True\<rparr>, ls_state = Listener_PAUSED\<rparr> ::
      (demo_acceptor, demo_socket) listener_step) = Inl (DCHECK ''sm_.currentState()'')"
  using listener_pause [OF table_machine_follows, where AA = demo_acceptor_api and 's = demo_socket
      and l = "\<lparr>ls_acceptor = demo_acceptor\<lparr>da_open := True\<rparr>, ls_state = Listener_STARTED\<rparr>"]
  by (simp add: demo_acceptor_api_def demo_acceptor_def Let_def)

end
