(* ===== verification/Tcp_Server.thy ===== *)
theory Tcp_Server
  imports Listener_Properties Network_Properties
begin

text \<open>
  \<open>plugin_TcpServer\<close>: the allocator of connection entities (\<open>tcp_entity_allocator.cc\<close>) and
  the plugin's logic (\<open>main_plugin_logic.cc\<close>), which starts the listener and takes the server
  down: stop the acceptor, ask every open websocket to close until the registry is empty,
  then stop the io context.

  The helpers of the \<open>basis\<close> library are the fields of \<open>ecs_helpers\<close>, with \<open>helpers_ok\<close> as what
  the source relies on; \<open>registry_empty\<close> is \<open>registry->empty()\<close>. Timers, promises and debug
  names are not modelled: a continuation of a promise is a definition of its own.
\<close>

record 'r ecs_helpers =
  findEntity :: "'r \<Rightarrow> kind list \<Rightarrow> kind list \<Rightarrow> entity option"
  populateDelayed :: "entity \<Rightarrow> 'r \<Rightarrow> 'r"         \<comment> \<open>\<open>populateDelayedConstructionComponents\<close>\<close>
  whitelisted_components :: "'r \<Rightarrow> entity \<Rightarrow> bool"  \<comment> \<open>\<open>DCHECK_COMPONENT_WHITELIST\<close>\<close>
  whitelisted_vars :: "'r \<Rightarrow> entity \<Rightarrow> bool"        \<comment> \<open>\<open>DCHECK_CONTEXT_VARS_WHITELIST\<close>\<close>

text \<open>
  \<open>findEntity\<close> answers with an entity of the view, if there is one; \<open>populateDelayed\<close> changes only
  the tags of construction of its entity, and may drop \<open>UnusedTag\<close>.
\<close>

definition delayed_tags :: "kind set" where
  "delayed_tags = {KTag DelayedConstruction, KTag DelayedConstructionJustDone}"

definition helpers_ok :: "('r, 's, 'q) registry_api \<Rightarrow> 'r ecs_helpers \<Rightarrow> bool" where
  "helpers_ok R H =
     ((\<forall>r inc exc. case findEntity H r inc exc of
         None \<Rightarrow> reg_view R r inc exc = [] | Some e \<Rightarrow> e \<in> set (reg_view R r inc exc)) \<and>
      (\<forall>r e x. reg_valid R (populateDelayed H e r) x = reg_valid R r x) \<and>
      (\<forall>r e x k. x \<noteq> e \<or> k \<notin> insert (KTag UnusedTag) delayed_tags \<longrightarrow>
         reg_find R (populateDelayed H e r) x k = reg_find R r x k) \<and>
      (\<forall>r e. reg_has R (populateDelayed H e r) e (KTag UnusedTag) \<longrightarrow> reg_has R r e (KTag UnusedTag)))"

subsection \<open>Allocation of entities\<close>

definition populateAssociatedComponents ::
  "('r, 's, 'q) registry_api \<Rightarrow> 'r ecs_helpers \<Rightarrow> build \<Rightarrow> entity \<Rightarrow> 'r \<Rightarrow> 'r result" where
  "populateAssociatedComponents R H b e r =
     dcheck b ''registry.valid(entityId)'' (reg_valid R r e)
     (let r = (if reg_has R r e KTcp then r else reg_set R r e (CTcp TcpConnection_new))
      in Inr (populateDelayed H e r))"

definition resetOnCacheReuse ::
  "('r, 's, 'q) registry_api \<Rightarrow> 'r ecs_helpers \<Rightarrow> build \<Rightarrow> entity \<Rightarrow> 'r \<Rightarrow> 'r result" where
  "resetOnCacheReuse R H b e r =
     dcheck b ''registry.valid(entityId)'' (reg_valid R r e)
     (andThen (populateAssociatedComponents R H b e r) (\<lambda>r.
        dcheck b ''DCHECK_COMPONENT_WHITELIST'' (whitelisted_components H r e)
        (with_tcp R r e (\<lambda>_.
          dcheck b ''DCHECK_CONTEXT_VARS_WHITELIST'' (whitelisted_vars H r e)
          (check ''has<UnusedSSLDetectResultTag>''
             (reg_has R r e KSSL \<longrightarrow> reg_has R r e (KTag UnusedSSLDetectResultTag))
          (check ''has<UnusedAcceptResultTag>''
             (reg_has R r e KAccept \<longrightarrow> reg_has R r e (KTag UnusedAcceptResultTag))
             (Inr r)))))))"

definition allocateTcpEntity ::
  "('r, 's, 'q) registry_api \<Rightarrow> 'r ecs_helpers \<Rightarrow> exec_env \<Rightarrow> 'r \<Rightarrow> (entity \<times> 'r) result" where
  "allocateTcpEntity R H E r =
     run_on E RegistrySequence
     (case findEntity H r [KTcp, KTag UnusedTag] [KTag NeedToDestroyTag] of
        None \<Rightarrow> (let (e, r) = reg_create R r
          in andThen (populateAssociatedComponents R H (bld E) e r) (\<lambda>r. Inr (e, r)))
      | Some e \<Rightarrow> andThen (resetOnCacheReuse R H (bld E) e r) (\<lambda>r. Inr (e, r)))"

subsection \<open>Starting and stopping the server\<close>

datatype server_effect =
    PostConfigureAndRunAcceptor
  | ListenerConfigureAndRun       \<comment> \<open>\<open>listener_.configureAndRun()\<close>\<close>
  | LogListenerRunning
  | ListenerStopAcceptorAsync     \<comment> \<open>\<open>listener_.stopAcceptorAsync()\<close>\<close>
  | StartPeriodicValidation
  | PostCloseNetworkResources     \<comment> \<open>task of \<open>closeNetworkResources\<close> on the registry\<close>
  | PostCheckEmpty                \<comment> \<open>task of \<open>validateAndFreeNetworkResources\<close> on the registry\<close>
  | PostWsDoEof entity
  | ResolveFreed

record tcp_server = ioc_is_stopped :: bool

type_synonym server_step = "(tcp_server \<times> server_effect list) result"

definition startAcceptors :: "tcp_server \<Rightarrow> server_step" where
  "startAcceptors s = Inr (s, [PostConfigureAndRunAcceptor])"

definition server_configureAndRunAcceptor :: "tcp_server \<Rightarrow> server_step" where
  "server_configureAndRunAcceptor s = Inr (s, [ListenerConfigureAndRun])"

text \<open>The continuation of \<open>configureAndRun\<close> takes no argument: the status is not looked at.\<close>

definition configured :: "status \<Rightarrow> tcp_server \<Rightarrow> server_step" where
  "configured st s = Inr (s, [LogListenerRunning])"

definition unload :: "tcp_server \<Rightarrow> server_step" where
  "unload s = Inr (s, [ListenerStopAcceptorAsync])"

definition promiseNetworkResourcesFreed :: "build \<Rightarrow> tcp_server \<Rightarrow> server_step" where
  "promiseNetworkResourcesFreed b s =
     dcheck b ''!ioc_.stopped()'' (\<not> ioc_is_stopped s) (Inr (s, [StartPeriodicValidation]))"

definition acceptor_stopped :: "build \<Rightarrow> status \<Rightarrow> tcp_server \<Rightarrow> server_step" where
  "acceptor_stopped b st s =
     (if st \<noteq> Ok then notreached b ''stopAcceptorResult'' (promiseNetworkResourcesFreed b s)
      else promiseNetworkResourcesFreed b s)"

definition closeNetworkResources :: "build \<Rightarrow> tcp_server \<Rightarrow> server_step" where
  "closeNetworkResources b s =
     dcheck b ''!ioc_.stopped()'' (\<not> ioc_is_stopped s) (Inr (s, [PostCloseNetworkResources]))"

definition validateAndFreeNetworkResources :: "build \<Rightarrow> tcp_server \<Rightarrow> server_step" where
  "validateAndFreeNetworkResources b s =
     dcheck b ''!ioc_.stopped()'' (\<not> ioc_is_stopped s)
     (andThen (closeNetworkResources b s) (\<lambda>(s, log). Inr (s, log @ [PostCheckEmpty])))"

text \<open>The two tasks on the registry. Neither changes it.\<close>

definition doEofWebsocket ::
  "('r, 's, 'q) registry_api \<Rightarrow> exec_env \<Rightarrow> entity \<Rightarrow> 'r \<Rightarrow> ('r \<times> server_effect list) result" where
  "doEofWebsocket R E e r =
     run_on E RegistrySequence
     (dcheck (bld E) ''registry->valid(entity)'' (reg_valid R r e)
     (with_tcp R r e (\<lambda>tcp.
        dcheck (bld E) ''try_ctx_var<StrandComponent>'' (ctx_strand tcp)
        (if ctx_ws_channel tcp \<noteq> None then Inr (r, [PostWsDoEof e]) else Inr (r, [])))))"

definition closeTask ::
  "('r, 's, 'q) registry_api \<Rightarrow> kind list \<Rightarrow> exec_env \<Rightarrow> 'r \<Rightarrow> ('r \<times> server_effect list) result" where
  "closeTask R nc E r = run_on E RegistrySequence (each_entity (doEofWebsocket R E) (reg_view R r [KTcp] nc) r)"

definition checkEmpty :: "('r \<Rightarrow> bool) \<Rightarrow> exec_env \<Rightarrow> 'r \<Rightarrow> server_effect list result" where
  "checkEmpty registry_empty E r =
     run_on E RegistrySequence (Inr (if registry_empty r then [ResolveFreed] else []))"

definition stopIOContext :: "build \<Rightarrow> tcp_server \<Rightarrow> server_step" where
  "stopIOContext b s =
     (let s = s\<lparr>ioc_is_stopped := True\<rparr>
      in dcheck b ''ioc_.stopped()'' (ioc_is_stopped s) (Inr (s, [])))"

end
