(* ===== verification/Tcp_Server_Properties.thy ===== *)
theory Tcp_Server_Properties
  imports Tcp_Server
begin

text \<open>
  Properties of \<open>plugin_TcpServer\<close>: what the allocator hands to the listener, and how the server
  goes down.
\<close>

lemma at_registry: "at b RegistrySequence = on_registry b"
  by (simp add: at_def on_registry_def)

subsection \<open>The allocator\<close>

text \<open>The entities that may be handed out again, and when that passes the checks.\<close>

definition cached :: "('r, 's, 'q) registry_api \<Rightarrow> 'r \<Rightarrow> entity \<Rightarrow> bool" where
  "cached R r e = (reg_has R r e KTcp \<and> reg_has R r e (KTag UnusedTag) \<and> \<not> reg_has R r e (KTag NeedToDestroyTag))"

definition results_used :: "('r, 's, 'q) registry_api \<Rightarrow> 'r \<Rightarrow> entity \<Rightarrow> bool" where
  "results_used R r e =
     ((reg_has R r e KSSL \<longrightarrow> reg_has R r e (KTag UnusedSSLDetectResultTag)) \<and>
      (reg_has R r e KAccept \<longrightarrow> reg_has R r e (KTag UnusedAcceptResultTag)))"

definition reusable :: "('r, 's, 'q) registry_api \<Rightarrow> 'r ecs_helpers \<Rightarrow> build \<Rightarrow> 'r \<Rightarrow> bool" where
  "reusable R H b r = (\<forall>e. cached R r e \<longrightarrow> results_used R r e \<and>
     (b = Debug \<longrightarrow> whitelisted_components H (populateDelayed H e r) e \<and>
        whitelisted_vars H (populateDelayed H e r) e))"

context registry
begin

lemma helpers_find:
  assumes "helpers_ok R H"
  shows "case findEntity H r [KTcp, KTag UnusedTag] [KTag NeedToDestroyTag] of
    None \<Rightarrow> \<not> (\<exists>x. cached R r x) | Some e \<Rightarrow> cached R r e"
proof -
  let ?v = "reg_view R r [KTcp, KTag UnusedTag] [KTag NeedToDestroyTag]"
  have v: "e \<in> set ?v \<longleftrightarrow> cached R r e" for e
    using has_valid by (auto simp: set_view cached_def)
  have "case findEntity H r [KTcp, KTag UnusedTag] [KTag NeedToDestroyTag] of
      None \<Rightarrow> ?v = [] | Some e \<Rightarrow> e \<in> set ?v"
    using assms unfolding helpers_ok_def by blast
  then show ?thesis
    using v by (cases "findEntity H r [KTcp, KTag UnusedTag] [KTag NeedToDestroyTag]") auto
qed

lemma helpers_delayed:
  assumes "helpers_ok R H"
  shows "reg_valid R (populateDelayed H e r) x = reg_valid R r x"
    and "x \<noteq> e \<or> k \<notin> insert (KTag UnusedTag) delayed_tags \<Longrightarrow>
      reg_find R (populateDelayed H e r) x k = reg_find R r x k"
    and "reg_has R (populateDelayed H e r) e (KTag UnusedTag) \<Longrightarrow> reg_has R r e (KTag UnusedTag)"
  using assms unfolding helpers_ok_def by blast+

lemma allocate_cached:
  assumes "helpers_ok R H" and "findEntity H r [KTcp, KTag UnusedTag] [KTag NeedToDestroyTag] = Some e"
    and "reusable R H b r"
  shows "allocateTcpEntity R H (at b RegistrySequence) r = Inr (e, populateDelayed H e r)"
proof -
  from helpers_find [OF assms(1), of r] assms(2) have c: "cached R r e" by simp
  then have tcp: "reg_has R r e KTcp" and v: "reg_valid R r e" using has_valid by (auto simp: cached_def)
  obtain t where t: "reg_find R r e KTcp = Some (CTcp t)" using tcp_found [OF tcp] by blast
  have same: "reg_find R (populateDelayed H e r) e k = reg_find R r e k"
    if "k \<notin> insert (KTag UnusedTag) delayed_tags" for k
    using helpers_delayed(2) [OF assms(1)] that by blast
  have f: "reg_find R (populateDelayed H e r) e KTcp = Some (CTcp t)"
    using t by (simp add: same delayed_tags_def)
  have u: "results_used R (populateDelayed H e r) e"
    using assms(3) c by (simp add: reusable_def results_used_def reg_has_def same delayed_tags_def)
  show ?thesis
    using assms(3) c u by (cases b)
      (simp_all add: allocateTcpEntity_def assms(2) resetOnCacheReuse_def populateAssociatedComponents_def
        v tcp with_tcp_def f reusable_def results_used_def)
qed

lemma allocate_fresh:
  assumes "helpers_ok R H" and "findEntity H r [KTcp, KTag UnusedTag] [KTag NeedToDestroyTag] = None"
    and "reg_create R r = (e, r1)"
  shows "allocateTcpEntity R H (at b RegistrySequence) r =
      Inr (e, populateDelayed H e (reg_set R r1 e (CTcp TcpConnection_new)))"
    and "\<not> reg_valid R r e" and "reg_valid R r1 e" and "reg_find R r1 e k = None"
  using assms(2,3) create_valid [OF assms(3), of e] create_fresh [OF assms(3)] created_has_none [OF assms(3)]
  by (simp_all add: allocateTcpEntity_def populateAssociatedComponents_def reg_has_def Let_def)

lemma allocator_spec:
  assumes "helpers_ok R H" and "reusable R H b r"
  shows "\<exists>e r'. allocateTcpEntity R H (at b RegistrySequence) r = Inr (e, r') \<and>
    reg_valid R r' e \<and> reg_has R r' e KTcp \<and>
    (\<forall>x. x \<noteq> e \<longrightarrow> reg_valid R r' x = reg_valid R r x \<and> reg_find R r' x = reg_find R r x) \<and>
    (if \<exists>x. cached R r x then cached R r e \<and> reg_find R r' e KTcp = reg_find R r e KTcp
     else \<not> reg_valid R r e \<and> reg_find R r' e KTcp = Some (CTcp TcpConnection_new) \<and>
       (\<forall>k. k \<notin> insert KTcp delayed_tags \<longrightarrow> \<not> reg_has R r' e k))"
proof (cases "findEntity H r [KTcp, KTag UnusedTag] [KTag NeedToDestroyTag]")
  case (Some e)
  note d = helpers_delayed [OF assms(1)]
  from helpers_find [OF assms(1), of r] Some have c: "cached R r e" by simp
  then have v: "reg_valid R r e" using has_valid by (auto simp: cached_def)
  have "reg_find R (populateDelayed H e r) e KTcp = reg_find R r e KTcp"
    by (rule d(2)) (simp add: delayed_tags_def)
  moreover have "reg_find R (populateDelayed H e r) x = reg_find R r x" if "x \<noteq> e" for x
    using d(2) that by blast
  ultimately show ?thesis
    using allocate_cached [OF assms(1) Some assms(2)] c v d(1)
    by (auto simp: cached_def reg_has_def)
next
  case None
  note d = helpers_delayed [OF assms(1)]
  obtain e r1 where cr: "reg_create R r = (e, r1)" by (cases "reg_create R r")
  note f = allocate_fresh [OF assms(1) None cr]
  let ?r2 = "reg_set R r1 e (CTcp TcpConnection_new)"
  have none: "\<not> (\<exists>x. cached R r x)" using helpers_find [OF assms(1), of r] None by simp
  have find2: "reg_find R ?r2 x k = (if x = e \<and> k = KTcp then Some (CTcp TcpConnection_new) else reg_find R r1 x k)"
    for x k using find_set [OF f(3)] by simp
  have tcp: "reg_find R (populateDelayed H e ?r2) e KTcp = Some (CTcp TcpConnection_new)"
    by (subst d(2)) (simp_all add: find2 delayed_tags_def)
  have rest: "\<not> reg_has R (populateDelayed H e ?r2) e k" if "k \<notin> insert KTcp delayed_tags" for k
  proof (cases "k = KTag UnusedTag")
    case True
    then show ?thesis using d(3) [of e ?r2] f(4) by (fastforce simp: reg_has_def find2)
  next
    case False
    with that have "reg_find R (populateDelayed H e ?r2) e k = reg_find R ?r2 e k" by (intro d(2)) auto
    with that f(4) show ?thesis by (simp add: reg_has_def find2)
  qed
  have other: "reg_find R (populateDelayed H e ?r2) x = reg_find R r x" if "x \<noteq> e" for x
    using d(2) that find2 create_find [OF cr] by (intro ext) simp
  have valid: "reg_valid R (populateDelayed H e ?r2) x \<longleftrightarrow> x = e \<or> reg_valid R r x" for x
    using d(1) valid_set [OF f(3)] create_valid [OF cr] by simp
  show ?thesis
    using f(1,2) none tcp rest other valid by (auto simp: reg_has_def)
qed

text \<open>So the accept chain can be run on it.\<close>

lemma allocator_ok_reusable:
  assumes "helpers_ok R H"
  shows "allocator_ok R (reusable R H b) (allocateTcpEntity R H (at b RegistrySequence))"
  unfolding allocator_ok_def using allocator_spec [OF assms, of b] by blast

end

text \<open>Helpers for evaluation, and the accept chain on the allocator of the server.\<close>

definition demo_helpers :: "(demo_socket, ring) ref_registry ecs_helpers" where
  "demo_helpers = \<lparr>
     findEntity = (\<lambda>r inc exc. case reg_view ref_api r inc exc of [] \<Rightarrow> None | e # _ \<Rightarrow> Some e),
     populateDelayed = (\<lambda>e r. if ref_valid r e then reg_set ref_api r e (CTag DelayedConstruction) else r),
     whitelisted_components = (\<lambda>_ _. True),
     whitelisted_vars = (\<lambda>_ _. True)\<rparr>"

lemma demo_helpers_ok: "helpers_ok ref_api demo_helpers"
proof -
  have v: "ref_valid = reg_valid (ref_api :: ((demo_socket, ring) ref_registry, demo_socket, ring) registry_api)"
    by (simp add: ref_api_def)
  show ?thesis
    unfolding helpers_ok_def demo_helpers_def ecs_helpers.simps v
    by (intro conjI allI impI) (auto simp: delayed_tags_def reg_has_def split: list.splits if_splits)
qed

interpretation server_listener: invariant_machine
  "listener_start table_machine demo_acceptor_api b acceptor r"
  "listener_step demo_api peer ref_api (reusable ref_api demo_helpers b)
     (allocateTcpEntity ref_api demo_helpers (at b RegistrySequence)) table_machine demo_acceptor_api b"
  "listener_inv demo_acceptor_api b" for b acceptor r peer
  by (rule listener_machine_inv [OF ref.registry_axioms ref.allocator_ok_reusable [OF demo_helpers_ok]
        demo_acceptor_closes table_machine_follows])



subsection \<open>Going down\<close>

text \<open>
  An entity that the listener has allocated and then dropped: a connection without channels that
  depend on anyone, without a result and without a mark.
\<close>

definition dropped :: "('r, 's, 'q) registry_api \<Rightarrow> 'r \<Rightarrow> entity \<Rightarrow> bool" where
  "dropped R r e = (reg_valid R r e \<and>
     (\<exists>tcp. reg_find R r e KTcp = Some (CTcp tcp) \<and> ctx_strand tcp \<and> ctx_ws_channel tcp = None) \<and>
     (\<forall>k \<in> {KAccept, KSSL, KTag UnusedTag, KTag NeedToDestroyTag}. \<not> reg_has R r e k))"

text \<open>
  What happens to the registry while the server goes down: updates, in any build, and everything
  else that does not touch this entity.
\<close>

inductive closing_step ::
  "'s socket_api \<Rightarrow> (('s, 'q) WsChannel \<Rightarrow> bool) \<Rightarrow> ('r, 's, 'q) registry_api \<Rightarrow> kind list \<Rightarrow> 'r relations \<Rightarrow>
   build \<Rightarrow> entity \<Rightarrow> 'r \<Rightarrow> 'r \<Rightarrow> bool"
  for A :: "'s socket_api" and ws_is_open :: "('s, 'q) WsChannel \<Rightarrow> bool"
    and R :: "('r, 's, 'q) registry_api" and nc :: "kind list" and L :: "'r relations"
    and b :: build and e :: entity where
  closing_update: "update_ready A ws_is_open R nc b r \<Longrightarrow>
    updateOnRegistryThread A ws_is_open R nc L
      \<lparr>disable_unused_system = False, disable_cleanup_system = False\<rparr> (on_registry b) u r = Inr (u', r', log) \<Longrightarrow>
    closing_step A ws_is_open R nc L b e r r'"
| closing_other: "reg_valid R r' e = reg_valid R r e \<Longrightarrow> (\<And>k. reg_find R r' e k = reg_find R r e k) \<Longrightarrow>
    closing_step A ws_is_open R nc L b e r r'"

context registry
begin

lemma dropped_step:
  assumes laws: "socket_laws A" "set nc \<subseteq> construction_tags"
    and child: "\<And>r e. \<not> has_first_child L r e"
      "\<And>r x. reg_valid R (removeTopLevelChildrenFromView L r) x = reg_valid R r x"
      "\<And>r x k. reg_find R (removeTopLevelChildrenFromView L r) x k = reg_find R r x k"
    and step: "closing_step A ws_is_open R nc L b e r r'" and d: "dropped R r e"
  shows "dropped R r' e"
  using step
proof cases
  case (closing_update u u' log)
  have views: "e \<notin> accept_view R nc r \<union> ssl_view R nc r"
    using d by (auto simp: accept_view_def ssl_view_def set_view dropped_def)
  then have keep: "\<not> given_up R nc r e" using d by (simp add: given_up_def dropped_def)
  from update_spec [OF laws child closing_update(1), of u] closing_update(2)
  have v: "reg_valid R r' e \<longleftrightarrow> reg_valid R r e \<and> \<not> given_up R nc r e"
    and f: "\<And>k. k \<notin> construction_tags \<Longrightarrow> reg_find R r' e k = reg_find R r e k"
    and n: "\<not> reg_has R r' e (KTag NeedToDestroyTag)"
    using views keep by auto
  have "reg_find R r' e k = reg_find R r e k" if "k \<in> {KTcp, KAccept, KSSL, KTag UnusedTag}" for k
    using that by (intro f) (auto simp: construction_tags_def)
  with d v keep n show ?thesis by (auto simp: dropped_def reg_has_def)
next
  case closing_other
  with d show ?thesis by (simp add: dropped_def reg_has_def)
qed

lemma dropped_machine:
  assumes "socket_laws A" "set nc \<subseteq> construction_tags"
    and "\<And>r e. \<not> has_first_child L r e"
    and "\<And>r x. reg_valid R (removeTopLevelChildrenFromView L r) x = reg_valid R r x"
    and "\<And>r x k. reg_find R (removeTopLevelChildrenFromView L r) x k = reg_find R r x k"
    and "dropped R r0 e"
  shows "invariant_machine (\<lambda>r. r = r0) (closing_step A ws_is_open R nc L b e) (\<lambda>r. dropped R r e)"
  using assms(6) dropped_step [OF assms(1,2) assms(3) assms(4) assms(5)] by unfold_locales blast+

text \<open>The close task asks the entity for nothing.\<close>

lemma close_skips:
  assumes "dropped R r e" and "closeTask R nc (on_registry b) r = Inr (r', posts)"
  shows "r' = r" and "PostWsDoEof e \<notin> set posts"
proof -
  have one: "doEofWebsocket R (on_registry b) x r = Inr (r1, log) \<Longrightarrow>
      r1 = r \<and> (log = [] \<or> log = [PostWsDoEof x] \<and> x \<noteq> e)" for x r1 log
    using assms(1)
    by (auto simp: doEofWebsocket_def with_tcp_def dropped_def result_simps split: if_splits option.splits component.splits)
  have "each_entity (doEofWebsocket R (on_registry b)) es r = Inr (r', posts) \<Longrightarrow>
      r' = r \<and> PostWsDoEof e \<notin> set posts" for es posts
  proof (induction es arbitrary: posts)
    case Nil
    then show ?case by simp
  next
    case (Cons x es)
    then obtain r1 log posts' where o1: "doEofWebsocket R (on_registry b) x r = Inr (r1, log)"
      and p: "each_entity (doEofWebsocket R (on_registry b)) es r1 = Inr (r', posts')" "posts = log @ posts'"
      by (auto simp: result_simps)
    from one [OF o1] p(1) have "each_entity (doEofWebsocket R (on_registry b)) es r = Inr (r', posts')" by simp
    from Cons.IH [OF this] one [OF o1] p(2) show ?case by auto
  qed
  with assms(2) show "r' = r" "PostWsDoEof e \<notin> set posts"
    by (auto simp: closeTask_def)
qed

lemma fresh_dropped:
  assumes "helpers_ok R H" and "findEntity H r0 [KTcp, KTag UnusedTag] [KTag NeedToDestroyTag] = None"
    and "allocateTcpResourceAndAccept R (allocateTcpEntity R H (at b RegistrySequence)) (at b RegistrySequence)
      False r0 = Inr (r, [PostAsyncAccept e])"
  shows "dropped R r e"
proof -
  obtain e1 r1 where cr: "reg_create R r0 = (e1, r1)" by (cases "reg_create R r0")
  note f = allocate_fresh [OF assms(1,2) cr]
  let ?r2 = "populateDelayed H e1 (reg_set R r1 e1 (CTcp TcpConnection_new))"
  note d = helpers_delayed [OF assms(1)]
  have find1: "reg_find R (reg_set R r1 e1 (CTcp TcpConnection_new)) e1 k =
      (if k = KTcp then Some (CTcp TcpConnection_new) else None)" for k
    using f(3,4) by simp
  have tcp: "reg_find R ?r2 e1 KTcp = Some (CTcp TcpConnection_new)"
    by (subst d(2)) (simp_all add: find1 delayed_tags_def)
  have v: "reg_valid R ?r2 e1" using d(1) f(3) by simp
  have none: "\<not> reg_has R ?r2 e1 k" if "k \<in> {KAccept, KSSL, KTag NeedToDestroyTag}" for k
  proof -
    from that have "reg_find R ?r2 e1 k = None" by (subst d(2)) (auto simp: find1 delayed_tags_def)
    then show ?thesis by (simp add: reg_has_def)
  qed
  have "\<not> reg_has R (reg_set R r1 e1 (CTcp TcpConnection_new)) e1 (KTag UnusedTag)"
    by (simp add: reg_has_def find1)
  then have "\<not> reg_has R ?r2 e1 (KTag UnusedTag)" 
    using d(3) by blast
  note unused = this
  let ?t = "TcpConnection_new\<lparr>ctx_strand := True\<rparr> :: ('b, 'c) TcpConnection"
  have run: "allocateTcpResourceAndAccept R (allocateTcpEntity R H (at b RegistrySequence)) (at b RegistrySequence)
      False r0 = Inr (reg_set R ?r2 e1 (CTcp ?t), [PostAsyncAccept e1])"
    using v tcp by (simp add: allocateTcpResourceAndAccept_def ioc_guard_def f(1) with_tcp_def reg_has_def Let_def)
  from assms(3) [unfolded run] have re: "r = reg_set R ?r2 e1 (CTcp ?t)" "e = e1" by blast+
  have "reg_find R r e KTcp = Some (CTcp ?t)" using v by (simp add: re)
  moreover have "\<not> reg_has R r e k" if "k \<in> {KAccept, KSSL, KTag UnusedTag, KTag NeedToDestroyTag}" for k
  proof -
    from that have "k \<noteq> KTcp" and "\<not> reg_has R ?r2 e1 k" using none unused by auto
    with v show ?thesis by (simp add: re)
  qed
  ultimately show ?thesis using v by (simp add: dropped_def re TcpConnection_new_def)
qed

end


text \<open>The registry after the allocation on an empty registry, for the witness.\<close>

definition demo_dropped :: "(demo_socket, ring) ref_registry" where
  "demo_dropped = reg_set ref_api (reg_set ref_api (reg_set ref_api (snd (reg_create ref_api ref_empty))
     0 (CTcp TcpConnection_new)) 0 (CTag DelayedConstruction)) 0 (CTcp (TcpConnection_new\<lparr>ctx_strand := True\<rparr>))"

lemma demo_dropped_allocated:
  "allocateTcpResourceAndAccept ref_api (allocateTcpEntity ref_api demo_helpers (at b RegistrySequence))
      (at b RegistrySequence) False ref_empty = Inr (demo_dropped, [PostAsyncAccept 0])"
  by (simp add: allocateTcpResourceAndAccept_def ioc_guard_def allocateTcpEntity_def demo_helpers_def ref_api_def
      ref_empty_def populateAssociatedComponents_def demo_dropped_def ref_valid_def ref_find_def reg_has_def
      with_tcp_def drop_entity_def Let_def)


end
