(* ===== verification/Task_Graph.thy ===== *)
theory Task_Graph
  imports Prelude
begin

text \<open>
  Tasks that wait for each other, as \<open>PluginManager\<close> chains them with promises: a task starts
  after all tasks of \<open>tk_after\<close> have finished, and finishes some time after it has started. A
  state is the log of what has happened. The theory says when every task finishes: the number
  of steps is bounded, the order of the log respects the dependencies, and a run that can not go
  on has finished everything exactly if every dependency is a task and there is no cycle.
\<close>

record 'n task =
  tk_name :: 'n
  tk_after :: "'n list"

datatype 'n task_event = Started 'n | Finished 'n

inductive task_step :: "'n task list \<Rightarrow> 'n task_event list \<Rightarrow> 'n task_event list \<Rightarrow> bool"
  for ts :: "'n task list" where
  task_begins: "t \<in> set ts \<Longrightarrow> Started (tk_name t) \<notin> set l \<Longrightarrow> (\<forall>d \<in> set (tk_after t). Finished d \<in> set l) \<Longrightarrow>
    task_step ts l (l @ [Started (tk_name t)])"
| task_ends: "Started n \<in> set l \<Longrightarrow> Finished n \<notin> set l \<Longrightarrow> task_step ts l (l @ [Finished n])"

inductive_cases task_stepE: "task_step ts l l'"

abbreviation task_reach where
  "task_reach ts \<equiv> reach (\<lambda>l. l = []) (task_step ts)"

definition names :: "'n task list \<Rightarrow> 'n set" where
  "names ts = tk_name ` set ts"

definition waits_for :: "'n task list \<Rightarrow> ('n \<times> 'n) set" where
  "waits_for ts = {(d, tk_name t) | d t. t \<in> set ts \<and> d \<in> set (tk_after t)}"

definition complete :: "'n task list \<Rightarrow> 'n task_event list \<Rightarrow> bool" where
  "complete ts l = (\<forall>t \<in> set ts. Finished (tk_name t) \<in> set l)"

definition stuck :: "'n task list \<Rightarrow> 'n task_event list \<Rightarrow> bool" where
  "stuck ts l = (\<forall>l'. \<not> task_step ts l l')"

subsection \<open>The log\<close>

text \<open>What precedes the events of the log.\<close>

definition task_inv :: "'n task list \<Rightarrow> 'n task_event list \<Rightarrow> bool" where
  "task_inv ts l = (distinct l \<and>
     (\<forall>xs n ys. l = xs @ Started n # ys \<longrightarrow>
        (\<exists>t \<in> set ts. tk_name t = n \<and> (\<forall>d \<in> set (tk_after t). Finished d \<in> set xs))) \<and>
     (\<forall>xs n ys. l = xs @ Finished n # ys \<longrightarrow> Started n \<in> set xs))"

lemma snoc_split:
  "l @ [e] = xs @ x # ys \<longleftrightarrow> ys = [] \<and> xs = l \<and> x = e \<or> (\<exists>zs. ys = zs @ [e] \<and> l = xs @ x # zs)"
  by (cases ys rule: rev_cases) auto

lemma task_machine: "invariant_machine (\<lambda>l. l = []) (task_step ts) (task_inv ts)"
proof unfold_locales
  fix l l' assume inv: "task_inv ts l" and "task_step ts l l'"
  from this(2) show "task_inv ts l'"
  proof (rule task_stepE)
    fix t assume "l' = l @ [Started (tk_name t)]" "t \<in> set ts" "Started (tk_name t) \<notin> set l"
      "\<forall>d \<in> set (tk_after t). Finished d \<in> set l"
    with inv show ?thesis by (auto simp: task_inv_def snoc_split)
  next
    fix n assume "l' = l @ [Finished n]" "Started n \<in> set l" "Finished n \<notin> set l"
    with inv show ?thesis by (auto simp: task_inv_def snoc_split)
  qed
qed (simp add: task_inv_def)

interpretation task_machine: invariant_machine "\<lambda>l. l = []" "task_step ts" "task_inv ts" for ts
  by (rule task_machine)

lemma started_after:
  assumes "task_inv ts l" and "l = xs @ Started n # ys"
  obtains t where "t \<in> set ts" and "tk_name t = n" and "\<forall>d \<in> set (tk_after t). Finished d \<in> set xs"
  using assms unfolding task_inv_def by blast

lemma finished_after: "task_inv ts l \<Longrightarrow> l = xs @ Finished n # ys \<Longrightarrow> Started n \<in> set xs"
  unfolding task_inv_def by blast

lemma started_task:
  assumes "task_inv ts l" and "Started n \<in> set l"
  shows "n \<in> names ts"
proof -
  from split_list [OF assms(2)] obtain xs ys where "l = xs @ Started n # ys" by blast
  from started_after [OF assms(1) this] show ?thesis by (metis names_def image_eqI)
qed

lemma finished_started:
  assumes "task_inv ts l" and "Finished n \<in> set l"
  shows "Started n \<in> set l"
proof -
  from split_list [OF assms(2)] obtain xs ys where l: "l = xs @ Finished n # ys" by blast
  from finished_after [OF assms(1) l] show ?thesis by (simp add: l)
qed

text \<open>The number of steps.\<close>

lemma log_bound:
  assumes "task_inv ts l"
  shows "length l \<le> 2 * length ts"
proof -
  have "set l \<subseteq> Started ` names ts \<union> Finished ` names ts"
  proof
    fix e assume e: "e \<in> set l"
    show "e \<in> Started ` names ts \<union> Finished ` names ts"
    proof (cases e)
      case (Started n)
      with e started_task [OF assms] show ?thesis by blast
    next
      case (Finished n)
      with e have "n \<in> names ts" using finished_started [OF assms] started_task [OF assms] by blast
      with Finished show ?thesis by blast
    qed
  qed
  moreover have "finite (names ts)" by (simp add: names_def)
  ultimately have "card (set l) \<le> card (Started ` names ts \<union> Finished ` names ts)"
    by (intro card_mono) auto
  also have "\<dots> \<le> card (Started ` names ts) + card (Finished ` names ts)" by (rule card_Un_le)
  also have "\<dots> \<le> 2 * card (names ts)"
    using card_image_le [OF \<open>finite (names ts)\<close>, of Started] card_image_le [OF \<open>finite (names ts)\<close>, of Finished]
    by simp
  also have "\<dots> \<le> 2 * length ts"
    unfolding names_def using card_image_le [of "set ts" tk_name] card_length [of ts] by simp
  finally show ?thesis using assms by (simp add: task_inv_def distinct_card)
qed

text \<open>The position of the end of a task.\<close>

definition finish_time :: "'n task_event list \<Rightarrow> 'n \<Rightarrow> nat" where
  "finish_time l n = length (takeWhile (\<lambda>e. e \<noteq> Finished n) l)"

lemma finish_time_before:
  assumes "l = xs @ Finished n # ys" and "Finished n \<notin> set xs" and "Finished d \<in> set xs"
  shows "finish_time l d < finish_time l n"
proof -
  have n: "finish_time l n = length xs"
    using assms(1,2) by (simp add: finish_time_def takeWhile_append)
  have "length (takeWhile (\<lambda>e. e \<noteq> Finished d) (xs @ Finished n # ys)) < length xs"
    using assms(3) by (induction xs) auto
  with n assms(1) show ?thesis by (simp add: finish_time_def)
qed

lemma dependency_finished_first:
  assumes inv: "task_inv ts l" and names: "distinct (map tk_name ts)"
    and t: "t \<in> set ts" "d \<in> set (tk_after t)" "Finished (tk_name t) \<in> set l"
  shows "Finished d \<in> set l" and "finish_time l d < finish_time l (tk_name t)"
proof -
  from t(3) obtain xs ys where l: "l = xs @ Finished (tk_name t) # ys" using split_list by fastforce
  then have "Started (tk_name t) \<in> set xs" by (rule finished_after [OF inv])
  then obtain xs1 xs2 where xs: "xs = xs1 @ Started (tk_name t) # xs2" using split_list by fastforce
  then have "l = xs1 @ Started (tk_name t) # xs2 @ Finished (tk_name t) # ys" by (simp add: l)
  from started_after [OF inv this] obtain t' where
    t': "t' \<in> set ts" "tk_name t' = tk_name t" "\<forall>d \<in> set (tk_after t'). Finished d \<in> set xs1" .
  from names have "inj_on tk_name (set ts)" by (simp add: distinct_map)
  from inj_onD [OF this t'(2) t'(1) t(1)] have "t' = t" .
  with t'(3) have d: "Finished d \<in> set xs" using t(2) xs by simp
  then show "Finished d \<in> set l" by (simp add: l)
  have "distinct l" using inv by (simp add: task_inv_def)
  then have "Finished (tk_name t) \<notin> set xs" by (simp add: l)
  with l d show "finish_time l d < finish_time l (tk_name t)" by (intro finish_time_before)
qed

subsection \<open>When everything finishes\<close>

definition orderly :: "'n task list \<Rightarrow> bool" where
  "orderly ts = ((\<forall>t \<in> set ts. set (tk_after t) \<subseteq> names ts) \<and> acyclic (waits_for ts))"

lemma finite_waits: "finite (waits_for ts)"
proof -
  have "waits_for ts = (\<Union>t \<in> set ts. (\<lambda>d. (d, tk_name t)) ` set (tk_after t))"
    by (auto simp: waits_for_def)
  then show ?thesis by simp
qed

lemma orderly_progress:
  assumes "orderly ts" and "\<not> complete ts l"
  shows "\<exists>l'. task_step ts l l'"
proof -
  let ?U = "{n \<in> names ts. Finished n \<notin> set l}"
  have "wf (waits_for ts)"
    using assms(1) by (simp add: orderly_def finite_acyclic_wf [OF finite_waits])
  moreover have "?U \<noteq> {}" using assms(2) by (auto simp: complete_def names_def)
  ultimately obtain n where n: "n \<in> ?U" "\<And>d. (d, n) \<in> waits_for ts \<Longrightarrow> d \<notin> ?U"
    using wf_eq_minimal [of "waits_for ts"] by (metis (no_types, lifting) ex_in_conv)
  then obtain t where t: "t \<in> set ts" "tk_name t = n" by (auto simp: names_def)
  have "\<forall>d \<in> set (tk_after t). Finished d \<in> set l"
  proof
    fix d assume d: "d \<in> set (tk_after t)"
    with t have "(d, n) \<in> waits_for ts" by (auto simp: waits_for_def)
    with n(2) have "d \<notin> ?U" by blast
    moreover have "d \<in> names ts" using assms(1) t(1) d by (auto simp: orderly_def)
    ultimately show "Finished d \<in> set l" by simp
  qed
  then show ?thesis
    using task_begins [of t ts l] task_ends [of n l ts] t n(1) by (cases "Started n \<in> set l") auto
qed

lemma complete_orderly:
  assumes "task_inv ts l" and "distinct (map tk_name ts)" and "complete ts l"
  shows "orderly ts"
proof -
  note first = dependency_finished_first [OF assms(1,2)]
  have "set (tk_after t) \<subseteq> names ts" if "t \<in> set ts" for t
    using first(1) [OF that] assms(3) that finished_started [OF assms(1)] started_task [OF assms(1)]
    by (auto simp: complete_def)
  moreover have "waits_for ts \<subseteq> measure (finish_time l)"
    using first(2) assms(3) by (auto simp: waits_for_def complete_def)
  then have "acyclic (waits_for ts)" by (meson wf_acyclic wf_measure wf_subset)
  ultimately show ?thesis by (simp add: orderly_def)
qed

text \<open>A run that can not go on exists from every state, because the number of steps is bounded.\<close>

lemma runs_end: "task_reach ts l \<Longrightarrow> \<exists>l'. task_reach ts l' \<and> stuck ts l'"
proof (induction "2 * length ts - length l" arbitrary: l rule: less_induct)
  case less
  show ?case
  proof (cases "stuck ts l")
    case True
    with less.prems show ?thesis by blast
  next
    case False
    then obtain l' where step: "task_step ts l l'" by (auto simp: stuck_def)
    have r: "task_reach ts l'" by (rule reach_step [OF less.prems step])
    have "length l' \<le> 2 * length ts" by (rule log_bound [OF task_machine.reach_inv [OF r]])
    moreover from step have "length l' = Suc (length l)" by (rule task_stepE) simp_all
    ultimately have "2 * length ts - length l' < 2 * length ts - length l" by linarith
    then show ?thesis using less.hyps r by blast
  qed
qed

lemma all_finish_iff:
  assumes "distinct (map tk_name ts)"
  shows "(\<forall>l. task_reach ts l \<and> stuck ts l \<longrightarrow> complete ts l) \<longleftrightarrow> orderly ts"
    and "(\<exists>l. task_reach ts l \<and> complete ts l) \<longleftrightarrow> orderly ts"
proof -
  have 1: "orderly ts \<Longrightarrow> task_reach ts l \<Longrightarrow> stuck ts l \<Longrightarrow> complete ts l" for l
    using orderly_progress by (auto simp: stuck_def)
  have 2: "task_reach ts l \<Longrightarrow> complete ts l \<Longrightarrow> orderly ts" for l
    by (rule complete_orderly [OF task_machine.reach_inv assms])
  have "task_reach ts []" by (rule reach_init) simp
  then obtain l0 where "task_reach ts l0" "stuck ts l0" using runs_end by blast
  with 1 2 show "(\<forall>l. task_reach ts l \<and> stuck ts l \<longrightarrow> complete ts l) \<longleftrightarrow> orderly ts"
    "(\<exists>l. task_reach ts l \<and> complete ts l) \<longleftrightarrow> orderly ts" by blast+
qed

end
