(* ===== verification/Plugin_Manager.thy ===== *)
theory Plugin_Manager
  imports Std_Map Task_Graph "HOL-Library.Word"
begin

text \<open>
  The plugin manager of the example server:
  \<open>examples/server/src/plugin_manager/plugin_manager.cc\<close> (the configuration of the plugins) and
  \<open>plugin_manager.hpp\<close> (\<open>startup\<close> and \<open>shutdown\<close>).

  Corrade is not part of the repository: a configuration file is a value of type \<open>'c\<close>, a group of
  it a value of type \<open>'g\<close>, with the calls of a \<open>conf_api\<close>; its plugin manager, its path helpers
  and the file system are the fields of a \<open>plugin_host\<close>. The maps keyed by \<open>std::string\<close> are
  \<open>std_map\<close>s with the order of \<open>std::string\<close>. The promise chains of \<open>startup\<close> and \<open>shutdown\<close>
  are the tasks they return (see \<open>Task_Graph\<close>); the resolvers and the promises of a plugin are
  the keys of four maps. A configuration group is never a null pointer. Not modelled: histograms, logging.
\<close>

definition string_less :: "string \<Rightarrow> string \<Rightarrow> bool" where
  "string_less = lexicographical_compare (\<lambda>a b. (of_char a :: nat) < of_char b)"

definition kPluginsConfigFileName :: string where "kPluginsConfigFileName = ''plugins.conf''"
definition kAllPluginsConfigCategory :: string where "kAllPluginsConfigCategory = ''plugins''"
definition kIndividualPluginConfigCategory :: string where "kIndividualPluginConfigCategory = ''plugin''"

record PluginMetadata =
  pluginName :: string
  dependsOn :: "string list"
  requiredBy :: "string list"

type_synonym plugin_map = "(string, PluginMetadata) std_map"

record ('c, 'g) conf_api =
  hasGroups :: "'c \<Rightarrow> bool"
  hasGroup :: "'c \<Rightarrow> string \<Rightarrow> bool"
  conf_group :: "'c \<Rightarrow> string \<Rightarrow> 'g option"       \<comment> \<open>\<open>conf.group\<close>, a pointer\<close>
  sub_groups :: "'g \<Rightarrow> string \<Rightarrow> 'g list"         \<comment> \<open>\<open>configurationGroup->groups\<close>\<close>
  hasValue :: "'g \<Rightarrow> string \<Rightarrow> bool"
  group_value :: "'g \<Rightarrow> string \<Rightarrow> string"
  group_values :: "'g \<Rightarrow> string \<Rightarrow> string list"

subsection \<open>The configuration\<close>

text \<open>The two output parameters are returned beside the result.\<close>

definition parsePluginsConfig ::
  "('c, 'g) conf_api \<Rightarrow> build \<Rightarrow> 'c \<Rightarrow> 'g list \<Rightarrow> bool \<Rightarrow> (bool \<times> 'g list \<times> bool) result" where
  "parsePluginsConfig C b conf plugin_groups is_plugin_filtering_enabled =
     (if \<not> hasGroups C conf then Inr (False, plugin_groups, is_plugin_filtering_enabled)
      else if \<not> hasGroup C conf kAllPluginsConfigCategory
      then Inr (False, plugin_groups, is_plugin_filtering_enabled)
      else (case conf_group C conf kAllPluginsConfigCategory of
          None \<Rightarrow> dcheck b ''DCHECK_VALID_PTR(configurationGroup)'' False
            (notreached b ''configurationGroup'' (Inr (True, plugin_groups, True)))
        | Some g \<Rightarrow> Inr (True, sub_groups C g kIndividualPluginConfigCategory, True)))"

definition add_group ::
  "('c, 'g) conf_api \<Rightarrow> build \<Rightarrow> string list \<Rightarrow> string list \<Rightarrow> 'g \<Rightarrow> plugin_map \<Rightarrow> plugin_map result" where
  "add_group C b dynamic_plugins static_plugins g m =
     (if \<not> hasValue C g ''title'' then dcheck b ''title not provided'' False (Inr m)
      else (let pluginTitle = group_value C g ''title'';
                deps = (if hasValue C g ''depends'' then group_values C g ''depends'' else [])
            in check ''plugin not found'' (pluginTitle \<in> set dynamic_plugins \<or> pluginTitle \<in> set static_plugins)
              (Inr (std_map_put string_less pluginTitle
                \<lparr>pluginName = pluginTitle, dependsOn = deps, requiredBy = []\<rparr> m))))"

text \<open>\<open>filtered_plugins[dep].requiredBy.push_back(name)\<close>: \<open>operator[]\<close> inserts an empty entry if there is none.\<close>

definition add_required :: "string \<Rightarrow> string \<Rightarrow> plugin_map \<Rightarrow> plugin_map" where
  "add_required name dep m =
     (let md = (case std_map_find string_less dep m of Some md \<Rightarrow> md
                | None \<Rightarrow> \<lparr>pluginName = [], dependsOn = [], requiredBy = []\<rparr>)
      in std_map_put string_less dep (md\<lparr>requiredBy := requiredBy md @ [name]\<rparr>) m)"

text \<open>
  The loop runs over the live map; it changes \<open>requiredBy\<close> only, and an entry that it inserts has no
  dependencies, so it visits the entries of the map it started with and possibly idle ones.
\<close>

definition populate_requiredBy :: "plugin_map \<Rightarrow> plugin_map" where
  "populate_requiredBy m =
     fold (\<lambda>(_, md) m. fold (add_required (pluginName md)) (dependsOn md) m) m m"

definition loadPluginsMetadata ::
  "('c, 'g) conf_api \<Rightarrow> build \<Rightarrow> 'g list \<Rightarrow> string list \<Rightarrow> string list \<Rightarrow> plugin_map result" where
  "loadPluginsMetadata C b plugin_groups dynamic_plugins static_plugins =
     andThen (foldM (add_group C b dynamic_plugins static_plugins) plugin_groups [])
       (\<lambda>m. Inr (populate_requiredBy m))"

subsection \<open>Startup\<close>

record 'c plugin_host =
  executable_path :: string
  join_path :: "string \<Rightarrow> string \<Rightarrow> string"
  open_conf :: "string \<Rightarrow> 'c"
  static_pluginList :: "string list"             \<comment> \<open>\<open>pluginList()\<close> before the directory is set\<close>
  pluginList :: "string \<Rightarrow> string list"          \<comment> \<open>and after \<open>setPluginDirectory\<close>\<close>
  PathExists :: "string \<Rightarrow> bool"
  fromNativeSeparators :: "string \<Rightarrow> string"
  load_ok :: "string \<Rightarrow> bool"                    \<comment> \<open>\<open>load\<close> answers \<open>Loaded\<close> or \<open>Static\<close>\<close>
  plugin_of_path :: "string \<Rightarrow> string"            \<comment> \<open>file name without its extension\<close>
  BaseName_agrees :: "string \<Rightarrow> bool"              \<comment> \<open>the path helpers of base and of Corrade agree\<close>
  loadState_ok :: "string \<Rightarrow> bool"
  instantiate_ok :: "string \<Rightarrow> bool"

record PluginManager =
  is_initialized :: bool
  has_manager :: bool
  loadResolvers :: "string list"
  unloadResolvers :: "string list"
  loadPromises :: "string list"
  unloadPromises :: "string list"
  loadCount :: "string \<rightharpoonup> 64 word"
  unloadCount :: "string \<rightharpoonup> 64 word"
  loaded_plugins :: "PluginMetadata list"

definition PluginManager_new :: PluginManager where
  "PluginManager_new = \<lparr>is_initialized = False, has_manager = False, loadResolvers = [], unloadResolvers = [],
     loadPromises = [], unloadPromises = [], loadCount = (\<lambda>_. None), unloadCount = (\<lambda>_. None), loaded_plugins = []\<rparr>"

text \<open>The directory of the plugins and the path of their configuration, with their defaults.\<close>

definition startup_paths :: "'c plugin_host \<Rightarrow> string \<Rightarrow> string \<Rightarrow> (string \<times> string) result" where
  "startup_paths H dir conf =
     check ''invalid executable path'' (executable_path H \<noteq> [])
     (let dir = (if dir = [] then executable_path H else dir)
      in check ''invalid path to directory with plugins'' (dir \<noteq> [])
        (let conf = (if conf = [] then join_path H dir kPluginsConfigFileName else conf)
         in check ''invalid path to plugins configuration file'' (conf \<noteq> []) (Inr (dir, conf))))"

definition dynamic_plugins_of :: "string list \<Rightarrow> string list \<Rightarrow> string list" where
  "dynamic_plugins_of static_plugins plugins_to_filter = filter (\<lambda>n. n \<notin> set static_plugins) plugins_to_filter"

definition add_extra_plugin :: "'c plugin_host \<Rightarrow> string \<Rightarrow> plugin_map \<Rightarrow> plugin_map result" where
  "add_extra_plugin H pluginPath m =
     check ''path does not exist'' (pluginPath \<noteq> [] \<and> PathExists H pluginPath)
       (Inr (std_map_put string_less pluginPath
         \<lparr>pluginName = fromNativeSeparators H pluginPath, dependsOn = [], requiredBy = []\<rparr> m))"

definition init_promises :: "PluginMetadata \<Rightarrow> PluginManager \<Rightarrow> PluginManager result" where
  "init_promises md pm =
     (let n = pluginName md in
      check ''unable to load twice'' (n \<notin> set (loadResolvers pm))
      (check ''unable to promise load twice'' (n \<notin> set (loadPromises pm))
      (check ''unable to unload twice'' (n \<notin> set (unloadResolvers pm))
      (check ''unable to promise unload twice'' (n \<notin> set (unloadPromises pm))
      (check ''loadCount_'' (loadCount pm n = None)
      (check ''unloadCount_'' (unloadCount pm n = None)
      (Inr (pm\<lparr>loadResolvers := loadResolvers pm @ [n], loadPromises := loadPromises pm @ [n],
          unloadResolvers := unloadResolvers pm @ [n], unloadPromises := unloadPromises pm @ [n],
          loadCount := (loadCount pm)(n \<mapsto> 0), unloadCount := (unloadCount pm)(n \<mapsto> 0)\<rparr>))))))))"

definition load_task :: "PluginMetadata \<Rightarrow> string task" where
  "load_task md = \<lparr>tk_name = pluginName md, tk_after = dependsOn md\<rparr>"

definition load_plugin ::
  "'c plugin_host \<Rightarrow> build \<Rightarrow> PluginMetadata \<Rightarrow> PluginManager \<times> string task list \<Rightarrow>
   (PluginManager \<times> string task list) result" where
  "load_plugin H b md s = (case s of (pm, loadPromiseParallel) \<Rightarrow>
     dcheck b ''fromNativeSeparators(nameOrPath) == nameOrPath''
       (fromNativeSeparators H (pluginName md) = pluginName md)
     (check ''unable to find dependant promise'' (\<forall>dep \<in> set (dependsOn md). dep \<in> set (loadPromises pm))
     (dcheck b ''manager_'' (has_manager pm)
     (if \<not> load_ok H (pluginName md) then dcheck b ''cannot be loaded'' False (Inr (pm, loadPromiseParallel))
      else (let name = plugin_of_path H (pluginName md)
        in dcheck b ''BaseName'' (BaseName_agrees H (pluginName md))
          (dcheck b ''manager_->loadState(pluginName)'' (loadState_ok H name)
          (if \<not> instantiate_ok H name then
             dcheck b ''cannot be instantiated'' False (Inr (pm, loadPromiseParallel))
           else Inr (pm\<lparr>loaded_plugins := loaded_plugins pm @ [md]\<rparr>, loadPromiseParallel @ [load_task md]))))))))"

text \<open>The body of \<open>startup\<close> after the configuration is known.\<close>

definition start_plugins ::
  "'c plugin_host \<Rightarrow> build \<Rightarrow> plugin_map \<Rightarrow> PluginManager \<Rightarrow> (PluginManager \<times> string task list) result" where
  "start_plugins H b m pm =
     dcheck b ''loaded_plugins_.empty()'' (loaded_plugins pm = [])
     (andThen (foldM init_promises (map snd m) pm) (\<lambda>pm.
      andThen (foldM (load_plugin H b) (map snd m) (pm, [])) (\<lambda>(pm, ts).
        dcheck b ''!is_initialized_'' (\<not> is_initialized pm) (Inr (pm\<lparr>is_initialized := True\<rparr>, ts)))))"

definition startup ::
  "('c, 'g) conf_api \<Rightarrow> 'c plugin_host \<Rightarrow> build \<Rightarrow> string \<Rightarrow> string \<Rightarrow> string list \<Rightarrow> PluginManager \<Rightarrow>
   (PluginManager \<times> string task list) result" where
  "startup C H b pathToDirWithPlugins pathToPluginsConfFile pathsToExtraPluginFiles pm =
     andThen (startup_paths H pathToDirWithPlugins pathToPluginsConfFile) (\<lambda>(dir, conf).
     andThen (parsePluginsConfig C b (open_conf H conf) [] False) (\<lambda>(_, plugin_groups, is_plugin_filtering_enabled).
     dcheck b ''!manager_'' (\<not> has_manager pm)
     (let pm = pm\<lparr>has_manager := True\<rparr>;
          static_plugins = static_pluginList H;
          dynamic_plugins = dynamic_plugins_of static_plugins (pluginList H dir)
      in andThen (if is_plugin_filtering_enabled
                  then loadPluginsMetadata C b plugin_groups dynamic_plugins static_plugins else Inr []) (\<lambda>m.
         andThen (foldM (add_extra_plugin H) pathsToExtraPluginFiles m) (\<lambda>m.
           start_plugins H b m pm)))))"

definition onLoaded :: "string \<Rightarrow> PluginManager \<Rightarrow> PluginManager" where
  "onLoaded n pm = pm\<lparr>loadCount := (loadCount pm)(n \<mapsto> (case loadCount pm n of Some c \<Rightarrow> c | None \<Rightarrow> 0) + 1)\<rparr>"

definition onUnloaded :: "string \<Rightarrow> PluginManager \<Rightarrow> PluginManager" where
  "onUnloaded n pm = pm\<lparr>unloadCount := (unloadCount pm)(n \<mapsto> (case unloadCount pm n of Some c \<Rightarrow> c | None \<Rightarrow> 0) + 1)\<rparr>"

definition countLoadedPlugins :: "PluginManager \<Rightarrow> nat" where
  "countLoadedPlugins pm = length (loaded_plugins pm)"

subsection \<open>Shutdown\<close>

definition unload_task :: "PluginMetadata \<Rightarrow> string task" where
  "unload_task md = \<lparr>tk_name = pluginName md, tk_after = requiredBy md\<rparr>"

definition shutdown :: "PluginManager \<Rightarrow> string task list result" where
  "shutdown pm =
     foldM (\<lambda>md ts. check ''unable to find dependant promise'' (\<forall>req \<in> set (requiredBy md). req \<in> set (unloadPromises pm))
        (Inr (ts @ [unload_task md])))
      (rev (loaded_plugins pm)) []"

end
