(* ===== verification/Plugin_Properties.thy ===== *)
theory Plugin_Properties
  imports Plugin_Manager
begin

text \<open>
  What the plugin manager promises: the metadata it reads from the configuration, the plugins
  that \<open>startup\<close> accepts, the order in which plugins are loaded and unloaded, and when a startup
  and a shutdown come to an end.
\<close>

subsection \<open>Maps keyed by strings\<close>

lemma of_char_nat_inj: "map (of_char :: char \<Rightarrow> nat) xs = map of_char ys \<longleftrightarrow> xs = ys"
  by (rule inj_map_eq_map) (simp add: inj_on_def)

lemma string_less_swo: "strict_weak_order string_less"
  unfolding string_less_def by (rule lexicographical_compare_swo(1))

interpretation string_map: strict_weak_order string_less
  by (rule string_less_swo)

lemma string_less_total: "\<not> string_less x y \<and> \<not> string_less y x \<longleftrightarrow> x = y"
  unfolding string_less_def lexicographical_compare_swo(2) [symmetric] of_char_nat_inj ..

abbreviation string_find :: "string \<Rightarrow> (string, 'v) std_map \<Rightarrow> 'v option" where
  "string_find \<equiv> std_map_find string_less"

abbreviation string_put :: "string \<Rightarrow> 'v \<Rightarrow> (string, 'v) std_map \<Rightarrow> (string, 'v) std_map" where
  "string_put \<equiv> std_map_put string_less"

abbreviation string_ok :: "(string, 'v) std_map \<Rightarrow> bool" where
  "string_ok \<equiv> std_map_ok string_less"

lemma string_find_put:
  "string_ok m \<Longrightarrow> string_find j (string_put k v m) = (if j = k then Some v else string_find j m)"
  using string_map.find_put_same [of j k v m] string_map.find_put_other [of m j k v] string_less_total [of j k]
  by auto

lemma string_find_mem: "string_ok m \<Longrightarrow> string_find k m = Some v \<longleftrightarrow> (k, v) \<in> set m"
proof (induction m)
  case Nil
  then show ?case by simp
next
  case (Cons e m)
  obtain k' v' where e: "e = (k', v')" by force
  have less: "(a, b) \<in> set m \<Longrightarrow> string_less k' a" for a b using Cons.prems e by auto
  consider "string_less k' k" | "string_less k k'" | "k = k'" using string_less_total by blast
  then show ?case
  proof cases
    case 1
    then have "k \<noteq> k'" using string_map.lt_irrefl by blast
    with 1 e Cons show ?thesis by auto
  next
    case 2
    then have "k \<noteq> k'" "(k, v) \<notin> set m"
      using string_map.lt_irrefl string_map.lt_asym less by blast+
    with 2 e show ?thesis using string_map.lt_asym by auto
  next
    case 3
    then have "(k, v) \<notin> set m" using less string_map.lt_irrefl by blast
    with 3 e show ?thesis using string_map.lt_irrefl by auto
  qed
qed

lemma string_ok_distinct: "string_ok m \<Longrightarrow> distinct (map fst m)"
proof (induction m)
  case Nil
  then show ?case by simp
next
  case (Cons e m)
  then show ?case using string_map.lt_irrefl [of "fst e"] by (cases e) fastforce
qed

subsection \<open>The metadata\<close>

text \<open>The entry that a group of the configuration makes.\<close>

definition group_entry :: "('c, 'g) conf_api \<Rightarrow> 'g \<Rightarrow> PluginMetadata" where
  "group_entry C g = \<lparr>pluginName = group_value C g ''title'',
     dependsOn = (if hasValue C g ''depends'' then group_values C g ''depends'' else []), requiredBy = []\<rparr>"

definition has_title :: "('c, 'g) conf_api \<Rightarrow> 'g \<Rightarrow> bool" where
  "has_title C g = hasValue C g ''title''"

lemma add_group_Inr:
  "add_group C b dyn stat g m = Inr m' \<Longrightarrow>
    m' = (if has_title C g then string_put (group_value C g ''title'') (group_entry C g) m else m)"
  by (auto simp: add_group_def has_title_def group_entry_def Let_def result_simps split: if_splits)

lemma add_groups_Inr:
  "foldM (add_group C b dyn stat) gs m = Inr m' \<Longrightarrow> string_ok m \<Longrightarrow>
   string_ok m' \<and> (\<forall>k. string_find k m' =
     (case find (\<lambda>g. has_title C g \<and> group_value C g ''title'' = k) (rev gs) of
        Some g \<Rightarrow> Some (group_entry C g) | None \<Rightarrow> string_find k m))"
proof (induction gs arbitrary: m' rule: rev_induct)
  case Nil
  then show ?case by simp
next
  case (snoc g gs)
  then obtain m1 where m1: "foldM (add_group C b dyn stat) gs m = Inr m1"
    and g: "add_group C b dyn stat g m1 = Inr m'"
    by (auto simp: foldM_append result_simps)
  from snoc.IH [OF m1 snoc.prems(2)] add_group_Inr [OF g] show ?case
    by (auto simp: string_map.put_ok string_find_put)
qed

text \<open>\<open>requiredBy\<close> as a function of the map before it is populated.\<close>

definition add_names :: "string list \<Rightarrow> PluginMetadata option \<Rightarrow> PluginMetadata option" where
  "add_names ns md = (if ns = [] then md else
     Some (case md of Some md \<Rightarrow> md\<lparr>requiredBy := requiredBy md @ ns\<rparr>
           | None \<Rightarrow> \<lparr>pluginName = [], dependsOn = [], requiredBy = ns\<rparr>))"

lemma add_names_simps [simp]:
  "add_names [] md = md"
  "add_names ns' (add_names ns md) = add_names (ns @ ns') md"
  by (auto simp: add_names_def split: option.split)

definition required_names :: "string \<Rightarrow> plugin_map \<Rightarrow> string list" where
  "required_names x m = concat (map (\<lambda>(_, md). map (\<lambda>_. pluginName md) (filter ((=) x) (dependsOn md))) m)"

lemma required_names_Cons [simp]:
  "required_names x ((k, md) # m) = map (\<lambda>_. pluginName md) (filter ((=) x) (dependsOn md)) @ required_names x m"
  "required_names x [] = []"
  by (simp_all add: required_names_def)

lemma set_required_names:
  "y \<in> set (required_names x m) \<longleftrightarrow> (\<exists>k md. (k, md) \<in> set m \<and> x \<in> set (dependsOn md) \<and> y = pluginName md)"
  by (force simp: required_names_def split_beta image_iff)

lemma add_required_find:
  assumes "string_ok m"
  shows "string_ok (add_required n d m)"
    and "string_find x (add_required n d m) = add_names (if x = d then [n] else []) (string_find x m)"
  using assms
  by (auto simp: add_required_def Let_def string_map.put_ok string_find_put add_names_def split: option.split)

lemma add_required_fold:
  assumes "string_ok m"
  shows "string_ok (fold (add_required n) ds m) \<and> string_find x (fold (add_required n) ds m) =
    add_names (map (\<lambda>_. n) (filter ((=) x) ds)) (string_find x m)"
  using assms by (induction ds arbitrary: m) (auto simp: add_required_find)

lemma populate_fold:
  assumes "string_ok m"
  shows "string_ok (fold (\<lambda>(_, md) m. fold (add_required (pluginName md)) (dependsOn md) m) es m) \<and>
    string_find x (fold (\<lambda>(_, md) m. fold (add_required (pluginName md)) (dependsOn md) m) es m) =
    add_names (required_names x es) (string_find x m)"
  using assms
proof (induction es arbitrary: m)
  case Nil
  then show ?case by simp
next
  case (Cons e es)
  obtain k md where e: "e = (k, md)" by force
  let ?m = "fold (add_required (pluginName md)) (dependsOn md) m"
  have ok: "string_ok ?m" using add_required_fold [OF Cons.prems] by blast
  have "string_find x ?m = add_names (map (\<lambda>_. pluginName md) (filter ((=) x) (dependsOn md))) (string_find x m)"
    using add_required_fold [OF Cons.prems] by blast
  with Cons.IH [OF ok] e show ?case by simp
qed

lemma populate_find:
  assumes "string_ok m"
  shows "string_ok (populate_requiredBy m)"
    and "string_find x (populate_requiredBy m) = add_names (required_names x m) (string_find x m)"
  using populate_fold [OF assms] by (auto simp: populate_requiredBy_def)

text \<open>
  The metadata of a configuration: an entry per title, of the last group with it, and an entry
  without a name for every dependency that no group has as its title.
\<close>

lemma metadata_find:
  assumes "loadPluginsMetadata C b gs dyn stat = Inr m"
  obtains m0 where "string_ok m0" and "string_ok m"
    and "\<And>k. string_find k m0 =
      map_option (group_entry C) (find (\<lambda>g. has_title C g \<and> group_value C g ''title'' = k) (rev gs))"
    and "\<And>x. string_find x m = add_names (required_names x m0) (string_find x m0)"
proof -
  from assms obtain m0 where m0: "foldM (add_group C b dyn stat) gs [] = Inr m0" "m = populate_requiredBy m0"
    by (auto simp: loadPluginsMetadata_def result_simps)
  from add_groups_Inr [OF m0(1)] have ok: "string_ok m0" and f: "\<And>k. string_find k m0 =
      map_option (group_entry C) (find (\<lambda>g. has_title C g \<and> group_value C g ''title'' = k) (rev gs))"
    by (auto split: option.splits)
  with populate_find [OF ok] m0(2) that show thesis by auto
qed

text \<open>The entries, with names that are keys and with \<open>requiredBy\<close> the inverse of \<open>dependsOn\<close>.\<close>

lemma metadata_entries:
  assumes "loadPluginsMetadata C b gs dyn stat = Inr m"
  shows "string_ok m"
    and "string_find x m = Some mx \<Longrightarrow> pluginName mx = x \<or>
      pluginName mx = [] \<and> dependsOn mx = [] \<and> requiredBy mx \<noteq> []"
    and "string_find x m = Some mx \<Longrightarrow> pluginName mx = x \<Longrightarrow> d \<in> set (dependsOn mx) \<Longrightarrow>
      \<exists>md. string_find d m = Some md \<and> x \<in> set (requiredBy md)"
    and "string_find x m = Some mx \<Longrightarrow> y \<in> set (requiredBy mx) \<Longrightarrow>
      \<exists>my. string_find y m = Some my \<and> pluginName my = y \<and> x \<in> set (dependsOn my)"
proof -
  obtain m0 where ok: "string_ok m0" "string_ok m" and f0: "\<And>k. string_find k m0 =
      map_option (group_entry C) (find (\<lambda>g. has_title C g \<and> group_value C g ''title'' = k) (rev gs))"
    and f: "\<And>x. string_find x m = add_names (required_names x m0) (string_find x m0)"
    by (rule metadata_find [OF assms]) blast
  have e0: "pluginName mx = x \<and> requiredBy mx = []" if "string_find x m0 = Some mx" for x mx
    using that by (auto simp: f0 group_entry_def find_Some_iff)
  have from_m: "\<exists>mx0. string_find x m0 = Some mx0 \<and> dependsOn mx0 = dependsOn mx \<and> pluginName mx0 = pluginName mx"
    if "string_find x m = Some mx" "dependsOn mx \<noteq> [] \<or> pluginName mx \<noteq> []" for x mx
    using that by (auto simp: f add_names_def split: if_splits option.splits)
  have forth: "\<exists>mx. string_find x m = Some mx \<and> dependsOn mx = dependsOn mx0 \<and> pluginName mx = pluginName mx0"
    if "string_find x m0 = Some mx0" for x mx0
    using that by (auto simp: f add_names_def)
  have req: "set (requiredBy mx) = set (required_names x m0)" if "string_find x m = Some mx" for x mx
    using that e0 by (auto simp: f add_names_def split: if_splits option.splits)
  have rn: "y \<in> set (required_names x m0) \<longleftrightarrow> (\<exists>my. string_find y m0 = Some my \<and> x \<in> set (dependsOn my))" for x y
    using e0 by (auto simp: set_required_names string_find_mem [OF ok(1), symmetric])
  show "string_ok m" by (rule ok)
  show "pluginName mx = x \<or> pluginName mx = [] \<and> dependsOn mx = [] \<and> requiredBy mx \<noteq> []"
    if "string_find x m = Some mx"
  proof (cases "string_find x m0")
    case None
    with that show ?thesis by (auto simp: f add_names_def split: if_splits)
  next
    case (Some mx0)
    with that e0 [OF Some] show ?thesis by (auto simp: f add_names_def split: if_splits)
  qed
  show "\<exists>md. string_find d m = Some md \<and> x \<in> set (requiredBy md)"
    if "string_find x m = Some mx" "pluginName mx = x" "d \<in> set (dependsOn mx)"
  proof -
    have "dependsOn mx \<noteq> []" using that(3) by auto
    with from_m [OF that(1)] that(3) have "x \<in> set (required_names d m0)" by (auto simp: rn)
    then show ?thesis using req [of d] by (auto simp: f add_names_def split: option.splits)
  qed
  show "\<exists>my. string_find y m = Some my \<and> pluginName my = y \<and> x \<in> set (dependsOn my)"
    if "string_find x m = Some mx" "y \<in> set (requiredBy mx)"
  proof -
    from that req [OF that(1)] obtain my0 where my0: "string_find y m0 = Some my0" "x \<in> set (dependsOn my0)"
      by (auto simp: rn)
    with e0 [OF my0(1)] forth [OF my0(1)] show ?thesis by auto
  qed
qed

lemma find_mem: "find P xs = Some x \<Longrightarrow> x \<in> set xs \<and> P x"
  by (induction xs) (auto split: if_splits)

lemma metadata_groups:
  assumes "loadPluginsMetadata C b gs dyn stat = Inr m"
  shows "string_find x m = Some mx \<Longrightarrow> pluginName mx \<noteq> [] \<Longrightarrow>
      \<exists>g \<in> set gs. has_title C g \<and> group_value C g ''title'' = x"
    and "g \<in> set gs \<Longrightarrow> has_title C g \<Longrightarrow>
      (\<forall>g' \<in> set gs. group_value C g' ''title'' = group_value C g ''title'' \<longrightarrow> g' = g) \<Longrightarrow>
      \<exists>mx. string_find (group_value C g ''title'') m = Some mx \<and> dependsOn mx = dependsOn (group_entry C g)"
proof -
  obtain m0 where f0: "\<And>k. string_find k m0 =
      map_option (group_entry C) (find (\<lambda>g. has_title C g \<and> group_value C g ''title'' = k) (rev gs))"
    and f: "\<And>x. string_find x m = add_names (required_names x m0) (string_find x m0)"
    by (rule metadata_find [OF assms]) blast
  show "\<exists>g \<in> set gs. has_title C g \<and> group_value C g ''title'' = x"
    if "string_find x m = Some mx" "pluginName mx \<noteq> []"
  proof (cases "find (\<lambda>g. has_title C g \<and> group_value C g ''title'' = x) (rev gs)")
    case None
    with that show ?thesis by (auto simp: f f0 add_names_def split: if_splits)
  next
    case (Some g)
    from find_mem [OF this] show ?thesis by auto
  qed
  show "\<exists>mx. string_find (group_value C g ''title'') m = Some mx \<and> dependsOn mx = dependsOn (group_entry C g)"
    if "g \<in> set gs" "has_title C g"
      "\<forall>g' \<in> set gs. group_value C g' ''title'' = group_value C g ''title'' \<longrightarrow> g' = g"
  proof (cases "find (\<lambda>g'. has_title C g' \<and> group_value C g' ''title'' = group_value C g ''title'') (rev gs)")
    case None
    with that show ?thesis by (auto simp: find_None_iff)
  next
    case (Some g')
    from find_mem [OF this] that(3) Some show ?thesis by (auto simp: f f0 add_names_def)
  qed
qed

subsection \<open>The loops of startup\<close>

lemma extra_fold:
  assumes "foldM (add_extra_plugin H) extra m0 = Inr m" and "string_ok m0"
  shows "string_ok m \<and> string_find k m = (if k \<in> set extra
    then Some \<lparr>pluginName = fromNativeSeparators H k, dependsOn = [], requiredBy = []\<rparr> else string_find k m0)"
  using assms
proof (induction extra arbitrary: m0)
  case Nil
  then show ?case by simp
next
  case (Cons p extra)
  then obtain m1 where "add_extra_plugin H p m0 = Inr m1" and m: "foldM (add_extra_plugin H) extra m1 = Inr m"
    by (auto simp: result_simps)
  from this(1) have m1: "m1 = string_put p \<lparr>pluginName = fromNativeSeparators H p, dependsOn = [], requiredBy = []\<rparr> m0"
    by (simp add: add_extra_plugin_def result_simps)
  with Cons.prems(2) have ok: "string_ok m1" by (simp add: string_map.put_ok)
  show ?case using Cons.IH [OF m ok] by (auto simp: m1 string_find_put [OF Cons.prems(2)])
qed

lemma init_fold:
  assumes "foldM init_promises mds pm = Inr pm'"
  shows "loadPromises pm' = loadPromises pm @ map pluginName mds \<and>
    unloadPromises pm' = unloadPromises pm @ map pluginName mds \<and>
    loaded_plugins pm' = loaded_plugins pm \<and> has_manager pm' = has_manager pm \<and>
    is_initialized pm' = is_initialized pm \<and>
    (distinct (loadPromises pm) \<longrightarrow> distinct (loadPromises pm @ map pluginName mds))"
  using assms
proof (induction mds arbitrary: pm)
  case Nil
  then show ?case by simp
next
  case (Cons md mds)
  then obtain pm1 where pm1: "init_promises md pm = Inr pm1" "foldM init_promises mds pm1 = Inr pm'"
    by (auto simp: result_simps)
  from pm1(1) have "pluginName md \<notin> set (loadPromises pm)"
    "loadPromises pm1 = loadPromises pm @ [pluginName md]" "unloadPromises pm1 = unloadPromises pm @ [pluginName md]"
    "loaded_plugins pm1 = loaded_plugins pm" "has_manager pm1 = has_manager pm" "is_initialized pm1 = is_initialized pm"
    by (auto simp: init_promises_def Let_def result_simps)
  with Cons.IH [OF pm1(2)] show ?case by simp
qed

definition loads :: "'c plugin_host \<Rightarrow> PluginMetadata \<Rightarrow> bool" where
  "loads H md = (load_ok H (pluginName md) \<and> instantiate_ok H (plugin_of_path H (pluginName md)))"

lemma load_fold:
  assumes "foldM (load_plugin H b) mds (pm, ts) = Inr (pm', ts')"
  shows "pm' = pm\<lparr>loaded_plugins := loaded_plugins pm @ filter (loads H) mds\<rparr> \<and>
    ts' = ts @ map load_task (filter (loads H) mds) \<and> (b = Debug \<longrightarrow> (\<forall>md \<in> set mds. loads H md)) \<and>
    (\<forall>md \<in> set mds. set (dependsOn md) \<subseteq> set (loadPromises pm))"
  using assms
proof (induction mds arbitrary: pm ts)
  case Nil
  then show ?case by simp
next
  case (Cons md mds)
  then obtain pm1 ts1 where 1: "load_plugin H b md (pm, ts) = Inr (pm1, ts1)"
    "foldM (load_plugin H b) mds (pm1, ts1) = Inr (pm', ts')" by (auto simp: result_simps)
  from 1(1) have "set (dependsOn md) \<subseteq> set (loadPromises pm)" "b = Debug \<longrightarrow> loads H md"
    "pm1 = (if loads H md then pm\<lparr>loaded_plugins := loaded_plugins pm @ [md]\<rparr> else pm)"
    "ts1 = (if loads H md then ts @ [load_task md] else ts)"
    by (auto simp: load_plugin_def loads_def Let_def result_simps split: if_splits)
  with Cons.IH [OF 1(2)] show ?case by (cases "loads H md") simp_all
qed

text \<open>What a startup that returns has done.\<close>

lemma startup_Inr:
  assumes "startup C H b dir conf extra PluginManager_new = Inr (pm, ts)"
  obtains d c p gs flt m0 m where "startup_paths H dir conf = Inr (d, c)"
    and "parsePluginsConfig C b (open_conf H c) [] False = Inr (p, gs, flt)"
    and "(if flt then loadPluginsMetadata C b gs (dynamic_plugins_of (static_pluginList H) (pluginList H d))
        (static_pluginList H) else Inr []) = Inr m0"
    and "foldM (add_extra_plugin H) extra m0 = Inr m"
    and "distinct (map (pluginName \<circ> snd) m)"
    and "\<forall>md \<in> set (map snd m). set (dependsOn md) \<subseteq> set (map (pluginName \<circ> snd) m)"
    and "loaded_plugins pm = filter (loads H) (map snd m)" and "ts = map load_task (loaded_plugins pm)"
    and "b = Debug \<longrightarrow> (\<forall>md \<in> set (map snd m). loads H md)"
    and "unloadPromises pm = map (pluginName \<circ> snd) m"
proof -
  let ?pm = "PluginManager_new\<lparr>has_manager := True\<rparr>"
  from assms obtain d c p gs flt m0 m where
    1: "startup_paths H dir conf = Inr (d, c)"
      "parsePluginsConfig C b (open_conf H c) [] False = Inr (p, gs, flt)"
      "(if flt then loadPluginsMetadata C b gs (dynamic_plugins_of (static_pluginList H) (pluginList H d))
        (static_pluginList H) else Inr []) = Inr m0"
      "foldM (add_extra_plugin H) extra m0 = Inr m"
    and 2: "start_plugins H b m ?pm = Inr (pm, ts)"
    by (auto simp: startup_def Let_def result_simps)
  from 2 obtain pm1 pm2 where init: "foldM init_promises (map snd m) ?pm = Inr pm1"
    and load: "foldM (load_plugin H b) (map snd m) (pm1, []) = Inr (pm2, ts)"
    and pm: "pm = pm2\<lparr>is_initialized := True\<rparr>"
    by (auto simp: start_plugins_def result_simps)
  from init_fold [OF init] have i: "loadPromises pm1 = map (pluginName \<circ> snd) m"
      "unloadPromises pm1 = map (pluginName \<circ> snd) m" "loaded_plugins pm1 = []" and d: "distinct (map (pluginName \<circ> snd) m)"
    by (simp_all add: PluginManager_new_def)
  from load_fold [OF load] that [OF 1 d] i pm show thesis by simp
qed

text \<open>The plugins of a configuration that \<open>startup\<close> has accepted, without extra plugin files.\<close>

definition plugin_table :: "plugin_map \<Rightarrow> bool" where
  "plugin_table m = (string_ok m \<and> (\<forall>(x, mx) \<in> set m. pluginName mx = x \<and>
     (\<forall>d \<in> set (dependsOn mx). \<exists>md. (d, md) \<in> set m \<and> x \<in> set (requiredBy md)) \<and>
     (\<forall>y \<in> set (requiredBy mx). \<exists>my. (y, my) \<in> set m \<and> x \<in> set (dependsOn my))))"

lemma plugin_tableD:
  assumes "plugin_table m" and "(x, mx) \<in> set m"
  shows "pluginName mx = x"
    and "d \<in> set (dependsOn mx) \<Longrightarrow> \<exists>md. (d, md) \<in> set m \<and> x \<in> set (requiredBy md)"
    and "y \<in> set (requiredBy mx) \<Longrightarrow> \<exists>my. (y, my) \<in> set m \<and> x \<in> set (dependsOn my)"
  using assms by (auto simp: plugin_table_def)

lemma startup_table:
  assumes "startup C H b dir conf [] PluginManager_new = Inr (pm, ts)"
  obtains m where "plugin_table m" and "distinct (map (pluginName \<circ> snd) m)"
    and "loaded_plugins pm = filter (loads H) (map snd m)" and "ts = map load_task (loaded_plugins pm)"
    and "b = Debug \<longrightarrow> loaded_plugins pm = map snd m" and "set (unloadPromises pm) = fst ` set m"
proof -
  obtain d c p gs flt m0 m where m0: "(if flt then loadPluginsMetadata C b gs
        (dynamic_plugins_of (static_pluginList H) (pluginList H d)) (static_pluginList H) else Inr []) = Inr m0"
    and m: "foldM (add_extra_plugin H) [] m0 = Inr m"
    and dist: "distinct (map (pluginName \<circ> snd) m)"
    and deps: "\<forall>md \<in> set (map snd m). set (dependsOn md) \<subseteq> set (map (pluginName \<circ> snd) m)"
    and l: "loaded_plugins pm = filter (loads H) (map snd m)" "ts = map load_task (loaded_plugins pm)"
      "b = Debug \<longrightarrow> (\<forall>md \<in> set (map snd m). loads H md)" "unloadPromises pm = map (pluginName \<circ> snd) m"
    by (rule startup_Inr [OF assms])
  from m have "m0 = m" by simp
  note m = m0 [unfolded this]
  have t: "plugin_table m"
  proof (cases flt)
    case False
    with m show ?thesis by (simp add: plugin_table_def)
  next
    case True
    with m have m: "loadPluginsMetadata C b gs (dynamic_plugins_of (static_pluginList H) (pluginList H d))
      (static_pluginList H) = Inr m" by simp
    note e = metadata_entries [OF m]
    note mem = string_find_mem [OF e(1)]
    have name: "pluginName mx = x" if x: "(x, mx) \<in> set m" for x mx
    proof (rule ccontr)
      assume "pluginName mx \<noteq> x"
      with e(2) [of x mx] x mem obtain y where y: "y \<in> set (requiredBy mx)" "pluginName mx = []"
        by (metis last_in_set)
      with e(4) [of x mx y] x mem obtain my where "(y, my) \<in> set m" "x \<in> set (dependsOn my)" by blast
      with deps obtain z mz where "(z, mz) \<in> set m" "pluginName mz = x" by force
      with e(2) [of z mz] mem \<open>pluginName mx \<noteq> x\<close> y(2) have "(x, mz) \<in> set m" "pluginName mz = x" by metis+
      with x mem have "mz = mx" by (metis option.inject)
      with \<open>pluginName mz = x\<close> \<open>pluginName mx \<noteq> x\<close> show False by simp
    qed
    show ?thesis
      unfolding plugin_table_def using e(1) e(3,4) name mem by blast
  qed
  have "set (unloadPromises pm) = fst ` set m"
    using plugin_tableD(1) [OF t] l(4) by (force simp: image_iff)
  moreover have "b = Debug \<longrightarrow> loaded_plugins pm = map snd m" using l(1,3) by simp
  ultimately show thesis using that [OF t dist l(1,2)] by blast
qed

lemma shutdown_tasks:
  assumes "\<forall>md \<in> set (loaded_plugins pm). set (requiredBy md) \<subseteq> set (unloadPromises pm)"
  shows "shutdown pm = Inr (map unload_task (rev (loaded_plugins pm)))"
proof -
  let ?f = "\<lambda>md ts. check ''unable to find dependant promise''
    (\<forall>req \<in> set (requiredBy md). req \<in> set (unloadPromises pm)) (Inr (ts @ [unload_task md]))"
  have "foldM ?f mds ts = Inr (ts @ map unload_task mds)"
    if "\<forall>md \<in> set mds. set (requiredBy md) \<subseteq> set (unloadPromises pm)" for mds ts
    using that by (induction mds arbitrary: ts) (auto simp: result_simps subset_iff)
  from this [of "rev (loaded_plugins pm)" "[]"] assms show ?thesis by (simp add: shutdown_def)
qed

lemma startup_shutdown:
  assumes "startup C H b dir conf [] PluginManager_new = Inr (pm, ts)"
  shows "shutdown pm = Inr (map unload_task (rev (loaded_plugins pm)))"
proof -
  obtain m where t: "plugin_table m" and l: "loaded_plugins pm = filter (loads H) (map snd m)"
    and u: "set (unloadPromises pm) = fst ` set m"
    by (rule startup_table [OF assms])
  have "set (requiredBy mx) \<subseteq> set (unloadPromises pm)" if "(x, mx) \<in> set m" for x mx
    unfolding u using plugin_tableD(3) [OF t that] by force
  then show ?thesis by (intro shutdown_tasks) (fastforce simp: l)
qed

lemma load_task_simps [simp]:
  "tk_name (load_task md) = pluginName md" "tk_after (load_task md) = dependsOn md"
  by (simp_all add: load_task_def)

lemma unload_task_simps [simp]:
  "tk_name (unload_task md) = pluginName md" "tk_after (unload_task md) = requiredBy md"
  by (simp_all add: unload_task_def)

text \<open>The edges and the names of a task graph over the table.\<close>

lemma table_graph:
  assumes "plugin_table m" and "set mds = snd ` set m" and "\<And>md. tk_name (g md) = pluginName md"
  shows "(d, x) \<in> waits_for (map g mds) \<longleftrightarrow> (\<exists>mx. (x, mx) \<in> set m \<and> d \<in> set (tk_after (g mx)))"
    and "names (map g mds) = fst ` set m"
proof -
  note t = plugin_tableD(1) [OF assms(1)]
  show "(d, x) \<in> waits_for (map g mds) \<longleftrightarrow> (\<exists>mx. (x, mx) \<in> set m \<and> d \<in> set (tk_after (g mx)))"
  proof
    assume "(d, x) \<in> waits_for (map g mds)"
    then obtain k mx where "(k, mx) \<in> set m" "x = pluginName mx" "d \<in> set (tk_after (g mx))"
      using assms(2,3) by (auto simp: waits_for_def)
    with t show "\<exists>mx. (x, mx) \<in> set m \<and> d \<in> set (tk_after (g mx))" by blast
  next
    assume "\<exists>mx. (x, mx) \<in> set m \<and> d \<in> set (tk_after (g mx))"
    then obtain mx where mx: "(x, mx) \<in> set m" "d \<in> set (tk_after (g mx))" by blast
    from imageI [OF mx(1), of snd] have "g mx \<in> set (map g mds)" by (simp add: assms(2))
    with mx(2) have "(d, tk_name (g mx)) \<in> waits_for (map g mds)" unfolding waits_for_def by blast
    then show "(d, x) \<in> waits_for (map g mds)" by (simp only: assms(3) t [OF mx(1)])
  qed
  show "names (map g mds) = fst ` set m"
  proof -
    have "names (map g mds) = (\<lambda>e. pluginName (snd e)) ` set m"
      by (simp only: names_def set_map assms(2,3) image_image)
    also have "\<dots> = fst ` set m" by (rule image_cong [OF refl]) (metis t prod.collapse)
    finally show ?thesis .
  qed
qed

text \<open>The two task graphs are closed, and each other's converse.\<close>

lemma table_graphs:
  assumes "plugin_table m"
  shows "waits_for (map unload_task (rev (map snd m))) = (waits_for (map load_task (map snd m)))\<inverse>"
    and "orderly (map load_task (map snd m)) \<longleftrightarrow> acyclic (waits_for (map load_task (map snd m)))"
    and "orderly (map unload_task (rev (map snd m))) \<longleftrightarrow> acyclic (waits_for (map load_task (map snd m)))"
proof -
  note t = plugin_tableD [OF assms]
  let ?ts = "map load_task (map snd m)" and ?us = "map unload_task (rev (map snd m))"
  have w: "(d, x) \<in> waits_for ?ts \<longleftrightarrow> (\<exists>mx. (x, mx) \<in> set m \<and> d \<in> set (dependsOn mx))" "names ?ts = fst ` set m" for d x
    using table_graph [OF assms, of "map snd m" load_task] by simp_all
  have u: "(y, x) \<in> waits_for ?us \<longleftrightarrow> (\<exists>mx. (x, mx) \<in> set m \<and> y \<in> set (requiredBy mx))" "names ?us = fst ` set m" for y x
    using table_graph [OF assms, of "rev (map snd m)" unload_task] by (simp_all only: set_rev set_map unload_task_simps)
  have "(y, x) \<in> waits_for ?us \<longleftrightarrow> (x, y) \<in> waits_for ?ts" for y x
  proof
    assume "(y, x) \<in> waits_for ?us"
    then obtain mx where "(x, mx) \<in> set m" "y \<in> set (requiredBy mx)" by (auto simp only: u)
    from t(3) [OF this] show "(x, y) \<in> waits_for ?ts" by (simp only: w)
  next
    assume "(x, y) \<in> waits_for ?ts"
    then obtain my where "(y, my) \<in> set m" "x \<in> set (dependsOn my)" by (auto simp only: w)
    from t(2) [OF this] show "(y, x) \<in> waits_for ?us" by (simp only: u)
  qed
  then show conv: "waits_for ?us = (waits_for ?ts)\<inverse>" by (auto simp only: converse_iff)
  have "\<forall>md \<in> snd ` set m. set (dependsOn md) \<subseteq> fst ` set m"
    using t(2) by (force simp: image_iff)
  then show "orderly ?ts \<longleftrightarrow> acyclic (waits_for ?ts)"
    unfolding orderly_def w(2) by (simp add: image_image)
  have "\<forall>md \<in> snd ` set m. set (requiredBy md) \<subseteq> fst ` set m"
    using t(3) by (force simp: image_iff)
  then have "orderly ?us \<longleftrightarrow> acyclic (waits_for ?us)"
    unfolding orderly_def u(2) by (simp add: image_image)
  then show "orderly ?us \<longleftrightarrow> acyclic (waits_for ?ts)"
    by (simp only: conv acyclic_converse)
qed

subsection \<open>A configuration with two plugins\<close>

datatype demo_group = Section "demo_group list" | Entry string "string list"

definition demo_conf_api :: "(demo_group option, demo_group) conf_api" where
  "demo_conf_api = \<lparr>hasGroups = (\<lambda>c. c \<noteq> None), hasGroup = (\<lambda>c n. c \<noteq> None \<and> n = ''plugins''),
     conf_group = (\<lambda>c n. if n = ''plugins'' then c else None),
     sub_groups = (\<lambda>g n. case g of Section gs \<Rightarrow> if n = ''plugin'' then gs else [] | Entry _ _ \<Rightarrow> []),
     hasValue = (\<lambda>g k. case g of Section _ \<Rightarrow> False | Entry t ds \<Rightarrow> k = ''title'' \<or> k = ''depends'' \<and> ds \<noteq> []),
     group_value = (\<lambda>g k. case g of Section _ \<Rightarrow> [] | Entry t ds \<Rightarrow> if k = ''title'' then t else []),
     group_values = (\<lambda>g k. case g of Section _ \<Rightarrow> [] | Entry t ds \<Rightarrow> if k = ''depends'' then ds else [])\<rparr>"

definition demo_plugin_host :: "demo_group option \<Rightarrow> string list \<Rightarrow> demo_group option plugin_host" where
  "demo_plugin_host c bad = \<lparr>executable_path = ''bin'', join_path = (\<lambda>d n. d @ ''/'' @ n), open_conf = (\<lambda>_. c),
     static_pluginList = [''A''], pluginList = (\<lambda>_. [''A'', ''B'']), PathExists = (\<lambda>_. False),
     fromNativeSeparators = (\<lambda>p. p), load_ok = (\<lambda>n. n \<notin> set bad), plugin_of_path = (\<lambda>p. p), BaseName_agrees = (\<lambda>_. True),
     loadState_ok = (\<lambda>_. True), instantiate_ok = (\<lambda>_. True)\<rparr>"

text \<open>\<open>A\<close> depends on the given plugins.\<close>

definition demo_conf :: "string list \<Rightarrow> demo_group option" where
  "demo_conf deps = Some (Section [Entry ''A'' deps, Entry ''B'' []])"

lemmas demo_plugin_simps = demo_conf_api_def demo_plugin_host_def demo_conf_def startup_def startup_paths_def
  parsePluginsConfig_def kAllPluginsConfigCategory_def kIndividualPluginConfigCategory_def kPluginsConfigFileName_def
  dynamic_plugins_of_def loadPluginsMetadata_def add_group_def populate_requiredBy_def add_required_def
  start_plugins_def init_promises_def load_plugin_def load_task_def PluginManager_new_def string_less_def Let_def

definition demo_A :: PluginMetadata where
  "demo_A = \<lparr>pluginName = ''A'', dependsOn = [''B''], requiredBy = []\<rparr>"

definition demo_B :: PluginMetadata where
  "demo_B = \<lparr>pluginName = ''B'', dependsOn = [], requiredBy = [''A'']\<rparr>"

lemma demo_metadata:
  "loadPluginsMetadata demo_conf_api b [Entry ''A'' [''B''], Entry ''B'' []] [''B''] [''A''] =
    Inr [(''A'', demo_A), (''B'', demo_B)]"
  by (simp add: demo_plugin_simps demo_A_def demo_B_def)

lemma demo_startup:
  "\<exists>pm. startup demo_conf_api (demo_plugin_host (demo_conf [''B'']) []) Debug [] [] [] PluginManager_new =
    Inr (pm, [load_task demo_A, load_task demo_B]) \<and> loaded_plugins pm = [demo_A, demo_B]"
  by (simp add: demo_plugin_simps demo_A_def demo_B_def)

lemma demo_startup_bad:
  "\<exists>pm. startup demo_conf_api (demo_plugin_host (demo_conf [''B'']) [''B'']) Release [] [] [] PluginManager_new =
    Inr (pm, [load_task demo_A]) \<and> loaded_plugins pm = [demo_A]"
  by (simp add: demo_plugin_simps demo_A_def demo_B_def)

subsection \<open>The properties\<close>

text \<open>
  C21: the metadata of a configuration is consistent. After \<open>loadPluginsMetadata\<close> the map is
  sorted, every entry carries its key as its name (an entry without a name stands for a dependency
  that no group describes), every dependency has an entry, and \<open>requiredBy\<close> is exactly the inverse of
  \<open>dependsOn\<close>.
\<close>

theorem plugin_metadata:
  assumes "loadPluginsMetadata C b gs dyn stat = Inr m"
  shows "std_map_ok string_less m \<and>
    (\<forall>x mx. std_map_find string_less x m = Some mx \<longrightarrow>
      (pluginName mx = x \<or> pluginName mx = [] \<and> dependsOn mx = [] \<and> requiredBy mx \<noteq> []) \<and>
      (pluginName mx = x \<longrightarrow> (\<forall>d \<in> set (dependsOn mx). std_map_find string_less d m \<noteq> None)) \<and>
      set (requiredBy mx) = {y. \<exists>my. std_map_find string_less y m = Some my \<and> pluginName my = y \<and> x \<in> set (dependsOn my)})"
proof -
  note e = metadata_entries [OF assms]
  have inverse: "set (requiredBy mx) = {y. \<exists>my. string_find y m = Some my \<and> pluginName my = y \<and> x \<in> set (dependsOn my)}"
    if "string_find x m = Some mx" for x mx
  proof (rule set_eqI, unfold mem_Collect_eq)
    fix y
    show "y \<in> set (requiredBy mx) \<longleftrightarrow> (\<exists>my. string_find y m = Some my \<and> pluginName my = y \<and> x \<in> set (dependsOn my))"
      using e(4) [OF that] e(3) [of y _ x] that by auto
  qed
  have closed: "string_find d m \<noteq> None"
    if "string_find x m = Some mx" "pluginName mx = x" "d \<in> set (dependsOn mx)" for x mx d
    using e(3) [OF that] by auto
  show ?thesis
    by (intro conjI allI impI ballI) (rule e(1), erule e(2), erule (2) closed, erule inverse)
qed

theorem plugin_metadata_witness:
  "\<exists>m mB. loadPluginsMetadata demo_conf_api Debug [Entry ''A'' [''B''], Entry ''B'' []] [''B''] [''A''] = Inr m \<and>
    std_map_find string_less ''B'' m = Some mB \<and> ''A'' \<in> set (requiredBy mB)"
proof (intro exI conjI)
  show "loadPluginsMetadata demo_conf_api Debug [Entry ''A'' [''B''], Entry ''B'' []] [''B''] [''A''] =
      Inr [(''A'', demo_A), (''B'', demo_B)]" by (rule demo_metadata)
  show B: "string_find ''B'' [(''A'', demo_A), (''B'', demo_B)] = Some demo_B"
    by (simp add: string_less_def)
  have A: "string_find ''A'' [(''A'', demo_A), (''B'', demo_B)] = Some demo_A"
    by (simp add: string_less_def)
  from plugin_metadata [OF demo_metadata [of Debug]] B have "set (requiredBy demo_B) =
    {y. \<exists>my. string_find y [(''A'', demo_A), (''B'', demo_B)] = Some my \<and> pluginName my = y \<and>
      ''B'' \<in> set (dependsOn my)}" by blast
  with A show "''A'' \<in> set (requiredBy demo_B)"
    by (simp only: mem_Collect_eq) (rule exI [of _ demo_A], simp add: demo_A_def)
qed

text \<open>
  A dependency that is not configured stops the process. If a group of the configuration
  depends on a plugin that is the title of no group and the file of no extra plugin, \<open>startup\<close>
  does not return, in both builds.
\<close>

theorem plugin_dependency_missing:
  assumes "startup_paths H dir conf = Inr (d, c)"
    and "parsePluginsConfig C b (open_conf H c) [] False = Inr (True, gs, True)"
    and "g \<in> set gs" and "hasValue C g ''title''" and "hasValue C g ''depends''"
    and "x \<in> set (group_values C g ''depends'')" and "x \<noteq> []"
    and "\<forall>g' \<in> set gs. group_value C g' ''title'' \<noteq> x"
    and "\<forall>g' \<in> set gs. group_value C g' ''title'' = group_value C g ''title'' \<longrightarrow> g' = g"
    and "\<forall>p \<in> set extra. p \<noteq> group_value C g ''title'' \<and> fromNativeSeparators H p \<noteq> x"
  shows "\<exists>a. startup C H b dir conf extra PluginManager_new = Inl a"
proof (rule ccontr)
  assume "\<nexists>a. startup C H b dir conf extra PluginManager_new = Inl a"
  then obtain pm ts where s: "startup C H b dir conf extra PluginManager_new = Inr (pm, ts)"
    by (cases "startup C H b dir conf extra PluginManager_new") auto
  obtain d' c' p gs' flt m0 m where paths: "startup_paths H dir conf = Inr (d', c')"
    and parse: "parsePluginsConfig C b (open_conf H c') [] False = Inr (p, gs', flt)"
    and m0: "(if flt then loadPluginsMetadata C b gs' (dynamic_plugins_of (static_pluginList H) (pluginList H d'))
        (static_pluginList H) else Inr []) = Inr m0"
    and m: "foldM (add_extra_plugin H) extra m0 = Inr m"
    and deps: "\<forall>md \<in> set (map snd m). set (dependsOn md) \<subseteq> set (map (pluginName \<circ> snd) m)"
    by (rule startup_Inr [OF s])
  from paths parse m0 assms(1,2) have
    meta: "loadPluginsMetadata C b gs (dynamic_plugins_of (static_pluginList H) (pluginList H d))
      (static_pluginList H) = Inr m0" by simp
  note ok0 = metadata_entries(1) [OF meta]
  note m_find = extra_fold [OF m ok0]
  from m_find have ok: "string_ok m" by blast
  from assms(3,4,9) metadata_groups(2) [OF meta] obtain mg where
    "string_find (group_value C g ''title'') m0 = Some mg" "dependsOn mg = dependsOn (group_entry C g)"
    by (auto simp: has_title_def)
  moreover from assms(10) have "group_value C g ''title'' \<notin> set extra" by blast
  ultimately have "(group_value C g ''title'', mg) \<in> set m" "x \<in> set (dependsOn mg)"
    using m_find assms(5,6) by (auto simp: string_find_mem [OF ok, symmetric] group_entry_def)
  with deps obtain k mx where k: "(k, mx) \<in> set m" "pluginName mx = x" by force
  then have f: "string_find k m = Some mx" by (simp add: string_find_mem [OF ok])
  show False
  proof (cases "k \<in> set extra")
    case True
    with f m_find k(2) have "fromNativeSeparators H k = x" by auto
    with True assms(10) show False by blast
  next
    case False
    with f m_find have f0: "string_find k m0 = Some mx" by simp
    from metadata_entries(2) [OF meta f0] k(2) assms(7) have "k = x" by auto
    with metadata_groups(1) [OF meta f0] k(2) assms(7,8) show False by auto
  qed
qed

theorem plugin_dependency_missing_witness:
  "\<exists>a. startup demo_conf_api (demo_plugin_host (demo_conf [''Z'']) []) Release [] [] [] PluginManager_new = Inl a"
  by (rule plugin_dependency_missing [where gs = "[Entry ''A'' [''Z''], Entry ''B'' []]" and
        g = "Entry ''A'' [''Z'']" and x = "''Z''"])
    (simp_all add: demo_plugin_simps)

text \<open>
  C9: startup and shutdown of the plugins come to an end exactly if their dependencies have no cycle. In a
  build with checks a \<open>startup\<close> that returns has one task per plugin, and so has the \<open>shutdown\<close>
  after it; a run of the tasks has at most two steps per plugin, and every run that can
  not go on has loaded (unloaded) all plugins if and only if \<open>dependsOn\<close> is acyclic. Otherwise no run
  ever completes, and the promise that \<open>startup\<close> (\<open>shutdown\<close>) returns is never resolved.
\<close>

theorem plugins_start_and_stop:
  assumes "startup C H Debug dir conf [] PluginManager_new = Inr (pm, ts)"
  shows "\<exists>us. shutdown pm = Inr us \<and> length ts = countLoadedPlugins pm \<and> length us = countLoadedPlugins pm \<and>
    (\<forall>l. task_reach ts l \<longrightarrow> length l \<le> 2 * length ts) \<and> (\<forall>l. task_reach us l \<longrightarrow> length l \<le> 2 * length us) \<and>
    ((\<forall>l. task_reach ts l \<and> stuck ts l \<longrightarrow> complete ts l) \<longleftrightarrow> acyclic (waits_for ts)) \<and>
    ((\<exists>l. task_reach ts l \<and> complete ts l) \<longleftrightarrow> acyclic (waits_for ts)) \<and>
    ((\<forall>l. task_reach us l \<and> stuck us l \<longrightarrow> complete us l) \<longleftrightarrow> acyclic (waits_for ts)) \<and>
    ((\<exists>l. task_reach us l \<and> complete us l) \<longleftrightarrow> acyclic (waits_for ts))"
proof -
  obtain m where t: "plugin_table m" and dist: "distinct (map (pluginName \<circ> snd) m)"
    and ts: "ts = map load_task (loaded_plugins pm)" and l: "loaded_plugins pm = map snd m"
    by (rule startup_table [OF assms]) blast
  define us where "us = map unload_task (rev (loaded_plugins pm))"
  have names: "distinct (map tk_name ts)" "distinct (map tk_name us)"
    using dist by (simp_all add: ts us_def l comp_def rev_map [symmetric])
  have orderly: "orderly ts \<longleftrightarrow> acyclic (waits_for ts)" "orderly us \<longleftrightarrow> acyclic (waits_for ts)"
    using table_graphs(2,3) [OF t] by (simp_all only: ts us_def l)
  have bound: "length l \<le> 2 * length qs" if "task_reach qs l" for l and qs :: "string task list"
    by (rule log_bound [OF task_machine.reach_inv [OF that]])
  have "length ts = countLoadedPlugins pm" "length us = countLoadedPlugins pm"
    by (simp_all add: us_def ts countLoadedPlugins_def)
  with startup_shutdown [OF assms, folded us_def] bound
    all_finish_iff [OF names(1), unfolded orderly] all_finish_iff [OF names(2), unfolded orderly]
  show ?thesis by (intro exI [of _ us] conjI allI impI)
qed

theorem plugins_start_and_stop_witness:
  "\<exists>pm ts us l l'. startup demo_conf_api (demo_plugin_host (demo_conf [''B'']) []) Debug [] [] [] PluginManager_new = Inr (pm, ts) \<and>
    shutdown pm = Inr us \<and> ts \<noteq> [] \<and> task_reach ts l \<and> complete ts l \<and> task_reach us l' \<and> complete us l'"
proof -
  obtain pm where s: "startup demo_conf_api (demo_plugin_host (demo_conf [''B'']) []) Debug [] [] [] PluginManager_new =
    Inr (pm, [load_task demo_A, load_task demo_B])" using demo_startup by blast
  have "waits_for [load_task demo_A, load_task demo_B] \<subseteq> measure (\<lambda>n. if n = ''A'' then 1 else 0)"
    by (auto simp: waits_for_def demo_A_def demo_B_def)
  then have "acyclic (waits_for [load_task demo_A, load_task demo_B])" by (meson wf_acyclic wf_measure wf_subset)
  with plugins_start_and_stop [OF s] s show ?thesis by blast
qed

lemma plugin_sequence:
  assumes "startup C H b dir conf [] PluginManager_new = Inr (pm, ts)" and "md \<in> set (loaded_plugins pm)"
    and "d \<in> set (dependsOn md)"
  shows "(task_reach ts l \<and> l = xs @ Started (pluginName md) # ys \<longrightarrow> Finished d \<in> set xs) \<and>
    (\<exists>us. shutdown pm = Inr us \<and>
      (task_reach us l \<and> l = xs @ Started d # ys \<longrightarrow> Finished (pluginName md) \<in> set xs))"
proof -
  obtain m where t: "plugin_table m" and dist: "distinct (map (pluginName \<circ> snd) m)"
    and l: "loaded_plugins pm = filter (loads H) (map snd m)" and ts: "ts = map load_task (loaded_plugins pm)"
    by (rule startup_table [OF assms(1)])
  note entry = plugin_tableD [OF t]
  have inj: "inj_on pluginName (snd ` set m)"
    using dist by (simp add: distinct_map comp_inj_on_iff [symmetric] inj_on_imageI)
  from assms(2) l obtain x where x: "(x, md) \<in> set m" by auto
  have "Finished d \<in> set xs" if r: "task_reach ts l" "l = xs @ Started (pluginName md) # ys"
  proof -
    from started_after [OF task_machine.reach_inv [OF r(1)] r(2)] obtain t where
      t: "t \<in> set ts" "tk_name t = pluginName md" "\<forall>d \<in> set (tk_after t). Finished d \<in> set xs" .
    from t(1) ts obtain md' where md': "md' \<in> set (loaded_plugins pm)" "t = load_task md'" by auto
    have "md' = md" by (rule inj_onD [OF inj]) (use t(2) md' l x in \<open>force+\<close>)
    with t(3) md'(2) assms(3) show ?thesis by simp
  qed
  moreover have "Finished (pluginName md) \<in> set xs"
    if r: "task_reach (map unload_task (rev (loaded_plugins pm))) l" "l = xs @ Started d # ys"
  proof -
    from started_after [OF task_machine.reach_inv [OF r(1)] r(2)] obtain t where
      t: "t \<in> set (map unload_task (rev (loaded_plugins pm)))" "tk_name t = d"
        "\<forall>d \<in> set (tk_after t). Finished d \<in> set xs" .
    from t(1) l obtain k md' where md': "(k, md') \<in> set m" "t = unload_task md'" by auto
    from entry(1) [OF md'(1)] t(2) md'(2) have "k = d" by simp
    from entry(2) [OF x assms(3)] obtain md2 where md2: "(d, md2) \<in> set m" "x \<in> set (requiredBy md2)" by blast
    have "md2 = md'"
      by (rule inj_onD [OF inj]) (use md' md2 entry(1) \<open>k = d\<close> in \<open>force+\<close>)
    with t(3) md'(2) md2(2) entry(1) [OF x] show ?thesis by simp
  qed
  ultimately show ?thesis using startup_shutdown [OF assms(1)] by blast
qed

lemma load_order:
  assumes "startup C H b dir conf [] PluginManager_new = Inr (pm, ts)" and "md \<in> set (loaded_plugins pm)"
    and "d \<in> set (dependsOn md)" and "task_reach ts l" and "l = xs @ Started (pluginName md) # ys"
  shows "Finished d \<in> set xs"
  using plugin_sequence [OF assms(1-3), of l xs ys] assms(4,5) by blast

text \<open>
  C15: the order of loading and unloading. In both builds, whenever the load of a plugin starts, all plugins it depends
  on have been loaded; and whenever the unload of a plugin starts, all loaded plugins that depend on it have
  been unloaded.
\<close>

theorem plugin_order:
  assumes "startup C H b dir conf [] PluginManager_new = Inr (pm, ts)" and "md \<in> set (loaded_plugins pm)"
    and "d \<in> set (dependsOn md)"
  shows "(task_reach ts l \<and> l = xs @ Started (pluginName md) # ys \<longrightarrow> Finished d \<in> set xs) \<and>
    (\<exists>us. shutdown pm = Inr us \<and>
      (task_reach us l \<and> l = xs @ Started d # ys \<longrightarrow> Finished (pluginName md) \<in> set xs))"
  by (rule plugin_sequence [OF assms])

theorem plugin_order_witness:
  "\<exists>pm ts. startup demo_conf_api (demo_plugin_host (demo_conf [''B'']) []) Debug [] [] [] PluginManager_new = Inr (pm, ts) \<and>
    task_reach ts [Started ''B'', Finished ''B'', Started ''A''] \<and> Finished ''B'' \<in> set [Started ''B'', Finished ''B'']"
proof -
  let ?ts = "[load_task demo_A, load_task demo_B]"
  obtain pm where s: "startup demo_conf_api (demo_plugin_host (demo_conf [''B'']) []) Debug [] [] [] PluginManager_new =
    Inr (pm, ?ts)" and pm: "loaded_plugins pm = [demo_A, demo_B]" using demo_startup by blast
  have "task_reach ?ts []" by (rule reach_init) simp
  moreover have "task_step ?ts [] [Started ''B'']"
    using task_begins [of "load_task demo_B" ?ts "[]"] by (simp add: demo_B_def)
  ultimately have "task_reach ?ts [Started ''B'']" by (rule reach_step)
  moreover have "task_step ?ts [Started ''B''] [Started ''B'', Finished ''B'']"
    using task_ends [of "''B''" "[Started ''B'']" ?ts] by simp
  ultimately have "task_reach ?ts [Started ''B'', Finished ''B'']" by (rule reach_step)
  moreover have "task_step ?ts [Started ''B'', Finished ''B''] [Started ''B'', Finished ''B'', Started ''A'']"
    using task_begins [of "load_task demo_A" ?ts "[Started ''B'', Finished ''B'']"] by (simp add: demo_A_def)
  ultimately have r: "task_reach ?ts [Started ''B'', Finished ''B'', Started ''A'']" by (rule reach_step)
  have "demo_A \<in> set (loaded_plugins pm)" "''B'' \<in> set (dependsOn demo_A)" by (simp_all add: pm demo_A_def)
  from plugin_order [OF s this, of "[Started ''B'', Finished ''B'', Started ''A'']" "[Started ''B'', Finished ''B'']" "[]"] r
  have "Finished ''B'' \<in> set [Started ''B'', Finished ''B'']" by (simp add: demo_A_def)
  with s r show ?thesis by blast
qed

text \<open>
  C26: a plugin that can not be loaded blocks the startup of a build without checks. If the library refuses to load or to
  instantiate a plugin that a loaded plugin depends on, \<open>startup\<close> returns, but no run
  of its tasks ever completes: the dependent plugin waits for a promise that nothing resolves.
\<close>

theorem failed_plugin_blocks_startup:
  assumes "startup C H Release dir conf [] PluginManager_new = Inr (pm, ts)"
    and "md \<in> set (loaded_plugins pm)" and "d \<in> set (dependsOn md)"
    and "\<not> (load_ok H d \<and> instantiate_ok H (plugin_of_path H d))"
  shows "\<not> (\<exists>l. task_reach ts l \<and> complete ts l)"
proof -
  obtain m where t: "plugin_table m" and dist: "distinct (map (pluginName \<circ> snd) m)"
    and l: "loaded_plugins pm = filter (loads H) (map snd m)" and ts: "ts = map load_task (loaded_plugins pm)"
    by (rule startup_table [OF assms(1)])
  have "distinct (map pluginName (filter (loads H) (map snd m)))"
    by (rule distinct_map_filter) (simp add: dist)
  then have "distinct (map tk_name ts)" by (simp add: ts l comp_def)
  note iff = all_finish_iff(2) [OF this]
  have "d \<notin> names ts" using assms(4) by (auto simp: names_def ts l loads_def)
  moreover have "load_task md \<in> set ts" "d \<in> set (tk_after (load_task md))" using assms(2,3) by (simp_all add: ts)
  ultimately have "\<not> orderly ts" unfolding orderly_def by blast
  with iff show ?thesis by simp
qed

theorem failed_plugin_blocks_startup_witness:
  "\<exists>pm ts. startup demo_conf_api (demo_plugin_host (demo_conf [''B'']) [''B'']) Release [] [] [] PluginManager_new = Inr (pm, ts) \<and>
    countLoadedPlugins pm = 1 \<and> \<not> (\<exists>l. task_reach ts l \<and> complete ts l)"
proof -
  obtain pm where s: "startup demo_conf_api (demo_plugin_host (demo_conf [''B'']) [''B'']) Release [] [] [] PluginManager_new =
    Inr (pm, [load_task demo_A])" and pm: "loaded_plugins pm = [demo_A]" using demo_startup_bad by blast
  have "demo_A \<in> set (loaded_plugins pm)" "''B'' \<in> set (dependsOn demo_A)" by (simp_all add: pm demo_A_def)
  from failed_plugin_blocks_startup [OF s this] s pm show ?thesis
    by (simp add: demo_plugin_host_def countLoadedPlugins_def)
qed

text \<open>
  Without a section \<open>[plugins]\<close> no plugin is loaded. Whatever plugins the directory holds and in both
  builds, a \<open>startup\<close> without extra plugin files then returns with no plugin and with nothing to
  wait for.
\<close>

theorem no_plugins_section:
  assumes "startup_paths H dir conf = Inr (d, c)" and "\<not> hasGroup C (open_conf H c) ''plugins''"
  shows "\<exists>pm. startup C H b dir conf [] PluginManager_new = Inr (pm, []) \<and> countLoadedPlugins pm = 0 \<and> is_initialized pm"
  using assms
  by (simp add: startup_def parsePluginsConfig_def kAllPluginsConfigCategory_def start_plugins_def PluginManager_new_def
      countLoadedPlugins_def Let_def)

theorem no_plugins_section_witness:
  "\<exists>pm. startup demo_conf_api (demo_plugin_host None []) Debug [] [] [] PluginManager_new = Inr (pm, []) \<and>
    countLoadedPlugins pm = 0 \<and> pluginList (demo_plugin_host None []) ''bin'' = [''A'', ''B'']"
  using no_plugins_section [where H = "demo_plugin_host None []" and dir = "[]" and conf = "[]" and C = demo_conf_api and b = Debug]
  by (auto simp: demo_plugin_host_def demo_conf_api_def startup_paths_def Let_def)

end
