(* ===== verification/App_State.thy ===== *)
theory App_State
  imports Lifecycle
begin

text \<open>
  \<open>examples/server/shared_lib/ServerSharedLib/state/app_state.hpp\<close>, \<open>app_state.cc\<close>: the state of
  the example server. The underlying machine is the parameter \<open>P\<close> (see \<open>Lifecycle\<close>). Actions
  are the callbacks that \<open>promiseEntryOnce\<close> and \<open>promiseExitOnce\<close> register, named by the promise
  they resolve. The resolver is bound with \<open>base::Passed\<close>, so an action can run once; the source
  says so, and a second run is a \<open>CHECK\<close> of the callback library.
\<close>

datatype AppState_State =
    UNINITIALIZED | STARTED | PAUSED | SUSPENDED | TERMINATED | FAILED

type_synonym promise = nat

record AppState =
  as_state :: AppState_State
  as_entry :: "AppState_State \<Rightarrow> promise list"
  as_exit :: "AppState_State \<Rightarrow> promise list"
  as_next_promise :: promise
  as_resolved :: "promise list"

definition AppState_table :: "(AppState_State, event) table" where
  "AppState_table s e =
     (case (s, e) of
        (UNINITIALIZED, START) \<Rightarrow> Some STARTED
      | (UNINITIALIZED, TERMINATE) \<Rightarrow> Some TERMINATED
      | (UNINITIALIZED, FAULT) \<Rightarrow> Some FAILED
      | (STARTED, PAUSE) \<Rightarrow> Some PAUSED
      | (STARTED, TERMINATE) \<Rightarrow> Some TERMINATED
      | (STARTED, FAULT) \<Rightarrow> Some FAILED
      | (PAUSED, TERMINATE) \<Rightarrow> Some TERMINATED
      | (PAUSED, FAULT) \<Rightarrow> Some FAILED
      | (TERMINATED, TERMINATE) \<Rightarrow> Some TERMINATED
      | (TERMINATED, FAULT) \<Rightarrow> Some FAILED
      | (FAILED, FAULT) \<Rightarrow> Some FAILED
      | _ \<Rightarrow> None)"

definition AppState_new :: "AppState_State \<Rightarrow> AppState" where
  "AppState_new initial_state = \<lparr>as_state = initial_state, as_entry = (\<lambda>_. []), as_exit = (\<lambda>_. []),
     as_next_promise = 0, as_resolved = []\<rparr>"

definition AddEntryAction :: "AppState_State \<Rightarrow> promise \<Rightarrow> AppState \<Rightarrow> AppState" where
  "AddEntryAction st p a = a\<lparr>as_entry := (as_entry a)(st := as_entry a st @ [p])\<rparr>"

definition AddExitAction :: "AppState_State \<Rightarrow> promise \<Rightarrow> AppState \<Rightarrow> AppState" where
  "AddExitAction st p a = a\<lparr>as_exit := (as_exit a)(st := as_exit a st @ [p])\<rparr>"

definition currentState :: "AppState \<Rightarrow> AppState_State" where
  "currentState a = as_state a"

text \<open>The registered callback: it takes its resolver, which works once.\<close>

definition run_action :: "promise \<Rightarrow> AppState \<Rightarrow> AppState result" where
  "run_action p a = check ''base::Passed'' (p \<notin> set (as_resolved a)) (Inr (a\<lparr>as_resolved := p # as_resolved a\<rparr>))"

definition AppState_processStateChange ::
  "(AppState_State, event, promise) state_machine \<Rightarrow> build \<Rightarrow> event \<Rightarrow> AppState \<Rightarrow> (AppState \<times> bool) result" where
  "AppState_processStateChange P b processEvent a =
     (case P AppState_table (as_exit a) (as_entry a) (as_state a) processEvent of (ok, s, acts) \<Rightarrow>
        andThen (foldM run_action acts (a\<lparr>as_state := s\<rparr>)) (\<lambda>a.
          if \<not> ok then dcheck b ''false'' False (Inr (a, ok)) else Inr (a, ok)))"

definition promiseEntryOnce :: "event \<Rightarrow> AppState \<Rightarrow> AppState \<times> promise" where
  "promiseEntryOnce processEvent a =
     (let p = as_next_promise a;
          a = a\<lparr>as_next_promise := p + 1\<rparr>
      in (AddEntryAction TERMINATED p a, p))"

definition promiseExitOnce :: "event \<Rightarrow> AppState \<Rightarrow> AppState \<times> promise" where
  "promiseExitOnce processEvent a =
     (let p = as_next_promise a;
          a = a\<lparr>as_next_promise := p + 1\<rparr>
      in (AddEntryAction TERMINATED p a, p))"

definition AppState_delete :: "build \<Rightarrow> AppState \<Rightarrow> unit result" where
  "AppState_delete b a =
     dcheck b ''sm_.currentState()'' (as_state a \<in> {UNINITIALIZED, TERMINATED, FAILED}) (Inr ())"

interpretation app_lifecycle: lifecycle AppState_table UNINITIALIZED STARTED PAUSED TERMINATED FAILED
  START PAUSE TERMINATE FAULT
  by unfold_locales (auto simp: AppState_table_def split: event.splits)

subsection \<open>Sequences of state changes\<close>

fun process_events ::
  "(AppState_State, event, promise) state_machine \<Rightarrow> build \<Rightarrow> event list \<Rightarrow> AppState \<Rightarrow> AppState result" where
  "process_events P b [] a = Inr a"
| "process_events P b (e # es) a = andThen (AppState_processStateChange P b e a) (\<lambda>(a, ok). process_events P b es a)"

definition no_actions :: "AppState \<Rightarrow> bool" where
  "no_actions a = ((\<forall>s. as_entry a s = []) \<and> (\<forall>s. as_exit a s = []))"

lemma processStateChange_plain:
  assumes "follows_table P" and "no_actions a"
  shows "AppState_processStateChange P b e a =
    (case AppState_table (as_state a) e of
       Some t \<Rightarrow> Inr (a\<lparr>as_state := t\<rparr>, True)
     | None \<Rightarrow> if b = Debug then Inl (DCHECK ''false'') else Inr (a, False))"
proof (cases "AppState_table (as_state a) e")
  case None
  from follows_table_None [where P = P and T = AppState_table and s = "as_state a" and e = e
      and ex = "as_exit a" and en = "as_entry a", OF assms(1) None] show ?thesis
    by (simp add: AppState_processStateChange_def None dcheck_def)
next
  case (Some t)
  from follows_table_Some [where P = P and T = AppState_table and s = "as_state a" and e = e and t = t
      and ex = "as_exit a" and en = "as_entry a", OF assms(1) Some] assms(2) obtain acts where
    "P AppState_table (as_exit a) (as_entry a) (as_state a) e = (True, t, acts)" "acts = []"
    by (auto simp: no_actions_def)
  then show ?thesis by (simp add: AppState_processStateChange_def Some)
qed

lemma process_events_debug:
  assumes "follows_table P" and "no_actions a"
  shows "process_events P Debug es a =
    (case run_events AppState_table (as_state a) es of
       Some s \<Rightarrow> Inr (a\<lparr>as_state := s\<rparr>) | None \<Rightarrow> Inl (DCHECK ''false''))"
  using assms(2)
proof (induction es arbitrary: a)
  case Nil
  then show ?case by simp
next
  case (Cons e es)
  have keep: "no_actions (a\<lparr>as_state := t\<rparr>)" for t using Cons.prems by (simp add: no_actions_def)
  show ?case
    using Cons.IH [OF keep] by (simp add: processStateChange_plain [OF assms(1) Cons.prems] split: option.split)
qed

subsection \<open>Properties\<close>

text \<open>
  C38: the life of the application. In a debug build a sequence of state changes from the
  uninitialized state returns exactly when it is: start at most once and first, pause at most
  once and only right after the start, then any number of terminations, then any number of
  faults; the state is then the one of the last event. Any other sequence ends the process. In
  particular a paused application can not be started again, although the diagram in
  \<open>app_state.hpp\<close> has that transition.
\<close>

theorem app_state_runs:
  assumes "follows_table P"
  shows "(\<exists>a. process_events P Debug es (AppState_new UNINITIALIZED) = Inr a \<and> as_state a = s) \<longleftrightarrow>
    (\<exists>pre n m. pre \<in> {[], [START], [START, PAUSE]} \<and>
      es = pre @ replicate n TERMINATE @ replicate m FAULT \<and>
      s = (if 0 < m then FAILED else if 0 < n then TERMINATED
           else if pre = [] then UNINITIALIZED else if pre = [START] then STARTED else PAUSED))"
proof -
  have "no_actions (AppState_new UNINITIALIZED)" by (simp add: no_actions_def AppState_new_def)
  from process_events_debug [OF assms this, of es]
  have "(\<exists>a. process_events P Debug es (AppState_new UNINITIALIZED) = Inr a \<and> as_state a = s) \<longleftrightarrow>
      run_events AppState_table UNINITIALIZED es = Some s"
    by (auto simp: AppState_new_def split: option.splits)
  then show ?thesis by (simp only: app_lifecycle.accepted app_lifecycle.phase_of_def)
qed

theorem app_state_runs_witness:
  "\<not> (\<exists>a. process_events table_machine Debug [START, PAUSE, START] (AppState_new UNINITIALIZED) = Inr a \<and>
     as_state a = STARTED)"
  using app_state_runs [OF table_machine_follows, of "[START, PAUSE, START]" STARTED]
  by (auto simp: replicate_app_Cons_same Cons_eq_append_conv Cons_replicate_eq)

text \<open>
  \<open>promiseEntryOnce\<close> and \<open>promiseExitOnce\<close> are the same function, whatever event they are asked
  to wait for: both register an entry action of \<open>TERMINATED\<close>. Their promise is resolved by the
  first change to \<open>TERMINATED\<close>, and by no other state change before it.
\<close>

theorem app_promise_is_termination:
  assumes "follows_table P" and "no_actions a"
    and "AppState_table (as_state a) ev = Some t" and "t \<noteq> as_state a" and "p \<notin> set (as_resolved a)"
    and "promiseExitOnce awaited a = (a1, p)"
  shows "promiseEntryOnce awaited' a = (a1, p) \<and>
    (\<exists>a2. AppState_processStateChange P b ev a1 = Inr (a2, True) \<and> as_state a2 = t \<and>
      (p \<in> set (as_resolved a2) \<longleftrightarrow> t = TERMINATED))"
proof -
  have a1: "a1 = AddEntryAction TERMINATED p (a\<lparr>as_next_promise := p + 1\<rparr>)"
    using assms(6) by (auto simp: promiseExitOnce_def Let_def)
  have e: "as_exit a1 s = []" "as_entry a1 s = (if s = TERMINATED then [p] else [])" for s
    using assms(2) by (simp_all add: a1 AddEntryAction_def no_actions_def)
  have s: "as_state a1 = as_state a" "as_resolved a1 = as_resolved a"
    by (simp_all add: a1 AddEntryAction_def)
  from follows_table_Some [where P = P and T = AppState_table and s = "as_state a1" and e = ev and t = t
      and ex = "as_exit a1" and en = "as_entry a1", OF assms(1)] assms(3,4)
  have "P AppState_table (as_exit a1) (as_entry a1) (as_state a1) ev = (True, t, as_entry a1 t)"
    by (auto simp: s e(1))
  then show ?thesis
    using assms(5,6)
    by (auto simp: AppState_processStateChange_def e(2) run_action_def s promiseEntryOnce_def promiseExitOnce_def)
qed

theorem app_promise_is_termination_witness:
  "\<exists>a2. AppState_processStateChange table_machine Debug START
      (fst (promiseExitOnce START (AppState_new UNINITIALIZED))) = Inr (a2, True) \<and>
    0 \<notin> set (as_resolved a2)"
  using app_promise_is_termination [OF table_machine_follows, of "AppState_new UNINITIALIZED" START STARTED 0
      START "fst (promiseExitOnce START (AppState_new UNINITIALIZED))" TERMINATE Debug]
  by (auto simp: no_actions_def AppState_new_def AppState_table_def promiseExitOnce_def Let_def)

end
