(* ===== verification/Signal_Handler.thy ===== *)
theory Signal_Handler
  imports App_State "HOL-Library.Word"
begin

text \<open>
  The quit signals of the example server:
  \<open>examples/server/plugins/plugin_SignalHandler/src/signal_handler/signal_handler.cc\<close> (\<open>SignalHandler\<close>),
  \<open>plugin_SignalHandler/src/main_plugin_logic.cc\<close> (what a quit signal does) and
  \<open>plugin_BasicTerminalCommands/src/main_plugin_logic.cc\<close> (the console command \<open>stop\<close>).

  Signal numbers are the ones of Linux on x86. \<open>signal_step\<close> is the boost \<open>signal_set\<close> as
  documented: one \<open>async_wait\<close> is completed by one signal; signals that arrive while no wait is
  registered are queued in the set. Not modelled: histograms, logging (the log level \<open>verbose\<close>
  decides if a log statement evaluates its arguments).
\<close>

definition SIGINT :: int where "SIGINT = 2"
definition SIGQUIT :: int where "SIGQUIT = 3"
definition SIGTERM :: int where "SIGTERM = 15"
definition kSigMin :: int where "kSigMin = 1"
definition kSigMax :: int where "kSigMax = 31"

definition gSignalToName :: "(int \<times> string) list" where
  "gSignalToName = [(1, ''SIGHUP''), (2, ''SIGINT''), (3, ''SIGQUIT''), (4, ''SIGILL''), (5, ''SIGTRAP''),
     (6, ''SIGABRT''), (7, ''SIGBUS''), (8, ''SIGFPE''), (9, ''SIGKILL''), (10, ''SIGUSR1''),
     (11, ''SIGSEGV''), (12, ''SIGUSR2''), (13, ''SIGPIPE''), (14, ''SIGALRM''), (15, ''SIGTERM''),
     (16, ''SIGSTKFLT''), (17, ''SIGCHLD''), (18, ''SIGCONT''), (19, ''SIGSTOP''), (20, ''SIGTSTP''),
     (21, ''SIGTTIN''), (22, ''SIGTTOU''), (23, ''SIGURG''), (24, ''SIGXCPU''), (25, ''SIGXFSZ''),
     (26, ''SIGVTALRM''), (27, ''SIGPROF''), (28, ''SIGWINCH''), (29, ''SIGIO''), (30, ''SIGPWR''), (31, ''SIGSYS'')]"

text \<open>\<open>std::to_string(int)\<close>: decimal, with a sign for negative numbers.\<close>

definition digit :: "nat \<Rightarrow> char" where
  "digit n = ''0123456789'' ! n"

fun nat_to_string :: "nat \<Rightarrow> string" where
  "nat_to_string n = (if n < 10 then [digit n] else nat_to_string (n div 10) @ [digit (n mod 10)])"

declare nat_to_string.simps [simp del]

definition to_string :: "int \<Rightarrow> string" where
  "to_string i = (if i < 0 then CHR ''-'' # nat_to_string (nat (- i)) else nat_to_string (nat i))"

definition getSignalName :: "build \<Rightarrow> int \<Rightarrow> string result" where
  "getSignalName b signum =
     (let k = (case map_of gSignalToName signum of
         Some n \<Rightarrow> Inr n
       | None \<Rightarrow> Inr (''Unknown signal '' @ to_string signum))
      in if kSigMin \<le> signum \<and> signum \<le> kSigMax
         then dcheck b ''gSignalToName.find(signum)'' (map_of gSignalToName signum \<noteq> None) k else k)"

datatype signal_effect = RunQuitCb | ExitSuccess

record SignalHandler =
  signals_set :: "int list"
  signalCallbacks :: "int list"            \<comment> \<open>the keys; every value is \<open>handleQuitSignal\<close>\<close>
  quitCb :: bool                            \<comment> \<open>the \<open>OnceClosure\<close> has not run\<close>
  signalsRecievedCount :: "64 word"

text \<open>The constructor; it ends with \<open>async_wait(handleSignal)\<close>.\<close>

definition SignalHandler_new :: SignalHandler where
  "SignalHandler_new = \<lparr>signals_set = [SIGINT, SIGTERM, SIGQUIT], signalCallbacks = [SIGQUIT, SIGINT, SIGTERM],
     quitCb = True, signalsRecievedCount = 0\<rparr>"

definition handleQuitSignal ::
  "error_code \<Rightarrow> int \<Rightarrow> SignalHandler \<Rightarrow> (SignalHandler \<times> signal_effect list) result" where
  "handleQuitSignal errorCode signum h =
     (let h = h\<lparr>signalsRecievedCount := signalsRecievedCount h + 1\<rparr> in
      if signalsRecievedCount h > 3 then Inr (h, [ExitSuccess])
      else if signalsRecievedCount h > 1 then Inr (h, [])
      else requires ''quitCb_.Run()'' (quitCb h) (Inr (h\<lparr>quitCb := False\<rparr>, [RunQuitCb])))"

definition handleSignal ::
  "build \<Rightarrow> bool \<Rightarrow> error_code \<Rightarrow> int \<Rightarrow> SignalHandler \<Rightarrow> (SignalHandler \<times> signal_effect list) result" where
  "handleSignal b verbose errorCode signum h =
     andThen (if b = Debug \<and> verbose then getSignalName b signum else Inr [])
       (\<lambda>_. if signum \<in> set (signalCallbacks h) then handleQuitSignal errorCode signum h
            else andThen (getSignalName b signum) (\<lambda>_. Inr (h, [])))"

text \<open>What follows a quit signal, and the console command.\<close>

datatype main_loop_task = PostTerminationEvent

definition handleSigQuit :: "main_loop_task list" where
  "handleSigQuit = [PostTerminationEvent]"

definition handleConsoleInput :: "string \<Rightarrow> main_loop_task list" where
  "handleConsoleInput line = (if line = ''stop'' then [PostTerminationEvent] else [])"

definition handleTerminationEvent ::
  "(AppState_State, event, promise) state_machine \<Rightarrow> build \<Rightarrow> AppState \<Rightarrow> AppState result" where
  "handleTerminationEvent P b a =
     andThen (AppState_processStateChange P b TERMINATE a) (\<lambda>(a, ok). dcheck b ''result.ok()'' ok (Inr a))"

subsection \<open>Signals of the process\<close>

record signal_machine =
  sm_handler :: SignalHandler
  sm_waiting :: bool                        \<comment> \<open>an \<open>async_wait\<close> is registered\<close>
  sm_completions :: "int list"              \<comment> \<open>completed waits, on their way to \<open>handleSignal\<close>\<close>
  sm_undelivered :: "int list"              \<comment> \<open>signals queued in the set\<close>
  sm_log :: "signal_effect list"

definition signal_initial :: signal_machine where
  "signal_initial = \<lparr>sm_handler = SignalHandler_new, sm_waiting = True, sm_completions = [], sm_undelivered = [],
     sm_log = []\<rparr>"

inductive signal_step :: "build \<Rightarrow> bool \<Rightarrow> signal_machine result \<Rightarrow> signal_machine result \<Rightarrow> bool"
  for b :: build and verbose :: bool where
  signal_completes: "s \<in> set (signals_set (sm_handler m)) \<Longrightarrow> sm_waiting m \<Longrightarrow>
    signal_step b verbose (Inr m) (Inr (m\<lparr>sm_waiting := False, sm_completions := sm_completions m @ [s]\<rparr>))"
| signal_queued: "s \<in> set (signals_set (sm_handler m)) \<Longrightarrow> \<not> sm_waiting m \<Longrightarrow>
    signal_step b verbose (Inr m) (Inr (m\<lparr>sm_undelivered := sm_undelivered m @ [s]\<rparr>))"
| signal_handled: "sm_completions m = s # ss \<Longrightarrow>
    signal_step b verbose (Inr m)
      (map_sum id (\<lambda>(h, es). m\<lparr>sm_handler := h, sm_completions := ss, sm_log := sm_log m @ es\<rparr>)
        (handleSignal b verbose Success s (sm_handler m)))"

inductive_cases signal_stepE: "signal_step b verbose (Inr m) r"

abbreviation signal_reach where
  "signal_reach b verbose \<equiv> reach (\<lambda>m. m = Inr signal_initial) (signal_step b verbose)"

text \<open>The name of every signal is found without a failing check.\<close>

lemma signal_in_table: "kSigMin \<le> s \<Longrightarrow> s \<le> kSigMax \<Longrightarrow> map_of gSignalToName s \<noteq> None"
proof -
  assume "kSigMin \<le> s" "s \<le> kSigMax"
  then have "s \<in> {1..31}" by (simp add: kSigMin_def kSigMax_def)
  also have "{1..31} = set [1..31::int]" by simp
  also have "\<dots> = fst ` set gSignalToName" by (simp add: gSignalToName_def upto.simps)
  finally show ?thesis by (simp add: map_of_eq_None_iff)
qed

lemma getSignalName_returns: "\<exists>n. getSignalName b s = Inr n"
  using signal_in_table by (auto simp: getSignalName_def Let_def dcheck_def split: option.split)

lemma handleSignal_registered:
  "s \<in> set (signalCallbacks h) \<Longrightarrow> handleSignal b verbose ec s h = handleQuitSignal ec s h"
  using getSignalName_returns [of b s] by (auto simp: handleSignal_def)

subsection \<open>One signal is handled\<close>

definition signal_inv :: "signal_machine result \<Rightarrow> bool" where
  "signal_inv r = (\<exists>m. r = Inr m \<and> signals_set (sm_handler m) = [SIGINT, SIGTERM, SIGQUIT] \<and>
     signalCallbacks (sm_handler m) = [SIGQUIT, SIGINT, SIGTERM] \<and>
     (sm_waiting m \<and> sm_handler m = SignalHandler_new \<and> sm_completions m = [] \<and> sm_undelivered m = [] \<and> sm_log m = [] \<or>
      \<not> sm_waiting m \<and> sm_handler m = SignalHandler_new \<and> sm_log m = [] \<and>
        (\<exists>s \<in> {SIGINT, SIGTERM, SIGQUIT}. sm_completions m = [s]) \<or>
      \<not> sm_waiting m \<and> sm_completions m = [] \<and> sm_log m = [RunQuitCb] \<and>
        signalsRecievedCount (sm_handler m) = 1 \<and> \<not> quitCb (sm_handler m)))"

lemma signal_start: "signal_inv (Inr signal_initial)"
  by (simp add: signal_inv_def signal_initial_def SignalHandler_new_def)

lemma signal_first:
  assumes "s \<in> {SIGINT, SIGTERM, SIGQUIT}"
  shows "handleSignal b verbose Success s SignalHandler_new =
    Inr (SignalHandler_new\<lparr>signalsRecievedCount := 1, quitCb := False\<rparr>, [RunQuitCb])"
proof -
  from assms have "s \<in> set (signalCallbacks SignalHandler_new)" by (auto simp: SignalHandler_new_def)
  from handleSignal_registered [OF this] show ?thesis
    by (simp add: handleQuitSignal_def SignalHandler_new_def Let_def word_less_def)
qed

lemma signal_invariant_machine: "invariant_machine (\<lambda>m. m = Inr signal_initial) (signal_step b verbose) signal_inv"
proof unfold_locales
  fix r r' assume "signal_inv r" and step: "signal_step b verbose r r'"
  then obtain m where r: "r = Inr m" and inv: "signal_inv (Inr m)" by (auto simp: signal_inv_def)
  from step [unfolded r] show "signal_inv r'"
  proof (rule signal_stepE)
    fix s assume "r' = Inr (m\<lparr>sm_waiting := False, sm_completions := sm_completions m @ [s]\<rparr>)"
      "s \<in> set (signals_set (sm_handler m))" "sm_waiting m"
    with inv show ?thesis by (auto simp: signal_inv_def)
  next
    fix s assume "r' = Inr (m\<lparr>sm_undelivered := sm_undelivered m @ [s]\<rparr>)"
      "s \<in> set (signals_set (sm_handler m))" "\<not> sm_waiting m"
    with inv show ?thesis by (simp add: signal_inv_def)
  next
    fix s ss assume "r' = map_sum id (\<lambda>(h, es). m\<lparr>sm_handler := h, sm_completions := ss, sm_log := sm_log m @ es\<rparr>)
        (handleSignal b verbose Success s (sm_handler m))" and c: "sm_completions m = s # ss"
    moreover from inv c have "sm_handler m = SignalHandler_new" "ss = []" "\<not> sm_waiting m" "sm_log m = []"
      and s: "s \<in> {SIGINT, SIGTERM, SIGQUIT}"
      by (auto simp: signal_inv_def)
    ultimately show ?thesis
      by (simp only: signal_first [OF s]) (simp add: signal_inv_def SignalHandler_new_def)
  qed
qed (simp add: signal_start)

interpretation signals: invariant_machine "\<lambda>m. m = Inr signal_initial" "signal_step b verbose" signal_inv for b verbose
  by (rule signal_invariant_machine)

subsection \<open>Names\<close>

text \<open>Reading a name back.\<close>

definition char_value :: "char \<Rightarrow> nat" where
  "char_value c = of_char c - 48"

definition parse_nat :: "string \<Rightarrow> nat" where
  "parse_nat s = foldl (\<lambda>n c. 10 * n + char_value c) 0 s"

definition parse_int :: "string \<Rightarrow> int" where
  "parse_int s = (case s of [] \<Rightarrow> 0 | c # cs \<Rightarrow> if c = CHR ''-'' then - int (parse_nat cs) else int (parse_nat s))"

definition signal_of_name :: "string \<Rightarrow> int" where
  "signal_of_name n = (case map_of (map (\<lambda>(k, v). (v, k)) gSignalToName) n of
     Some s \<Rightarrow> s | None \<Rightarrow> parse_int (drop 15 n))"

lemma all_digits: "(\<forall>n < 10. P n) \<longleftrightarrow> P 0 \<and> P 1 \<and> P 2 \<and> P 3 \<and> P 4 \<and> P 5 \<and> P 6 \<and> P 7 \<and> P 8 \<and> P (9 :: nat)"
  by (simp add: numeral_eq_Suc less_Suc_eq_0_disj all_conj_distrib) (auto simp: less_Suc_eq)

lemma digit_facts: "n < 10 \<Longrightarrow> char_value (digit n) = n" "n < 10 \<Longrightarrow> digit n \<noteq> CHR ''-''"
proof -
  have "\<forall>n < 10. char_value (digit n) = n \<and> digit n \<noteq> CHR ''-''"
    unfolding all_digits by (simp add: digit_def char_value_def)
  then show "n < 10 \<Longrightarrow> char_value (digit n) = n" "n < 10 \<Longrightarrow> digit n \<noteq> CHR ''-''" by blast+
qed

lemma parse_nat_to_string: "parse_nat (nat_to_string n) = n"
  and hd_nat_to_string: "\<exists>c cs. nat_to_string n = c # cs \<and> c \<noteq> CHR ''-''"
proof (induction n rule: nat_to_string.induct)
  case (1 n)
  {
    case 1
    then show ?case using "1.IH" digit_facts(1) [of n] digit_facts(1) [of "n mod 10"]
      by (subst nat_to_string.simps) (simp add: parse_nat_def)
  next
    case 2
    then show ?case using "1.IH"(2) digit_facts(2) [of n]
      by (subst nat_to_string.simps) auto
  }
qed

lemma parse_to_string: "parse_int (to_string i) = i"
proof (cases "i < 0")
  case True
  then show ?thesis by (simp add: to_string_def parse_int_def parse_nat_to_string)
next
  case False
  obtain c cs where "nat_to_string (nat i) = c # cs" "c \<noteq> CHR ''-''" using hd_nat_to_string by blast
  with False parse_nat_to_string [of "nat i"] show ?thesis by (simp add: to_string_def parse_int_def)
qed

lemma table_inverse:
  assumes "map_of gSignalToName s = Some n"
  shows "map_of (map (\<lambda>(k, v). (v, k)) gSignalToName) n = Some s"
proof (rule map_of_is_SomeI)
  show "distinct (map fst (map (\<lambda>(k, v). (v, k)) gSignalToName))" by (simp add: gSignalToName_def)
  show "(n, s) \<in> set (map (\<lambda>(k, v). (v, k)) gSignalToName)"
    using map_of_SomeD [OF assms] by (force simp: image_iff)
qed

lemma unknown_not_in_table: "map_of (map (\<lambda>(k, v). (v, k)) gSignalToName) (''Unknown signal '' @ x) = None"
  by (simp add: gSignalToName_def)

subsection \<open>Properties\<close>

text \<open>
  The name of a signal identifies it. For every number, in both builds, \<open>getSignalName\<close> returns
  (its check never fails), and a reader that looks a name up in the table and otherwise reads the
  decimal number after the text gets the number back.
\<close>

theorem signal_name_roundtrip:
  "\<exists>n. getSignalName b signum = Inr n \<and> signal_of_name n = signum \<and>
    (map_of gSignalToName signum = None \<longleftrightarrow> signum < kSigMin \<or> kSigMax < signum)"
proof -
  have range: "map_of gSignalToName signum = None \<longleftrightarrow> signum < kSigMin \<or> kSigMax < signum"
  proof
    assume "map_of gSignalToName signum = None"
    with signal_in_table [of signum] show "signum < kSigMin \<or> kSigMax < signum" by linarith
  next
    assume "signum < kSigMin \<or> kSigMax < signum"
    then show "map_of gSignalToName signum = None" by (auto simp: gSignalToName_def kSigMin_def kSigMax_def)
  qed
  show ?thesis
  proof (cases "map_of gSignalToName signum")
    case None
    then have "getSignalName b signum = Inr (''Unknown signal '' @ to_string signum)"
      using range by (auto simp: getSignalName_def Let_def)
    moreover have "signal_of_name (''Unknown signal '' @ to_string signum) = signum"
      unfolding signal_of_name_def unknown_not_in_table by (simp add: parse_to_string)
    ultimately show ?thesis by (intro exI conjI range)
  next
    case (Some n)
    then have "getSignalName b signum = Inr n" by (simp add: getSignalName_def Let_def)
    moreover have "signal_of_name n = signum" using table_inverse [OF Some] by (simp add: signal_of_name_def)
    ultimately show ?thesis by (intro exI conjI range)
  qed
qed

text \<open>
  The count of quit signals. If \<open>handleQuitSignal\<close> were called for every quit signal, the first call would run
  the quit callback, the second and the third would be ignored, and every later call would exit the
  process; no call would run the callback twice. Here \<open>n\<close> calls have returned before, with \<open>n\<close> below the
  range of the counter.
\<close>

theorem quit_signal_count:
  assumes "n < 2 ^ 64 - 1"
  shows "\<exists>h. foldM (\<lambda>s h. andThen (handleQuitSignal Success s h) (\<lambda>(h, _). Inr h)) (replicate n SIGINT) SignalHandler_new = Inr h \<and>
    (\<exists>h'. handleQuitSignal ec s h =
      Inr (h', if n = 0 then [RunQuitCb] else if n < 3 then [] else [ExitSuccess]))"
proof -
  let ?f = "\<lambda>s h. andThen (handleQuitSignal Success s h) (\<lambda>(h, _). Inr h)"
  have one: "\<exists>h'. handleQuitSignal ec s h =
      Inr (h', if n = 0 then [RunQuitCb] else if n < 3 then [] else [ExitSuccess]) \<and>
      signalsRecievedCount h' = of_nat (Suc n) \<and> \<not> quitCb h'"
    if "n < 2 ^ 64 - 1" "signalsRecievedCount h = of_nat n" "quitCb h = (n = 0)" for n h ec s
  proof -
    have c: "(3 :: 64 word) < of_nat (Suc n) \<longleftrightarrow> 3 < Suc n" "(1 :: 64 word) < of_nat (Suc n) \<longleftrightarrow> 1 < Suc n"
      using that(1) by (simp_all only: word_less_nat_alt unat_of_nat) simp_all
    have "signalsRecievedCount h + 1 = of_nat (Suc n)" using that(2) by simp
    then show ?thesis
      using that(3) unfolding handleQuitSignal_def Let_def by (auto simp del: of_nat_Suc simp: c)
  qed
  have "\<exists>h. foldM ?f (replicate n SIGINT) SignalHandler_new = Inr h \<and>
      signalsRecievedCount h = of_nat n \<and> quitCb h = (n = 0)" if "n < 2 ^ 64" for n
    using that
  proof (induction n)
    case 0
    show ?case by (simp add: SignalHandler_new_def)
  next
    case (Suc n)
    obtain h where h: "foldM ?f (replicate n SIGINT) SignalHandler_new = Inr h"
      "signalsRecievedCount h = of_nat n" "quitCb h = (n = 0)" using Suc.IH Suc_lessD [OF Suc.prems] by blast
    from one [of n h Success SIGINT] Suc.prems h(2,3) obtain h' es where
      h': "handleQuitSignal Success SIGINT h = Inr (h', es)" "signalsRecievedCount h' = of_nat (Suc n)" "\<not> quitCb h'" by auto
    have "replicate (Suc n) SIGINT = replicate n SIGINT @ [SIGINT]" by (simp add: replicate_append_same)
    with h(1) h' show ?case by (simp add: foldM_append del: replicate_Suc)
  qed
  from this [of n] assms one [OF assms] show ?thesis by fastforce
qed

theorem quit_signal_count_witness:
  "\<exists>h. foldM (\<lambda>s h. andThen (handleQuitSignal Success s h) (\<lambda>(h, _). Inr h)) (replicate 3 SIGINT) SignalHandler_new = Inr h \<and>
    (\<exists>h'. handleQuitSignal Success SIGINT h = Inr (h', [ExitSuccess]))"
  using quit_signal_count [of 3 Success SIGINT] by simp

text \<open>
  C17: only the first signal is handled. In every run of the process, in both builds, the one
  \<open>async_wait\<close> of the constructor is completed by the first quit signal, which runs the quit callback;
  all later signals stay in the signal set. At most one signal is counted, so the forced exit that a
  fourth signal is meant to cause never happens, whatever the user does.
\<close>

theorem only_first_signal:
  assumes "signal_reach b verbose r"
  shows "\<exists>m. r = Inr m \<and> signalsRecievedCount (sm_handler m) \<le> 1 \<and> ExitSuccess \<notin> set (sm_log m) \<and>
    sm_log m \<in> {[], [RunQuitCb]} \<and> (sm_undelivered m \<noteq> [] \<longrightarrow> \<not> sm_waiting m) \<and>
    (\<not> sm_waiting m \<longrightarrow> sm_log m = [RunQuitCb] \<or> (\<exists>s. sm_completions m = [s] \<and>
      (\<exists>m'. signal_step b verbose (Inr m) (Inr m') \<and> sm_log m' = [RunQuitCb] \<and> sm_completions m' = [])))"
proof -
  from signals.reach_inv [OF assms] obtain m where m: "r = Inr m" and inv: "signal_inv (Inr m)"
    by (auto simp: signal_inv_def)
  have step: "\<exists>m'. signal_step b verbose (Inr m) (Inr m') \<and> sm_log m' = [RunQuitCb] \<and> sm_completions m' = []"
    if "sm_handler m = SignalHandler_new" "sm_log m = []" "s \<in> {SIGINT, SIGTERM, SIGQUIT}" "sm_completions m = [s]" for s
    using signal_handled [of m s "[]" b verbose] signal_first [OF that(3), of b verbose] that by auto
  have "signalsRecievedCount (sm_handler m) \<le> 1 \<and> ExitSuccess \<notin> set (sm_log m) \<and>
    sm_log m \<in> {[], [RunQuitCb]} \<and> (sm_undelivered m \<noteq> [] \<longrightarrow> \<not> sm_waiting m) \<and>
    (\<not> sm_waiting m \<longrightarrow> sm_log m = [RunQuitCb] \<or> (\<exists>s \<in> {SIGINT, SIGTERM, SIGQUIT}. sm_completions m = [s] \<and>
       sm_handler m = SignalHandler_new \<and> sm_log m = []))"
    using inv by (auto simp: signal_inv_def SignalHandler_new_def)
  with m step show ?thesis by blast
qed

theorem only_first_signal_witness:
  "\<exists>m. signal_reach Release False (Inr m) \<and> sm_undelivered m = [SIGINT, SIGINT, SIGINT] \<and>
    signalsRecievedCount (sm_handler m) \<le> 1"
proof -
  let ?m1 = "signal_initial\<lparr>sm_waiting := False, sm_completions := [SIGINT]\<rparr>"
  have "signal_reach Release False (Inr signal_initial)" by (rule reach_init) simp
  moreover have "signal_step Release False (Inr signal_initial) (Inr ?m1)"
    using signal_completes [of SIGINT signal_initial] by (simp add: signal_initial_def SignalHandler_new_def)
  ultimately have "signal_reach Release False (Inr ?m1)" by (rule reach_step)
  then have "signal_reach Release False (Inr (?m1\<lparr>sm_undelivered := replicate n SIGINT\<rparr>))" for n
  proof (induction n)
    case 0
    then show ?case by (simp add: signal_initial_def)
  next
    case (Suc n)
    then show ?case
      using signal_queued [of SIGINT "?m1\<lparr>sm_undelivered := replicate n SIGINT\<rparr>" Release False]
      by (auto simp: signal_initial_def SignalHandler_new_def replicate_append_same elim!: reach_step)
  qed
  from this [of 3] only_first_signal [OF this [of 3]] show ?thesis
    by (intro exI conjI) (assumption, simp_all add: numeral_3_eq_3)
qed

end
