(* ===== verification/Server_Main.thy ===== *)
theory Server_Main
  imports Plugin_Properties Signal_Handler
begin

text \<open>
  \<open>examples/server/src/main.cc\<close>: the life of the server process between \<open>setGlobals\<close> and
  \<open>unsetGlobals\<close>. The command line, the directory of the executable and \<open>AppendASCII\<close> are the
  fields of \<open>process_env\<close>. The continuations of the promise for the termination event are
  \<open>shutdownPluginManager\<close> and \<open>unsetGlobals\<close>. Not modelled: the registration of
  static plugins (\<open>loadStaticPlugins\<close>, \<open>unloadStaticPlugins\<close>: generated from \<open>codegen/static_plugins.hpp.in\<close>), \<open>initEnv\<close>, the metrics, the run loop.
\<close>

record process_env =
  dir_exe :: "string option"                  \<comment> \<open>\<open>PathService::Get(DIR_EXE)\<close>\<close>
  HasSwitch :: "string \<Rightarrow> bool"
  GetSwitchValueASCII :: "string \<Rightarrow> string"
  AppendASCII :: "string \<Rightarrow> string \<Rightarrow> string"

record globals =
  g_appState :: "AppState option"
  g_pluginManager :: "PluginManager option"

definition kDefaultPluginsConfigFilesDir :: string where
  "kDefaultPluginsConfigFilesDir = ''resources/configuration_files''"
definition kPluginsConfigFileSwitch :: string where "kPluginsConfigFileSwitch = ''plugins_conf''"
definition kRelativePluginsDir :: string where "kRelativePluginsDir = ''plugins''"
definition kPluginsDirSwitch :: string where "kPluginsDirSwitch = ''plugins_dir''"

definition setGlobals :: globals where
  "setGlobals = \<lparr>g_appState = Some (AppState_new UNINITIALIZED), g_pluginManager = Some PluginManager_new\<rparr>"

text \<open>\<open>registry().ctx<T>()\<close> of a type that was not set is outside its precondition.\<close>

definition registry_ctx :: "string \<Rightarrow> 'a option \<Rightarrow> ('a \<Rightarrow> 'b result) \<Rightarrow> 'b result" where
  "registry_ctx what v k = (case v of None \<Rightarrow> Inl (UNDEFINED what) | Some x \<Rightarrow> k x)"

definition startPluginManager ::
  "process_env \<Rightarrow> ('c, 'g) conf_api \<Rightarrow> 'c plugin_host \<Rightarrow> build \<Rightarrow> globals \<Rightarrow> (globals \<times> string task list) result" where
  "startPluginManager E C H b G =
     (let k = (\<lambda>dir. let
             pathToDirWithPlugins = (if HasSwitch E kPluginsDirSwitch then GetSwitchValueASCII E kPluginsDirSwitch
               else AppendASCII E dir kRelativePluginsDir);
             pathToPluginsConfFile = (if HasSwitch E kPluginsConfigFileSwitch
               then GetSwitchValueASCII E kPluginsConfigFileSwitch
               else AppendASCII E (AppendASCII E dir kDefaultPluginsConfigFilesDir) kPluginsConfigFileName)
           in registry_ctx ''PluginManager'' (g_pluginManager G) (\<lambda>pm.
                andThen (startup C H b pathToDirWithPlugins pathToPluginsConfFile [] pm)
                  (\<lambda>(pm, ts). Inr (G\<lparr>g_pluginManager := Some pm\<rparr>, ts))))
      in case dir_exe E of None \<Rightarrow> notreached b ''dir_exe'' (k []) | Some dir \<Rightarrow> k dir)"

definition shutdownPluginManager :: "globals \<Rightarrow> string task list result" where
  "shutdownPluginManager G = registry_ctx ''PluginManager'' (g_pluginManager G) shutdown"

definition unsetGlobals :: "build \<Rightarrow> globals \<Rightarrow> globals result" where
  "unsetGlobals b G = registry_ctx ''AppState'' (g_appState G) (\<lambda>a.
     andThen (AppState_delete b a) (\<lambda>_. Inr \<lparr>g_appState = None, g_pluginManager = None\<rparr>))"

text \<open>Returns the globals, the tasks of the startup (their promise is ignored) and the promise for the termination.\<close>

definition runServerAndPromiseQuit ::
  "(AppState_State, event, promise) state_machine \<Rightarrow> process_env \<Rightarrow> ('c, 'g) conf_api \<Rightarrow> 'c plugin_host \<Rightarrow> build \<Rightarrow>
   (globals \<times> string task list \<times> promise) result" where
  "runServerAndPromiseQuit P E C H b =
     (let G = setGlobals in
      registry_ctx ''AppState'' (g_appState G) (\<lambda>a.
      andThen (AppState_processStateChange P b START a) (\<lambda>(a, ok).
      dcheck b ''result.ok()'' ok
      (andThen (startPluginManager E C H b (G\<lparr>g_appState := Some a\<rparr>)) (\<lambda>(G, ts).
      registry_ctx ''AppState'' (g_appState G) (\<lambda>a.
        case promiseEntryOnce TERMINATE a of (a, p) \<Rightarrow> Inr (G\<lparr>g_appState := Some a\<rparr>, ts, p)))))))"

text \<open>
  The interface object of a plugin (\<open>MainPluginInterface\<close>, the same code in every plugin; here the one of
  \<open>plugin_AsioContextThreads\<close>): \<open>load\<close> makes the logic object, \<open>unload\<close> works on it and resets it
  once its own \<open>unload\<close> has finished.
\<close>

definition MainPluginInterface_load :: "'l \<Rightarrow> 'l option \<Rightarrow> 'l option" where
  "MainPluginInterface_load logic mainPluginLogic = Some logic"

definition MainPluginInterface_unload :: "build \<Rightarrow> 'l option \<Rightarrow> 'l option result" where
  "MainPluginInterface_unload b mainPluginLogic =
     dcheck b ''mainPluginLogic_'' (mainPluginLogic \<noteq> None)
       (requires ''mainPluginLogic_.value()'' (mainPluginLogic \<noteq> None) (Inr None))"

text \<open>The termination event on the globals, as the two plugins post it.\<close>

definition terminate :: "(AppState_State, event, promise) state_machine \<Rightarrow> build \<Rightarrow> globals \<Rightarrow> globals result" where
  "terminate P b G = registry_ctx ''AppState'' (g_appState G) (\<lambda>a.
     andThen (handleTerminationEvent P b a) (\<lambda>a. Inr (G\<lparr>g_appState := Some a\<rparr>)))"

lemma registry_ctx_Inr [result_simps]:
  "registry_ctx w v k = Inr y \<longleftrightarrow> (\<exists>x. v = Some x \<and> k x = Inr y)"
  by (cases v) (auto simp: registry_ctx_def)

lemma registry_ctx_Some [simp]: "registry_ctx w (Some x) k = k x"
  by (simp add: registry_ctx_def)

subsection \<open>From the start to the termination\<close>

definition server_running :: "globals \<Rightarrow> PluginManager \<Rightarrow> promise \<Rightarrow> bool" where
  "server_running G pm p = (\<exists>a. g_appState G = Some a \<and> g_pluginManager G = Some pm \<and> as_state a = STARTED \<and>
     as_resolved a = [] \<and> (\<forall>s. as_exit a s = []) \<and> (\<forall>s. as_entry a s = (if s = TERMINATED then [p] else [])))"

lemma startPluginManager_Inr:
  assumes "startPluginManager E C H b G = Inr (G', ts)" and "g_pluginManager G = Some PluginManager_new"
  obtains dir conf pm where "startup C H b dir conf [] PluginManager_new = Inr (pm, ts)"
    and "G' = G\<lparr>g_pluginManager := Some pm\<rparr>"
  using assms by (auto simp: startPluginManager_def Let_def result_simps split: option.splits)

lemma server_started:
  assumes "follows_table P" and "runServerAndPromiseQuit P E C H b = Inr (G, ts, p)"
  obtains dir conf pm where "startup C H b dir conf [] PluginManager_new = Inr (pm, ts)" and "server_running G pm p"
proof -
  have plain: "no_actions (AppState_new UNINITIALIZED)" by (simp add: no_actions_def AppState_new_def)
  have "AppState_processStateChange P b START (AppState_new UNINITIALIZED) =
      Inr ((AppState_new UNINITIALIZED)\<lparr>as_state := STARTED\<rparr>, True)"
    using processStateChange_plain [OF assms(1) plain, of b START] by (simp add: AppState_table_def AppState_new_def)
  with assms(2) obtain G1 where
    G1: "startPluginManager E C H b (setGlobals\<lparr>g_appState := Some ((AppState_new UNINITIALIZED)\<lparr>as_state := STARTED\<rparr>)\<rparr>) =
        Inr (G1, ts)"
    and G: "registry_ctx ''AppState'' (g_appState G1) (\<lambda>a.
        case promiseEntryOnce TERMINATE a of (a, p) \<Rightarrow> Inr (G1\<lparr>g_appState := Some a\<rparr>, ts, p)) = Inr (G, ts, p)"
    by (auto simp: runServerAndPromiseQuit_def setGlobals_def promiseEntryOnce_def Let_def result_simps)
  obtain dir conf pm where s: "startup C H b dir conf [] PluginManager_new = Inr (pm, ts)"
    and pm: "G1 = setGlobals\<lparr>g_appState := Some ((AppState_new UNINITIALIZED)\<lparr>as_state := STARTED\<rparr>), g_pluginManager := Some pm\<rparr>"
    by (rule startPluginManager_Inr [OF G1]) (simp_all add: setGlobals_def)
  from G pm have "server_running G pm p"
    by (auto simp: server_running_def promiseEntryOnce_def AddEntryAction_def AppState_new_def Let_def)
  with s that show thesis by blast
qed

lemma server_terminates:
  assumes "follows_table P" and "server_running G pm p"
  shows "\<exists>G' a. terminate P b G = Inr G' \<and> g_pluginManager G' = Some pm \<and> g_appState G' = Some a \<and>
    as_state a = TERMINATED \<and> as_resolved a = [p]"
proof -
  from assms(2) obtain a where a: "g_appState G = Some a" "g_pluginManager G = Some pm" "as_state a = STARTED"
    "as_resolved a = []" "\<And>s. as_exit a s = []" "\<And>s. as_entry a s = (if s = TERMINATED then [p] else [])"
    by (auto simp: server_running_def)
  from follows_table_Some [where P = P and T = AppState_table and s = "as_state a" and e = TERMINATE and t = TERMINATED
      and ex = "as_exit a" and en = "as_entry a", OF assms(1)] a
  have "P AppState_table (as_exit a) (as_entry a) STARTED TERMINATE = (True, TERMINATED, [p])"
    by (auto simp: AppState_table_def)
  with a show ?thesis
    by (simp add: terminate_def handleTerminationEvent_def AppState_processStateChange_def run_action_def)
qed

subsection \<open>Properties\<close>

text \<open>
  C18: the life of the server. After \<open>runServerAndPromiseQuit\<close> has returned the state is \<open>STARTED\<close> and the promise for
  the termination is open. The first quit signal posts the termination event; that event returns, moves the
  state to \<open>TERMINATED\<close> and resolves the promise, and then the two continuations \<open>shutdownPluginManager\<close> and
  \<open>unsetGlobals\<close> return. Without a termination \<open>unsetGlobals\<close> ends a process with checks.
\<close>

theorem server_life:
  assumes "follows_table P" and "runServerAndPromiseQuit P E C H b = Inr (G, ts, p)"
    and "s \<in> {SIGINT, SIGTERM, SIGQUIT}"
  shows "\<exists>h. handleSignal b verbose Success s SignalHandler_new = Inr (h, [RunQuitCb]) \<and>
    handleSigQuit = [PostTerminationEvent] \<and>
    (\<exists>a. g_appState G = Some a \<and> as_state a = STARTED \<and> p \<notin> set (as_resolved a)) \<and>
    (\<exists>G' a us. terminate P b G = Inr G' \<and> g_appState G' = Some a \<and> as_state a = TERMINATED \<and> p \<in> set (as_resolved a) \<and>
      shutdownPluginManager G' = Inr us \<and> unsetGlobals b G' = Inr \<lparr>g_appState = None, g_pluginManager = None\<rparr>) \<and>
    (b = Debug \<longrightarrow> (\<exists>e. unsetGlobals b G = Inl e))"
proof -
  obtain dir conf pm where s: "startup C H b dir conf [] PluginManager_new = Inr (pm, ts)" and run: "server_running G pm p"
    by (rule server_started [OF assms(1,2)])
  from server_terminates [OF assms(1) run, of b] obtain G' a where
    t: "terminate P b G = Inr G'" "g_pluginManager G' = Some pm" "g_appState G' = Some a"
      "as_state a = TERMINATED" "as_resolved a = [p]" by blast
  have "shutdownPluginManager G' = Inr (map unload_task (rev (loaded_plugins pm)))"
    using startup_shutdown [OF s] t(2) by (simp add: shutdownPluginManager_def)
  moreover have "unsetGlobals b G' = Inr \<lparr>g_appState = None, g_pluginManager = None\<rparr>"
    using t(3,4) by (simp add: unsetGlobals_def AppState_delete_def)
  moreover have "b = Debug \<longrightarrow> (\<exists>e. unsetGlobals b G = Inl e)"
    using run by (auto simp: server_running_def unsetGlobals_def AppState_delete_def)
  moreover have "\<exists>a. g_appState G = Some a \<and> as_state a = STARTED \<and> p \<notin> set (as_resolved a)"
    using run by (auto simp: server_running_def)
  ultimately show ?thesis
    using signal_first [OF assms(3)] t by (auto simp: handleSigQuit_def)
qed

text \<open>A server with the plugins \<open>A\<close> and \<open>B\<close>, of which \<open>A\<close> depends on \<open>B\<close>.\<close>

definition demo_env :: process_env where
  "demo_env = \<lparr>dir_exe = Some ''bin'', HasSwitch = (\<lambda>_. False), GetSwitchValueASCII = (\<lambda>_. []),
     AppendASCII = (\<lambda>d n. d @ ''/'' @ n)\<rparr>"

lemma demo_startup_in:
  assumes "dir \<noteq> []" and "conf \<noteq> []"
  shows "\<exists>pm. startup demo_conf_api (demo_plugin_host (demo_conf [''B'']) []) b dir conf [] PluginManager_new =
    Inr (pm, [load_task demo_A, load_task demo_B]) \<and> loaded_plugins pm = [demo_A, demo_B]"
  using assms by (simp add: demo_plugin_simps demo_A_def demo_B_def)

lemma demo_server:
  "\<exists>G pm. runServerAndPromiseQuit table_machine demo_env demo_conf_api (demo_plugin_host (demo_conf [''B'']) []) b =
    Inr (G, [load_task demo_A, load_task demo_B], 0) \<and> g_pluginManager G = Some pm \<and> loaded_plugins pm = [demo_A, demo_B]"
proof -
  let ?d = "''bin/plugins''" and ?c = "''bin/resources/configuration_files/plugins.conf''"
  obtain pm where s: "startup demo_conf_api (demo_plugin_host (demo_conf [''B'']) []) b ?d ?c [] PluginManager_new =
    Inr (pm, [load_task demo_A, load_task demo_B])" "loaded_plugins pm = [demo_A, demo_B]"
    using demo_startup_in [of ?d ?c] by auto
  have "no_actions (AppState_new UNINITIALIZED)" by (simp add: no_actions_def AppState_new_def)
  from processStateChange_plain [OF table_machine_follows this, of b START] s show ?thesis
    by (simp add: runServerAndPromiseQuit_def startPluginManager_def setGlobals_def demo_env_def Let_def AppState_table_def
        AppState_new_def kPluginsDirSwitch_def kRelativePluginsDir_def kPluginsConfigFileSwitch_def
        kDefaultPluginsConfigFilesDir_def kPluginsConfigFileName_def promiseEntryOnce_def AddEntryAction_def)
qed

theorem server_life_witness:
  "\<exists>G ts G' us. runServerAndPromiseQuit table_machine demo_env demo_conf_api (demo_plugin_host (demo_conf [''B'']) []) Debug =
      Inr (G, ts, 0) \<and> terminate table_machine Debug G = Inr G' \<and> shutdownPluginManager G' = Inr us \<and>
      unsetGlobals Debug G' = Inr \<lparr>g_appState = None, g_pluginManager = None\<rparr>"
proof -
  obtain G where r: "runServerAndPromiseQuit table_machine demo_env demo_conf_api (demo_plugin_host (demo_conf [''B'']) []) Debug =
    Inr (G, [load_task demo_A, load_task demo_B], 0)" using demo_server by blast
  from server_life [OF table_machine_follows r, of SIGINT False] r show ?thesis by auto
qed

text \<open>
  C16: the shutdown does not wait for the startup. If the termination event arrives while a plugin
  still waits for its dependencies, and no plugin depends on it, \<open>shutdown\<close> starts its \<open>unload\<close> at once
  although its \<open>load\<close> was never called: the logic object that \<open>unload\<close> works on does not
  exist, and the call does not return in either build.
\<close>

theorem early_quit_unloads_unloaded:
  assumes "follows_table P" and "runServerAndPromiseQuit P E C H b = Inr (G, ts, p)"
    and "task_reach ts l" and "g_pluginManager G = Some pm" and "md \<in> set (loaded_plugins pm)"
    and "d \<in> set (dependsOn md)" and "Finished d \<notin> set l" and "requiredBy md = []"
  shows "Started (pluginName md) \<notin> set l \<and>
    (\<exists>G' us. terminate P b G = Inr G' \<and> shutdownPluginManager G' = Inr us \<and>
      task_step us [] [Started (pluginName md)]) \<and>
    (\<exists>e. MainPluginInterface_unload b None = Inl e)"
proof -
  obtain dir conf pm' where s: "startup C H b dir conf [] PluginManager_new = Inr (pm', ts)" and run: "server_running G pm' p"
    by (rule server_started [OF assms(1,2)])
  with assms(4) have pm: "pm' = pm" by (auto simp: server_running_def)
  from server_terminates [OF assms(1) run, of b] obtain G' where
    t: "terminate P b G = Inr G'" "g_pluginManager G' = Some pm" unfolding pm by blast
  let ?us = "map unload_task (rev (loaded_plugins pm))"
  have "shutdownPluginManager G' = Inr ?us"
    using startup_shutdown [OF s] t(2) by (simp add: shutdownPluginManager_def pm)
  moreover have "task_step ?us [] [Started (pluginName md)]"
    using task_begins [of "unload_task md" ?us "[]"] assms(5,8) by simp
  moreover have "Started (pluginName md) \<notin> set l"
  proof
    assume "Started (pluginName md) \<in> set l"
    then obtain xs ys where l: "l = xs @ Started (pluginName md) # ys" using split_list by fastforce
    from load_order [OF s] assms(3,5,6) l have "Finished d \<in> set xs" by (simp add: pm)
    with l assms(7) show False by simp
  qed
  moreover have "\<exists>e. MainPluginInterface_unload b None = Inl e"
    by (cases b) (simp_all add: MainPluginInterface_unload_def)
  ultimately show ?thesis using t(1) by blast
qed

theorem early_quit_unloads_unloaded_witness:
  "\<exists>G G' us. runServerAndPromiseQuit table_machine demo_env demo_conf_api (demo_plugin_host (demo_conf [''B'']) []) Release =
      Inr (G, [load_task demo_A, load_task demo_B], 0) \<and>
    terminate table_machine Release G = Inr G' \<and> shutdownPluginManager G' = Inr us \<and> task_step us [] [Started ''A'']"
proof -
  obtain G pm where r: "runServerAndPromiseQuit table_machine demo_env demo_conf_api (demo_plugin_host (demo_conf [''B'']) [])
      Release = Inr (G, [load_task demo_A, load_task demo_B], 0)" "g_pluginManager G = Some pm"
    "loaded_plugins pm = [demo_A, demo_B]" using demo_server by blast
  have "task_reach [load_task demo_A, load_task demo_B] []" by (rule reach_init) simp
  from early_quit_unloads_unloaded [OF table_machine_follows r(1) this r(2), of demo_A "''B''"] r show ?thesis
    by (auto simp: demo_A_def)
qed

end
