(* ===== verification/Process_Metrics.thy ===== *)
theory Process_Metrics
  imports Std_Map "HOL-Library.Word"
begin

text \<open>
  \<open>finishProcessMetrics\<close> of \<open>examples/server/src/main.cc\<close>: what the server reports about its process when it ends.
  \<open>size_t\<close> is 64 bits, \<open>int\<close> and a histogram sample are 32 bits.

  Parameters: what \<open>base::ProcessMetrics\<close> and the sampling profiler of the heap answer (\<open>process_usage\<close>), the module of an
  address (\<open>ModuleCache\<close>), the saturating arithmetic of \<open>base/numerics\<close> (\<open>base_numerics\<close> with \<open>numerics_ok\<close> as its documentation), and
  \<open>llround\<close> of the quotient of two \<open>double\<close>s. The histograms and the log are the effects.
\<close>

record heap_sample =
  sample_size :: "64 word"
  sample_total :: "64 word"
  sample_stack :: "64 word list"

record 'm process_usage =
  disk_usage :: "64 word"
  malloc_usage :: "64 word"
  cpu_usage :: "64 word"
  heap_samples :: "heap_sample list"
  GetModuleForAddress :: "64 word \<Rightarrow> 'm option"
  GetModules :: "'m list"                          \<comment> \<open>the modules in the cache after the lookups\<close>

record base_numerics =
  ClampAdd :: "64 word \<Rightarrow> 64 word \<Rightarrow> 64 word"
  saturated_cast_int :: "64 word \<Rightarrow> 32 word"
  llround_quotient :: "64 word \<Rightarrow> 64 word \<Rightarrow> 64 word"

definition numerics_ok :: "base_numerics \<Rightarrow> bool" where
  "numerics_ok N = ((\<forall>a b. uint (ClampAdd N a b) = min (uint a + uint b) (2 ^ 64 - 1)) \<and>
     (\<forall>x. sint (saturated_cast_int N x) = min (uint x) (2 ^ 31 - 1)))"

datatype 'm metrics_effect =
    UmaHistogramMemoryMB string "32 word"
  | UmaHistogramMemoryLargeMB string "32 word"
  | UmaHistogramCustomCounts string "32 word" nat nat nat
  | LogSampleTotal "64 word"
  | LogSampleCount "64 word"
  | LogSum "64 word"
  | LogModule 'm

subsection \<open>Memory and processor\<close>

definition disk_usage_mb :: "base_numerics \<Rightarrow> 64 word \<Rightarrow> 32 word" where
  "disk_usage_mb N usage = saturated_cast_int N (ClampAdd N usage (1024 * 1024 div 2) div (1024 * 1024))"

definition malloc_usage_mb :: "64 word \<Rightarrow> 32 word" where
  "malloc_usage_mb usage = ucast (drop_bit 20 usage)"

definition usage_histograms :: "base_numerics \<Rightarrow> 'm process_usage \<Rightarrow> 'm metrics_effect list" where
  "usage_histograms N p =
     [UmaHistogramMemoryMB ''App.DiskUsage'' (disk_usage_mb N (disk_usage p)),
      UmaHistogramMemoryLargeMB ''App.Memory.HeapProfiler.Malloc'' (malloc_usage_mb (malloc_usage p)),
      UmaHistogramCustomCounts ''App.AverageCPUUsage'' (ucast (cpu_usage p)) 1 6400 50]"

subsection \<open>The samples of the heap\<close>

text \<open>One sample: every frame and its module are valid pointers, then the two log lines.\<close>

definition report_sample ::
  "base_numerics \<Rightarrow> build \<Rightarrow> 'm process_usage \<Rightarrow> heap_sample \<Rightarrow> 'm metrics_effect list \<Rightarrow> 'm metrics_effect list result" where
  "report_sample N b p sample log =
     andThen (foldM (\<lambda>frame _. dcheck b ''DCHECK_VALID_PTR(frame)'' (frame \<noteq> 0)
         (dcheck b ''DCHECK_VALID_PTR(module)'' (GetModuleForAddress p frame \<noteq> None) (Inr ()))) (sample_stack sample) ())
       (\<lambda>_. Inr (log @ [LogSampleTotal (sample_total sample),
          LogSampleCount (max (llround_quotient N (sample_total sample) (sample_size sample)) 1)]))"

text \<open>\<open>m[k] += x\<close>: \<open>operator[]\<close> makes a zero entry if there is none.\<close>

definition std_map_plus :: "64 word \<Rightarrow> 64 word \<Rightarrow> (64 word, 64 word) std_map \<Rightarrow> (64 word, 64 word) std_map" where
  "std_map_plus k x m = std_map_put (<) k ((case std_map_find (<) k m of None \<Rightarrow> 0 | Some y \<Rightarrow> y) + x) m"

definition h_buckets :: "heap_sample list \<Rightarrow> (64 word, 64 word) std_map" where
  "h_buckets samples = fold (\<lambda>s. std_map_plus (sample_size s) (sample_total s)) samples []"

definition h_sums :: "(64 word, 64 word) std_map \<Rightarrow> (64 word, 64 word) std_map" where
  "h_sums buckets = fold (\<lambda>(k, v). std_map_plus k v) buckets []"

definition finishProcessMetrics :: "base_numerics \<Rightarrow> build \<Rightarrow> 'm process_usage \<Rightarrow> 'm metrics_effect list result" where
  "finishProcessMetrics N b p =
     (let samples = heap_samples p; log = usage_histograms N p in
      if samples = [] then Inr log
      else andThen (foldM (report_sample N b p) samples log) (\<lambda>log.
        Inr (log @ map (\<lambda>(_, v). LogSum v) (h_sums (h_buckets samples)) @ map LogModule (GetModules p))))"

subsection \<open>The two maps\<close>

interpretation size_map: strict_weak_order "(<) :: 64 word \<Rightarrow> 64 word \<Rightarrow> bool"
  by unfold_locales auto

lemma plus_ok: "std_map_ok (<) m \<Longrightarrow> std_map_ok (<) (std_map_plus k x m)"
  by (simp add: std_map_plus_def size_map.put_ok)

text \<open>A sorted map as the table of a function over the sorted list of its keys.\<close>

definition tabulate :: "64 word set \<Rightarrow> (64 word \<Rightarrow> 64 word) \<Rightarrow> (64 word, 64 word) std_map" where
  "tabulate K f = map (\<lambda>k. (k, f k)) (sorted_list_of_set K)"

lemma find_sorted_keys:
  "sorted_wrt (<) ks \<Longrightarrow> std_map_find (<) k (map (\<lambda>k. (k, f k)) ks) = (if k \<in> set ks then Some (f k) else None)"
  for ks :: "64 word list"
  by (induction ks) auto

lemma put_sorted_keys:
  "sorted_wrt (<) ks \<Longrightarrow> std_map_put (<) k v (map (\<lambda>k. (k, f k)) ks) =
    map (\<lambda>j. (j, if j = k then v else f j)) (if k \<in> set ks then ks else insort k ks)" for ks :: "64 word list"
  by (induction ks) (auto simp: not_less_iff_gr_or_eq)

lemma tabulate_plus:
  assumes "finite K"
  shows "std_map_plus k x (tabulate K f) = tabulate (insert k K) (\<lambda>j. if j = k then (if k \<in> K then f k else 0) + x else f j)"
proof -
  have s: "sorted_wrt (<) (sorted_list_of_set K)" by simp
  have "(if k \<in> K then sorted_list_of_set K else insort k (sorted_list_of_set K)) = sorted_list_of_set (insert k K)"
    using assms by (cases "k \<in> K") (simp_all add: insert_absorb)
  then show ?thesis
    using assms by (simp add: std_map_plus_def tabulate_def find_sorted_keys [OF s] put_sorted_keys [OF s])
qed

lemma tabulate_cong: "(\<And>k. k \<in> K \<Longrightarrow> f k = g k) \<Longrightarrow> finite K \<Longrightarrow> tabulate K f = tabulate K g"
  by (simp add: tabulate_def)

definition bucket_sum :: "heap_sample list \<Rightarrow> 64 word \<Rightarrow> 64 word" where
  "bucket_sum samples k = (\<Sum>s \<leftarrow> filter (\<lambda>s. sample_size s = k) samples. sample_total s)"

lemma h_buckets_table: "h_buckets samples = tabulate (sample_size ` set samples) (bucket_sum samples)"
proof (induction samples rule: rev_induct)
  case Nil
  then show ?case by (simp add: h_buckets_def tabulate_def)
next
  case (snoc s samples)
  have "bucket_sum samples k = 0" if "k \<notin> sample_size ` set samples" for k
  proof -
    have "filter (\<lambda>s. sample_size s = k) samples = []" using that by (auto simp: filter_empty_conv)
    then show ?thesis by (simp add: bucket_sum_def)
  qed
  then have "tabulate (sample_size ` set (samples @ [s])) (\<lambda>j. if j = sample_size s
      then (if sample_size s \<in> sample_size ` set samples then bucket_sum samples (sample_size s) else 0) + sample_total s
      else bucket_sum samples j) = tabulate (sample_size ` set (samples @ [s])) (bucket_sum (samples @ [s]))"
    by (intro tabulate_cong) (auto simp: bucket_sum_def)
  then show ?case using snoc by (simp add: h_buckets_def tabulate_plus)
qed

lemma h_sums_same: "h_sums (tabulate (set ks) f) = tabulate (set ks) f"
proof -
  have "fold (\<lambda>(k, v). std_map_plus k v) (map (\<lambda>k. (k, f k)) js) (tabulate (set is) f) = tabulate (set (is @ js)) f"
    if "distinct (is @ js)" for "is" js
    using that
  proof (induction js arbitrary: "is")
    case Nil
    then show ?case by simp
  next
    case (Cons j js)
    then have "tabulate (insert j (set is)) (\<lambda>i. if i = j then (if j \<in> set is then f j else 0) + f j else f i) =
      tabulate (set (is @ [j])) f" by (auto simp: tabulate_def)
    with Cons.IH [of "is @ [j]"] Cons.prems show ?case by (simp add: tabulate_plus)
  qed
  from this [of "[]" "sorted_list_of_set (set ks)"] show ?thesis
    by (simp add: h_sums_def tabulate_def)
qed

lemma report_samples:
  assumes "b = Debug \<Longrightarrow> \<forall>s \<in> set samples. \<forall>a \<in> set (sample_stack s). a \<noteq> 0 \<and> GetModuleForAddress p a \<noteq> None"
  shows "foldM (report_sample N b p) samples log = Inr (log @ concat (map (\<lambda>s. [LogSampleTotal (sample_total s),
    LogSampleCount (max (llround_quotient N (sample_total s) (sample_size s)) 1)]) samples))"
  using assms
proof (induction samples arbitrary: log)
  case Nil
  then show ?case by simp
next
  case (Cons s samples)
  have "foldM (\<lambda>frame _. dcheck b ''DCHECK_VALID_PTR(frame)'' (frame \<noteq> 0)
         (dcheck b ''DCHECK_VALID_PTR(module)'' (GetModuleForAddress p frame \<noteq> None) (Inr ()))) fs () = Inr ()"
    if "b = Debug \<Longrightarrow> \<forall>a \<in> set fs. a \<noteq> 0 \<and> GetModuleForAddress p a \<noteq> None" for fs
    using that by (induction fs) (auto simp: dcheck_def)
  from this [of "sample_stack s"] Cons show ?case by (simp add: report_sample_def)
qed

subsection \<open>Properties\<close>

text \<open>
  The report on the heap. With valid frames the report returns in both builds and its sums are, once for each distinct size
  and in increasing order of the sizes, the sum modulo \<open>2^64\<close> of the totals of all samples of that size; the second map is a copy of
  the first. A sample with an invalid frame ends a process with checks.
\<close>

theorem heap_report_sums:
  assumes "heap_samples p \<noteq> []"
    and "b = Release \<or> (\<forall>s \<in> set (heap_samples p). \<forall>a \<in> set (sample_stack s). a \<noteq> 0 \<and> GetModuleForAddress p a \<noteq> None)"
  shows "\<exists>log. finishProcessMetrics N b p = Inr (usage_histograms N p @ log @
      map LogSum (map (bucket_sum (heap_samples p)) (sorted_list_of_set (sample_size ` set (heap_samples p)))) @
      map LogModule (GetModules p)) \<and> length log = 2 * length (heap_samples p) \<and>
    h_sums (h_buckets (heap_samples p)) = h_buckets (heap_samples p)"
proof -
  have tab: "h_buckets (heap_samples p) = tabulate (set (map sample_size (heap_samples p))) (bucket_sum (heap_samples p))"
    using h_buckets_table [of "heap_samples p"] by simp
  then have same: "h_sums (h_buckets (heap_samples p)) = h_buckets (heap_samples p)" by (simp only: h_sums_same)
  define per :: "heap_sample \<Rightarrow> 'a metrics_effect list" where "per s = [LogSampleTotal (sample_total s),
    LogSampleCount (max (llround_quotient N (sample_total s) (sample_size s)) 1)]" for s
  have "foldM (report_sample N b p) (heap_samples p) (usage_histograms N p) =
      Inr (usage_histograms N p @ concat (map per (heap_samples p)))"
    unfolding per_def using assms(2) by (intro report_samples) auto
  moreover have "length (concat (map per ss)) = 2 * length ss" for ss
    by (induction ss) (simp_all add: per_def)
  ultimately show ?thesis
    using assms(1) same tab by (auto simp: finishProcessMetrics_def Let_def tabulate_def comp_def)
qed

definition demo_usage :: "nat process_usage" where
  "demo_usage = \<lparr>disk_usage = 3 * 2 ^ 19, malloc_usage = 2 ^ 51, cpu_usage = 50,
     heap_samples = [\<lparr>sample_size = 32, sample_total = 64, sample_stack = [4096]\<rparr>,
       \<lparr>sample_size = 16, sample_total = 16, sample_stack = []\<rparr>, \<lparr>sample_size = 32, sample_total = 32, sample_stack = []\<rparr>],
     GetModuleForAddress = (\<lambda>_. Some 0), GetModules = [0]\<rparr>"

definition demo_numerics :: base_numerics where
  "demo_numerics = \<lparr>ClampAdd = (\<lambda>a b. word_of_int (min (uint a + uint b) (2 ^ 64 - 1))),
     saturated_cast_int = (\<lambda>x. word_of_int (min (uint x) (2 ^ 31 - 1))), llround_quotient = (\<lambda>a b. a div b)\<rparr>"

theorem heap_report_sums_witness:
  "\<exists>log. finishProcessMetrics demo_numerics Debug demo_usage = Inr (usage_histograms demo_numerics demo_usage @ log @ [LogSum 16, LogSum 96, LogModule 0])"
proof -
  have "sample_size ` set (heap_samples demo_usage) = set [16, 32]" by (auto simp: demo_usage_def)
  then have "sorted_list_of_set (sample_size ` set (heap_samples demo_usage)) = [16, 32]"
    by (simp only: sorted_list_of_set_sort_remdups) simp
  with heap_report_sums [of demo_usage Debug demo_numerics] show ?thesis
    by (auto simp: bucket_sum_def) (auto simp: demo_usage_def)
qed

text \<open>
  The memory that is reported. The disk usage is rounded to the nearest megabyte and stops at the largest \<open>int\<close>; the memory of
  \<open>malloc\<close> is rounded down, and is right for less than two pebibytes: from there on, up to four, the sample is negative.
\<close>

theorem memory_samples:
  assumes "numerics_ok N"
  shows "sint (disk_usage_mb N u) = min ((uint u + 2 ^ 19) div 2 ^ 20) (2 ^ 31 - 1) \<and>
    (sint (malloc_usage_mb v) = uint v div 2 ^ 20 \<longleftrightarrow> uint v < 2 ^ 51) \<and>
    (2 ^ 51 \<le> uint v \<and> uint v < 2 ^ 52 \<longrightarrow> sint (malloc_usage_mb v) < 0)"
proof -
  have "uint (ClampAdd N u (1024 * 1024 div 2) div (1024 * 1024)) = min (uint u + 2 ^ 19) (2 ^ 64 - 1) div 2 ^ 20"
    using assms by (simp add: numerics_ok_def uint_div)
  then have "sint (disk_usage_mb N u) = min (min (uint u + 2 ^ 19) (2 ^ 64 - 1) div 2 ^ 20) (2 ^ 31 - 1)"
    using assms by (simp add: numerics_ok_def disk_usage_mb_def)
  also have "\<dots> = min ((uint u + 2 ^ 19) div 2 ^ 20) (2 ^ 31 - 1)"
    using zdiv_mono1 [of "2 ^ 64 - 1" "uint u + 2 ^ 19" "2 ^ 20"] by (simp add: min_def) linarith
  finally have disk: "sint (disk_usage_mb N u) = min ((uint u + 2 ^ 19) div 2 ^ 20) (2 ^ 31 - 1)" .
  define x y where "x = uint v div 2 ^ 20" and "y = sint (malloc_usage_mb v)"
  have "y = signed_take_bit 31 x"
    by (simp add: x_def y_def malloc_usage_mb_def signed_ucast_eq drop_bit_eq_div uint_div)
  then have m: "y = (x + 2 ^ 31) mod 2 ^ 32 - 2 ^ 31" by (simp add: signed_take_bit_eq_take_bit_shift take_bit_eq_mod)
  have below: "a < k \<longleftrightarrow> 2 ^ 20 * a + r < 2 ^ 20 * k" if "0 \<le> r" "r < 2 ^ 20" for a k r :: int
    by (rule iffI) (use that in simp_all)
  have v: "2 ^ 20 * x + uint v mod 2 ^ 20 = uint v" by (simp add: x_def)
  have x2: "x < 2 ^ 31 \<longleftrightarrow> uint v < 2 ^ 51" using below [of "uint v mod 2 ^ 20" x "2 ^ 31"] unfolding v by simp
  have x3: "x < 2 ^ 32 \<longleftrightarrow> uint v < 2 ^ 52" using below [of "uint v mod 2 ^ 20" x "2 ^ 32"] unfolding v by simp
  have x1: "0 \<le> x" unfolding x_def by (rule div_int_pos_iff [THEN iffD2]) simp
  have "(x + 2 ^ 31) mod 2 ^ 32 < 2 ^ 32" by simp
  with m have "y < 2 ^ 31" by simp
  moreover have "x < 2 ^ 31 \<Longrightarrow> y = x" using m x1 by simp
  ultimately have "y = x \<longleftrightarrow> x < 2 ^ 31" by auto
  moreover have "y < 0" if "2 ^ 31 \<le> x" "x < 2 ^ 32"
  proof -
    have "(x + 2 ^ 31) mod 2 ^ 32 = x - 2 ^ 31" using that mod_add_self2 [of "x - 2 ^ 31" "2 ^ 32 :: int"] by (simp add: add.commute)
    with m that show ?thesis by simp
  qed
  ultimately show ?thesis unfolding x_def [symmetric] y_def [symmetric] using disk x2 x3 by (auto simp: not_less)
qed

lemma demo_numerics_ok: "numerics_ok demo_numerics"
proof -
  have "take_bit 64 (min (uint a + uint b) (2 ^ 64 - 1)) = min (uint a + uint b) (2 ^ 64 - 1)" for a b :: "64 word"
    by (rule take_bit_int_eq_self) simp_all
  moreover have "signed_take_bit 31 (min (uint x) (2 ^ 31 - 1)) = min (uint x) (2 ^ 31 - 1)" for x :: "64 word"
  proof (rule signed_take_bit_int_eq_self)
    have "0 \<le> uint x" by simp
    then have "- (2 ^ 31) \<le> uint x" by (rule order_trans [rotated]) simp
    then show "- (2 ^ 31) \<le> min (uint x) (2 ^ 31 - 1)" by (intro min.boundedI) simp_all
  qed simp
  ultimately show ?thesis by (simp add: numerics_ok_def demo_numerics_def uint_word_of_int_eq sint_sbintrunc' signed_of_int)
qed

theorem memory_samples_witness:
  "sint (disk_usage_mb demo_numerics (3 * 2 ^ 19)) = 2 \<and> sint (malloc_usage_mb (2 ^ 51)) < 0"
  using memory_samples [OF demo_numerics_ok, of "3 * 2 ^ 19" "2 ^ 51"] by simp

end
