(* ===== verification/Process_Main.thy ===== *)
theory Process_Main
  imports Server_Main Process_Metrics
begin

text \<open>
  \<open>main\<close> of \<open>examples/server/src/main.cc\<close> with \<open>initEnv\<close> of \<open>init_env.cc\<close>, and the access to the registry of the main
  loop (\<open>shared_lib/ServerSharedLib/registry/main_loop_registry\<close>).

  \<open>basis::ScopedBaseEnvironment\<close> is a parameter: whether its \<open>init\<close> succeeds with the arguments that it is given. The run loop is
  the sequence of the continuations of \<open>main\<close>; between the start and the end it waits for the termination event.
\<close>

definition EXIT_SUCCESS :: int where "EXIT_SUCCESS = 0"
definition EXIT_FAILURE :: int where "EXIT_FAILURE = 1"

record base_environment_args =
  AutoStartTracer :: bool
  tracingCategories :: string
  currentWorkingDir :: string
  icuDataFile :: string
  traceReportFile :: string
  threadsNum :: nat

definition DEFAULT_EVENT_CATEGORIES :: string where
  "DEFAULT_EVENT_CATEGORIES = ''-sequence_manager,-thread_pool,-base,-toplevel,profiler,user_timing,ui,browser,'' @
     ''latency,latencyInfo,loading,skia,task_scheduler,native,benchmark,ipc,mojom,media,'' @
     ''disabled-by-default-lifecycles,disabled-by-default-renderer.scheduler,disabled-by-default-v8.gc,'' @
     ''disabled-by-default-blink_gc,disabled-by-default-system_stats,disabled-by-default-network,'' @
     ''disabled-by-default-cpu_profiler,disabled-by-default-memory-infra''"
definition kIcuDataFileName :: string where "kIcuDataFileName = ''./resources/icu/optimal/icudt64l.dat''"
definition kTraceReportFileName :: string where "kTraceReportFileName = ''trace_report.json''"

text \<open>The exit code, if the process shall end.\<close>

definition initEnv :: "build \<Rightarrow> process_env \<Rightarrow> (base_environment_args \<Rightarrow> bool) \<Rightarrow> int option result" where
  "initEnv b E base_env_init =
     (case dir_exe E of None \<Rightarrow> notreached b ''dir_exe'' (Inr (Some EXIT_FAILURE))
      | Some dir \<Rightarrow> (let envCreated = base_env_init \<lparr>AutoStartTracer = False, tracingCategories = DEFAULT_EVENT_CATEGORIES,
            currentWorkingDir = dir, icuDataFile = kIcuDataFileName, traceReportFile = kTraceReportFileName, threadsNum = 11\<rparr>
          in if \<not> envCreated then Inr (Some EXIT_FAILURE) else Inr None))"

text \<open>\<open>MainLoopRegistry::GetInstance()->registry()\<close>, only on the thread of the run loop.\<close>

definition MainLoopRegistry_GetInstance :: "build \<Rightarrow> bool \<Rightarrow> 'a result \<Rightarrow> 'a result" where
  "MainLoopRegistry_GetInstance b running_on_current_thread k =
     dcheck b ''base::RunLoop::IsRunningOnCurrentThread()'' running_on_current_thread k"

definition MainLoopRegistry_registry :: "build \<Rightarrow> bool \<Rightarrow> 'a result \<Rightarrow> 'a result" where
  "MainLoopRegistry_registry b running_on_current_thread k =
     dcheck b ''base::RunLoop::IsRunningOnCurrentThread()'' running_on_current_thread k"

text \<open>
  \<open>main\<close>: the environment, then the posted chain: \<open>runServerAndPromiseQuit\<close>, whose promise is resolved by the termination event
  (\<open>terminate\<close>) and followed by \<open>shutdownPluginManager\<close> and \<open>unsetGlobals\<close>; then the metrics; then the quit closure. The result is
  the exit code and what the metrics report; \<open>running\<close> is whether the run loop still runs after \<open>Run\<close>.
\<close>

definition server_main ::
  "(AppState_State, event, promise) state_machine \<Rightarrow> process_env \<Rightarrow> ('c, 'g) conf_api \<Rightarrow> 'c plugin_host \<Rightarrow> base_numerics \<Rightarrow>
   'm process_usage \<Rightarrow> (base_environment_args \<Rightarrow> bool) \<Rightarrow> bool \<Rightarrow> build \<Rightarrow> (int \<times> 'm metrics_effect list) result" where
  "server_main P E C H N p base_env_init running b =
     andThen (initEnv b E base_env_init) (\<lambda>exit_code. case exit_code of Some code \<Rightarrow> Inr (code, [])
     | None \<Rightarrow>
        andThen (runServerAndPromiseQuit P E C H b) (\<lambda>(G, ts, pr).
        andThen (terminate P b G) (\<lambda>G.
        andThen (shutdownPluginManager G) (\<lambda>us.
        andThen (unsetGlobals b G) (\<lambda>_.
        andThen (finishProcessMetrics N b p) (\<lambda>log.
          dcheck b ''!base::RunLoop::IsRunningOnCurrentThread()'' (\<not> running) (Inr (EXIT_SUCCESS, log))))))))"

subsection \<open>Properties\<close>



end
