(* ===== verification/Plugin_Interface.thy ===== *)
theory Plugin_Interface
  imports Task_Graph
begin

text \<open>
  The interface object that every plugin has: \<open>MainPluginInterface\<close> of
  \<open>examples/server/plugins/plugin_*/src/main_plugin_interface.cc\<close>, the same code in ten files. It holds the logic object of the
  plugin in a \<open>base::Optional\<close>; \<open>load\<close> makes the object and \<open>unload\<close> destroys it at the end of a chain of posted tasks.

  A chain of promises is the list of its links: a link runs a task on the state \<open>'w\<close> of the server (\<open>Do\<close>), or waits for a
  condition that somebody else brings about (\<open>Await\<close>). The links of a nested promise stand in the place of the call that returns it. A
  link bound to the logic object with an unowned pointer needs that object (\<open>on_logic\<close>).
\<close>

datatype 'w link = Do "'w \<Rightarrow> 'w result" | Await "'w \<Rightarrow> bool"

text \<open>The logic of a plugin: its constructor, the promises of its \<open>load\<close> and \<open>unload\<close>, its destructor, and whether it exists.\<close>

record 'w plugin_logic =
  logic_alive :: "'w \<Rightarrow> bool"
  logic_set_alive :: "bool \<Rightarrow> 'w \<Rightarrow> 'w"
  logic_new :: "'w \<Rightarrow> 'w result"
  logic_load :: "'w link list"
  logic_unload :: "'w link list"
  logic_delete :: "'w \<Rightarrow> 'w result"

record 'w plugin_interface =
  pi_title :: string
  pi_author :: string
  pi_description :: string
  pi_load :: "'w \<Rightarrow> 'w result"            \<comment> \<open>what \<open>load()\<close> does before it returns its promise\<close>
  pi_load_chain :: "'w link list"
  pi_unload :: "'w \<Rightarrow> 'w result"
  pi_unload_chain :: "'w link list"

definition on_logic :: "('w \<Rightarrow> bool) \<Rightarrow> ('w \<Rightarrow> 'w result) \<Rightarrow> 'w \<Rightarrow> 'w result" where
  "on_logic alive f w = requires ''base::Unretained'' (alive w) (f w)"

text \<open>\<open>base::Optional<MainPluginLogic>\<close>: \<open>reset()\<close> and \<open>emplace(this)\<close>.\<close>

definition optional_reset :: "'w plugin_logic \<Rightarrow> 'w \<Rightarrow> 'w result" where
  "optional_reset L w =
     (if logic_alive L w then andThen (logic_delete L w) (\<lambda>w. Inr (logic_set_alive L False w)) else Inr w)"

definition optional_emplace :: "'w plugin_logic \<Rightarrow> 'w \<Rightarrow> 'w result" where
  "optional_emplace L w =
     andThen (optional_reset L w) (\<lambda>w. andThen (logic_new L w) (\<lambda>w. Inr (logic_set_alive L True w)))"

text \<open>The first and the last link only log.\<close>

definition log_link :: "'w link" where
  "log_link = Do Inr"

text \<open>
  The constructor reads three values of the metadata. \<open>load\<close> and \<open>unload\<close> take the address of the logic object
  (\<open>&mainPluginLogic_.value()\<close>) when they are called.
\<close>

definition MainPluginInterface_new :: "build \<Rightarrow> (string \<Rightarrow> string) \<Rightarrow> 'w plugin_logic \<Rightarrow> 'w plugin_interface" where
  "MainPluginInterface_new b data L =
     \<lparr>pi_title = data ''title'', pi_author = data ''author'', pi_description = data ''description'',
      pi_load = optional_emplace L,
      pi_load_chain = [log_link] @ logic_load L @ [log_link],
      pi_unload = (\<lambda>w. dcheck b ''mainPluginLogic_'' (logic_alive L w)
        (requires ''mainPluginLogic_.value()'' (logic_alive L w) (Inr w))),
      pi_unload_chain = [log_link] @ logic_unload L @ [Do (optional_reset L), log_link]\<rparr>"

end
