(* ===== verification/Action_Recorder.thy ===== *)
theory Action_Recorder
  imports Prelude
begin

text \<open>
  \<open>examples/server/plugins/plugin_ActionRecorder/src/main_plugin_logic.cc\<close>: the plugin that logs the user actions of
  \<open>base/metrics/user_metrics.h\<close>.

  The functions of \<open>user_metrics.h\<close> are the fields of a \<open>user_metrics\<close>, over a state \<open>'u\<close>;
  \<open>user_metrics_ok\<close> is what their header says. A callback is the identity of its bind state: two
  callbacks are equal if they share it, and every call of \<open>bindCheckedRepeating\<close> makes a new one. The callbacks
  of this plugin hold an unowned pointer to the logic object, the tasks that it posts a weak one.
\<close>

type_synonym callback = nat

record 'u user_metrics =
  SetRecordActionTaskRunner :: "'u \<Rightarrow> 'u"
  AddActionCallback :: "callback \<Rightarrow> 'u \<Rightarrow> 'u"
  RemoveActionCallback :: "callback \<Rightarrow> 'u \<Rightarrow> 'u"
  registered :: "'u \<Rightarrow> callback list"        \<comment> \<open>what \<open>RecordAction\<close> runs, in this order\<close>

definition user_metrics_ok :: "'u user_metrics \<Rightarrow> bool" where
  "user_metrics_ok U =
     ((\<forall>u. registered U (SetRecordActionTaskRunner U u) = registered U u) \<and>
      (\<forall>c u. registered U (AddActionCallback U c u) = registered U u @ [c]) \<and>
      (\<forall>c u. registered U (RemoveActionCallback U c u) = remove1 c (registered U u)))"

text \<open>The state: the metrics, the next new bind state, and the logic object (its \<open>isSetActionCallback_\<close>) while it lives.\<close>

record 'u recorder =
  metrics :: 'u
  next_bind :: nat
  rec_logic :: "bool option"

definition recorder_logic_new :: "'u recorder \<Rightarrow> 'u recorder" where
  "recorder_logic_new r = r\<lparr>rec_logic := Some False\<rparr>"

definition recorder_logic_delete :: "'u recorder \<Rightarrow> 'u recorder" where
  "recorder_logic_delete r = r\<lparr>rec_logic := None\<rparr>"

definition bindCheckedRepeating :: "'u recorder \<Rightarrow> callback \<times> 'u recorder" where
  "bindCheckedRepeating r = (next_bind r, r\<lparr>next_bind := Suc (next_bind r)\<rparr>)"

text \<open>A task bound to a weak pointer is dropped when the object is gone.\<close>

definition if_alive :: "('u recorder \<Rightarrow> 'u recorder) \<Rightarrow> 'u recorder \<Rightarrow> 'u recorder" where
  "if_alive f r = (if rec_logic r = None then r else f r)"

definition setCustomCallback :: "'u user_metrics \<Rightarrow> 'u recorder \<Rightarrow> 'u recorder" where
  "setCustomCallback U r =
     (let r = r\<lparr>metrics := SetRecordActionTaskRunner U (metrics r)\<rparr>
      in case bindCheckedRepeating r of (c, r) \<Rightarrow> r\<lparr>metrics := AddActionCallback U c (metrics r)\<rparr>)"

definition unsetCustomCallback :: "'u user_metrics \<Rightarrow> 'u recorder \<Rightarrow> 'u recorder" where
  "unsetCustomCallback U r =
     (case bindCheckedRepeating r of (c, r) \<Rightarrow> r\<lparr>metrics := RemoveActionCallback U c (metrics r)\<rparr>)"

text \<open>\<open>load\<close> and \<open>unload\<close>: the flag changes at once, the rest is posted to the main loop.\<close>

definition setRecordActionTaskRunner :: "build \<Rightarrow> bool \<Rightarrow> 'u recorder \<Rightarrow> 'u recorder result" where
  "setRecordActionTaskRunner b task_runner r =
     dcheck b ''task_runner'' task_runner
     (requires ''isSetActionCallback_'' (rec_logic r \<noteq> None)
     (dcheck b ''!isSetActionCallback_'' (rec_logic r = Some False)
       (Inr (r\<lparr>rec_logic := Some True\<rparr>))))"

definition removeActionCallback :: "build \<Rightarrow> 'u recorder \<Rightarrow> 'u recorder result" where
  "removeActionCallback b r =
     requires ''isSetActionCallback_'' (rec_logic r \<noteq> None)
     (dcheck b ''isSetActionCallback_'' (rec_logic r = Some True)
       (Inr (r\<lparr>rec_logic := Some False\<rparr>)))"

definition recorder_load :: "build \<Rightarrow> 'u recorder \<Rightarrow> 'u recorder result" where
  "recorder_load b r = setRecordActionTaskRunner b True r"

definition recorder_unload :: "build \<Rightarrow> 'u recorder \<Rightarrow> 'u recorder result" where
  "recorder_unload b r = dcheck b ''mainLoopRunner_'' True (removeActionCallback b r)"

text \<open>\<open>base::RecordAction\<close> runs \<open>onUserAction\<close> through every registered callback.\<close>

definition onUserAction :: "string \<Rightarrow> string" where
  "onUserAction action_name = ''happened action with name'' @ action_name"

definition RecordAction :: "'u user_metrics \<Rightarrow> string \<Rightarrow> 'u recorder \<Rightarrow> string list result" where
  "RecordAction U action_name r =
     foldM (\<lambda>c log. requires ''base::Unretained(this)'' (rec_logic r \<noteq> None) (Inr (log @ [onUserAction action_name])))
       (registered U (metrics r)) []"

subsection \<open>Loading and unloading\<close>

text \<open>One life of the plugin with every posted task run: construct, load, unload, destroy.\<close>

definition recorder_up :: "'u user_metrics \<Rightarrow> build \<Rightarrow> 'u recorder \<Rightarrow> 'u recorder result" where
  "recorder_up U b r = andThen (recorder_load b (recorder_logic_new r)) (\<lambda>r. Inr (if_alive (setCustomCallback U) r))"

definition recorder_down :: "'u user_metrics \<Rightarrow> build \<Rightarrow> 'u recorder \<Rightarrow> 'u recorder result" where
  "recorder_down U b r =
     andThen (recorder_unload b r) (\<lambda>r. Inr (recorder_logic_delete (if_alive (unsetCustomCallback U) r)))"

lemma RecordAction_eq:
  "RecordAction U a r = (if registered U (metrics r) \<noteq> [] \<and> rec_logic r = None then Inl (UNDEFINED ''base::Unretained(this)'')
     else Inr (map (\<lambda>_. onUserAction a) (registered U (metrics r))))"
proof -
  have "foldM (\<lambda>c log. Inr (log @ [x])) cs l = Inr (l @ map (\<lambda>_. x) cs)" for cs :: "callback list" and l and x :: string
    by (induction cs arbitrary: l) simp_all
  then show ?thesis
    by (cases "rec_logic r"; cases "registered U (metrics r)") (simp_all add: RecordAction_def)
qed

lemma recorder_up_effect:
  "\<exists>r'. recorder_up U b r = Inr r' \<and> rec_logic r' = Some True \<and> next_bind r' = Suc (next_bind r) \<and>
     metrics r' = AddActionCallback U (next_bind r) (SetRecordActionTaskRunner U (metrics r))"
  by (simp add: recorder_up_def recorder_load_def setRecordActionTaskRunner_def recorder_logic_new_def if_alive_def
      setCustomCallback_def bindCheckedRepeating_def Let_def)

lemma recorder_down_effect:
  assumes "rec_logic r = Some True"
  shows "\<exists>r'. recorder_down U b r = Inr r' \<and> rec_logic r' = None \<and> next_bind r' = Suc (next_bind r) \<and>
     metrics r' = RemoveActionCallback U (next_bind r) (metrics r)"
  using assms by (simp add: recorder_down_def recorder_unload_def removeActionCallback_def recorder_logic_delete_def
      if_alive_def unsetCustomCallback_def bindCheckedRepeating_def)

text \<open>The bind states that were made so far are the ones below \<open>next_bind\<close>.\<close>

definition binds_made :: "'u user_metrics \<Rightarrow> 'u recorder \<Rightarrow> bool" where
  "binds_made U r = (\<forall>c \<in> set (registered U (metrics r)). c < next_bind r)"

lemma recorder_cycle:
  assumes "user_metrics_ok U" and "binds_made U r"
  shows "\<exists>up down. recorder_up U b r = Inr up \<and> recorder_down U b up = Inr down \<and> rec_logic up = Some True \<and>
    rec_logic down = None \<and> registered U (metrics up) = registered U (metrics r) @ [next_bind r] \<and>
    registered U (metrics down) = registered U (metrics up) \<and> binds_made U down"
proof -
  from recorder_up_effect [of U b r] obtain up where up: "recorder_up U b r = Inr up" "rec_logic up = Some True"
    "next_bind up = Suc (next_bind r)"
    "metrics up = AddActionCallback U (next_bind r) (SetRecordActionTaskRunner U (metrics r))" by blast
  from recorder_down_effect [OF up(2), of U b] obtain down where down: "recorder_down U b up = Inr down"
    "rec_logic down = None" "next_bind down = Suc (next_bind up)"
    "metrics down = RemoveActionCallback U (next_bind up) (metrics up)" by blast
  have reg: "registered U (metrics up) = registered U (metrics r) @ [next_bind r]"
    using assms(1) up(4) by (simp add: user_metrics_ok_def)
  then have "next_bind up \<notin> set (registered U (metrics up))"
    using assms(2) up(3) by (auto simp: binds_made_def)
  then have "registered U (metrics down) = registered U (metrics up)"
    using assms(1) down(4) by (simp add: user_metrics_ok_def remove1_idem)
  moreover from this reg assms(2) have "binds_made U down"
    using up(3) down(3) by (auto simp: binds_made_def)
  ultimately show ?thesis using up down reg by blast
qed

subsection \<open>Properties\<close>

text \<open>
  C23: the callback of the action recorder outlives the plugin. \<open>unload\<close> removes a callback that it has just
  bound, not the one that \<open>load\<close> added, so nothing is removed: while the plugin is loaded an action
  is logged once, and after the unload the next action runs \<open>onUserAction\<close> on the destroyed object.
\<close>

theorem recorder_callback_dangles:
  assumes "user_metrics_ok U" and "registered U (metrics r) = []"
  shows "\<exists>up down. recorder_up U b r = Inr up \<and> RecordAction U a up = Inr [onUserAction a] \<and>
    recorder_down U b up = Inr down \<and> registered U (metrics down) = registered U (metrics up) \<and>
    RecordAction U a down = Inl (UNDEFINED ''base::Unretained(this)'')"
proof -
  have "binds_made U r" by (simp add: binds_made_def assms(2))
  from recorder_cycle [OF assms(1) this, of b] obtain up down where c: "recorder_up U b r = Inr up"
    "recorder_down U b up = Inr down" "rec_logic up = Some True" "rec_logic down = None"
    "registered U (metrics up) = [next_bind r]" "registered U (metrics down) = registered U (metrics up)"
    by (auto simp: assms(2))
  then show ?thesis by (simp add: RecordAction_eq)
qed

definition demo_metrics :: "callback list user_metrics" where
  "demo_metrics = \<lparr>SetRecordActionTaskRunner = (\<lambda>u. u), AddActionCallback = (\<lambda>c u. u @ [c]),
     RemoveActionCallback = remove1, registered = (\<lambda>u. u)\<rparr>"

lemma demo_metrics_ok: "user_metrics_ok demo_metrics"
  by (simp add: user_metrics_ok_def demo_metrics_def)

theorem recorder_callback_dangles_witness:
  "\<exists>up down. recorder_up demo_metrics Debug \<lparr>metrics = [], next_bind = 0, rec_logic = None\<rparr> = Inr up \<and>
    RecordAction demo_metrics ''quit'' up = Inr [''happened action with namequit''] \<and>
    recorder_down demo_metrics Debug up = Inr down \<and> (\<exists>e. RecordAction demo_metrics ''quit'' down = Inl e)"
  using recorder_callback_dangles [OF demo_metrics_ok, of "\<lparr>metrics = [], next_bind = 0, rec_logic = None\<rparr>" Debug "''quit''"]
  by (auto simp: demo_metrics_def onUserAction_def)

end
