(* ===== verification/Plugin_Config.thy ===== *)
theory Plugin_Config
  imports Prelude "HOL-Library.Word"
begin

text \<open>
  The configuration values of the plugins: the getters of
  \<open>examples/server/plugins/plugin_*/src/main_plugin_interface.cc\<close> with the constants of
  \<open>main_plugin_constants.cc\<close>, and the endpoint that \<open>plugin_TcpServer/src/main_plugin_logic.cc\<close> makes of two of them.

  The configuration is a function from keys to values (\<open>hasValue\<close>, \<open>value\<close>). \<open>base::StringToInt\<close> is a parameter: what
  it leaves in its output, also for a text that is no number, because the getters ignore its result.
  \<open>make_address\<close> is a parameter that throws where it is \<open>None\<close>.
\<close>

type_synonym configuration = "string \<Rightarrow> string option"

definition configured_int :: "(string \<Rightarrow> int) \<Rightarrow> configuration \<Rightarrow> string \<Rightarrow> int \<Rightarrow> int" where
  "configured_int StringToInt conf key default_value =
     (case conf key of None \<Rightarrow> default_value | Some v \<Rightarrow> StringToInt v)"

definition kDefaultAsioThreads :: int where "kDefaultAsioThreads = 4"
definition kConfAsioThreads :: string where "kConfAsioThreads = ''asioThreads''"
definition kDefaultEntityUpdateFreqMillisec :: int where "kDefaultEntityUpdateFreqMillisec = 1000"
definition kConfEntityUpdateFreqMillisec :: string where "kConfEntityUpdateFreqMillisec = ''entityUpdateFreqMillisec''"
definition kDefaultConsoleInputFreqMillisec :: int where "kDefaultConsoleInputFreqMillisec = 100"
definition kConfConsoleInputFreqMillisec :: string where "kConfConsoleInputFreqMillisec = ''consoleInputFreqMillisec''"
definition kDefaultIpAddr :: string where "kDefaultIpAddr = ''127.0.0.1''"
definition kConfIpAddr :: string where "kConfIpAddr = ''ipAddr''"
definition kDefaultPortNum :: int where "kDefaultPortNum = 8085"
definition kConfPortNum :: string where "kConfPortNum = ''portNum''"
definition kDefaultQuitDetectionFreqMillisec :: int where "kDefaultQuitDetectionFreqMillisec = 1000"
definition kConfQuitDetectionFreqMillisec :: string where "kConfQuitDetectionFreqMillisec = ''quitDetectionFreqMillisec''"
definition kDefaultQuitDetectionDebugTimeoutMillisec :: int where
  "kDefaultQuitDetectionDebugTimeoutMillisec = 15000"
definition kConfQuitDetectionDebugTimeoutMillisec :: string where
  "kConfQuitDetectionDebugTimeoutMillisec = ''quitDetectionDebugTimeoutMillisec''"

definition asioThreads :: "(string \<Rightarrow> int) \<Rightarrow> configuration \<Rightarrow> int" where
  "asioThreads StringToInt conf = configured_int StringToInt conf kConfAsioThreads kDefaultAsioThreads"

definition entityUpdateFreqMillisec :: "(string \<Rightarrow> int) \<Rightarrow> configuration \<Rightarrow> int" where
  "entityUpdateFreqMillisec StringToInt conf =
     configured_int StringToInt conf kConfEntityUpdateFreqMillisec kDefaultEntityUpdateFreqMillisec"

definition consoleInputFreqMillisec :: "(string \<Rightarrow> int) \<Rightarrow> configuration \<Rightarrow> int" where
  "consoleInputFreqMillisec StringToInt conf =
     configured_int StringToInt conf kConfConsoleInputFreqMillisec kDefaultConsoleInputFreqMillisec"

definition ipAddr :: "configuration \<Rightarrow> string" where
  "ipAddr conf = (case conf kConfIpAddr of None \<Rightarrow> kDefaultIpAddr | Some v \<Rightarrow> v)"

definition portNum :: "(string \<Rightarrow> int) \<Rightarrow> configuration \<Rightarrow> int" where
  "portNum StringToInt conf = configured_int StringToInt conf kConfPortNum kDefaultPortNum"

definition quitDetectionFreqMillisec :: "(string \<Rightarrow> int) \<Rightarrow> configuration \<Rightarrow> int" where
  "quitDetectionFreqMillisec StringToInt conf =
     configured_int StringToInt conf kConfQuitDetectionFreqMillisec kDefaultQuitDetectionFreqMillisec"

definition quitDetectionDebugTimeoutMillisec :: "(string \<Rightarrow> int) \<Rightarrow> configuration \<Rightarrow> int" where
  "quitDetectionDebugTimeoutMillisec StringToInt conf =
     configured_int StringToInt conf kConfQuitDetectionDebugTimeoutMillisec kDefaultQuitDetectionDebugTimeoutMillisec"

text \<open>\<open>tcpEndpoint_\<close>: \<open>checked_cast<unsigned short>\<close> ends the process out of range.\<close>

definition tcpEndpoint ::
  "(string \<Rightarrow> 'addr option) \<Rightarrow> (string \<Rightarrow> int) \<Rightarrow> configuration \<Rightarrow> ('addr \<times> 16 word) result" where
  "tcpEndpoint make_address StringToInt conf =
     (case make_address (ipAddr conf) of None \<Rightarrow> Inl (THROWN ''make_address'')
      | Some a \<Rightarrow> (let p = portNum StringToInt conf in
          check ''checked_cast<unsigned short>'' (0 \<le> p \<and> p < 2 ^ 16) (Inr (a, word_of_int p))))"

subsection \<open>Bounds\<close>

text \<open>
  The endpoint is made exactly if the address is valid and the configured number is a port, and then it has that very
  number: the cast never wraps around.
\<close>

lemma endpoint_port:
  "(\<exists>ep. tcpEndpoint make_address StringToInt conf = Inr ep) \<longleftrightarrow>
     make_address (ipAddr conf) \<noteq> None \<and> portNum StringToInt conf \<in> {0 ..< 2 ^ 16}"
  "tcpEndpoint make_address StringToInt conf = Inr (a, p) \<Longrightarrow>
     make_address (ipAddr conf) = Some a \<and> uint p = portNum StringToInt conf"
  by (auto simp: tcpEndpoint_def Let_def check_def take_bit_int_eq_self unsigned_of_int split: option.splits if_splits)

lemma endpoint_default:
  "make_address ''127.0.0.1'' = Some a \<Longrightarrow> tcpEndpoint make_address StringToInt (\<lambda>_. None) = Inr (a, 8085)"
  by (simp add: tcpEndpoint_def ipAddr_def portNum_def configured_int_def kDefaultIpAddr_def kDefaultPortNum_def)

end
