(* ===== verification/Extra_Logging.thy ===== *)
theory Extra_Logging
  imports Plugin_Config "HOL-Library.Countable"
begin

text \<open>
  \<open>examples/server/plugins/plugin_ExtraLogging/src\<close>: the checks of the machine that the plugin logs when it is made
  (\<open>main_plugin_logic.cc\<close>) and the table of statistics that its member \<open>table_updater_\<close> writes when it is destroyed
  (\<open>scoped_stats_table_updater.cc\<close>).

  \<open>basis::StatsTable\<close> is a file of shared memory with named counters: the fields of a \<open>stats_table\<close>
  over a state \<open>'t\<close>, with \<open>stats_table_ok\<close> as what the source relies on; its constructor is the opening of that
  file and not a step of the model. A time is a number of microseconds, a null \<open>base::Time\<close> is 0, and the functions of
  \<open>base/time\<close> are the fields of a \<open>base_time\<close>. Log lines are only those whose presence the code decides.
\<close>

subsection \<open>The machine\<close>

definition kDefaultMinCores :: int where "kDefaultMinCores = 4"
definition kConfMinCoresBeforeWarn :: string where "kConfMinCoresBeforeWarn = ''minCoresBeforeWarn''"

text \<open>The warning of \<open>checkNumOfCores\<close>; \<open>coresTotal\<close> is \<open>std::thread::hardware_concurrency()\<close>.\<close>

definition checkNumOfCores :: "32 word \<Rightarrow> 64 word \<Rightarrow> bool" where
  "checkNumOfCores coresTotal minCores = (ucast coresTotal < minCores)"

definition confMinCores :: "(string \<Rightarrow> int) \<Rightarrow> configuration \<Rightarrow> int" where
  "confMinCores StringToInt conf = configured_int StringToInt conf kConfMinCoresBeforeWarn kDefaultMinCores"

text \<open>The constructor; the result is whether it has warned.\<close>

definition extra_logging_new :: "(string \<Rightarrow> int) \<Rightarrow> configuration \<Rightarrow> 32 word \<Rightarrow> bool result" where
  "extra_logging_new StringToInt conf coresTotal =
     (let n = confMinCores StringToInt conf
      in check ''checked_cast<size_t>'' (0 \<le> n) (Inr (checkNumOfCores coresTotal (word_of_int n))))"

subsection \<open>The table of statistics\<close>

record 't stats_table =
  RegisterCurrentThread :: "string \<Rightarrow> 't \<Rightarrow> 't"
  FindOrAddCounter :: "string \<Rightarrow> 't \<Rightarrow> int \<times> 't"
  GetSlot :: "'t \<Rightarrow> int"
  GetLocation :: "int \<Rightarrow> int \<Rightarrow> 't \<Rightarrow> nat option"      \<comment> \<open>a pointer\<close>
  load_int :: "nat \<Rightarrow> 't \<Rightarrow> int"                    \<comment> \<open>\<open>*counter_loc\<close>\<close>
  store_int :: "nat \<Rightarrow> int \<Rightarrow> 't \<Rightarrow> 't"
  GetMaxCounters :: "'t \<Rightarrow> nat"
  GetRowName :: "nat \<Rightarrow> 't \<Rightarrow> string"
  GetRowValue :: "nat \<Rightarrow> 't \<Rightarrow> int"

record base_time =
  FromSeconds :: "int \<Rightarrow> int"
  InSeconds :: "int \<Rightarrow> int"
  InMinutes :: "int \<Rightarrow> int"
  FromString :: "string \<Rightarrow> int option"

definition kAppEpochStr :: string where "kAppEpochStr = ''Sun, 01 May 2000 12:00:00 GMT''"
definition kMinutesToResetLaunchCounter :: int where "kMinutesToResetLaunchCounter = 5"
definition last_launch_time :: string where "last_launch_time = ''appserver.last_launch_time''"
definition recent_launch_counter :: string where "recent_launch_counter = ''appserver.recent_launch_counter''"

text \<open>An \<open>int64\<close> stored into an \<open>int\<close>.\<close>

definition to_int32 :: "int \<Rightarrow> int" where
  "to_int32 x = signed_take_bit 31 x"

definition counter_loc :: "'t stats_table \<Rightarrow> string \<Rightarrow> 't \<Rightarrow> nat option \<times> 't" where
  "counter_loc T name t = (case FindOrAddCounter T name t of (cid, t) \<Rightarrow> (GetLocation T cid (GetSlot T t) t, t))"

definition with_counter ::
  "'t stats_table \<Rightarrow> build \<Rightarrow> string \<Rightarrow> (nat \<Rightarrow> 't \<Rightarrow> 'b result) \<Rightarrow> 't \<Rightarrow> 'b result" where
  "with_counter T b name k t = (case counter_loc T name t of (loc, t) \<Rightarrow>
     dcheck b ''counter_loc'' (loc \<noteq> None) (case loc of None \<Rightarrow> Inl (UNDEFINED ''*counter_loc'') | Some l \<Rightarrow> k l t))"

text \<open>The first block: the time of the last run; the one before it is the result.\<close>

definition update_last_launch ::
  "'t stats_table \<Rightarrow> base_time \<Rightarrow> build \<Rightarrow> int \<Rightarrow> int \<Rightarrow> 't \<Rightarrow> (int \<times> 't) result" where
  "update_last_launch T M b app_epoch now =
     with_counter T b last_launch_time (\<lambda>l t.
       Inr (if load_int T l t \<noteq> 0 then app_epoch + FromSeconds M (load_int T l t) else 0,
            store_int T l (to_int32 (InSeconds M (now - app_epoch))) t))"

text \<open>The second block: the counter; \<open>+= 1\<close> beyond \<open>INT_MAX\<close> is undefined.\<close>

definition update_launch_counter ::
  "'t stats_table \<Rightarrow> base_time \<Rightarrow> build \<Rightarrow> int \<Rightarrow> int \<Rightarrow> 't \<Rightarrow> 't result" where
  "update_launch_counter T M b prev_last_launch now =
     with_counter T b recent_launch_counter (\<lambda>l t.
       (let minutesSinceLastLaunch = InMinutes M (now - prev_last_launch);
            t = (if minutesSinceLastLaunch > kMinutesToResetLaunchCounter then store_int T l 0 t else t)
        in requires ''(*counter_loc) += 1'' (load_int T l t < 2 ^ 31 - 1) (Inr (store_int T l (load_int T l t + 1) t))))"

text \<open>The third block: the rows that have a name.\<close>

definition dump_stats :: "'t stats_table \<Rightarrow> 't \<Rightarrow> (string \<times> int) list" where
  "dump_stats T t = map (\<lambda>i. (GetRowName T i t, GetRowValue T i t))
     (filter (\<lambda>i. 0 < length (GetRowName T i t)) [0..<GetMaxCounters T t])"

text \<open>The destructor; it reads the clock once for each of the two blocks.\<close>

definition ScopedStatsTableUpdater_delete ::
  "'t stats_table \<Rightarrow> base_time \<Rightarrow> build \<Rightarrow> int \<Rightarrow> int \<Rightarrow> 't \<Rightarrow> ((string \<times> int) list \<times> 't) result" where
  "ScopedStatsTableUpdater_delete T M b now_launch now_counter t =
     (let t = RegisterCurrentThread T ''server_main_thread'' t;
          app_epoch = (case FromString M kAppEpochStr of None \<Rightarrow> 0 | Some e \<Rightarrow> e)
      in dcheck b ''appEpochOk'' (FromString M kAppEpochStr \<noteq> None)
        (andThen (update_last_launch T M b app_epoch now_launch t) (\<lambda>(prev_last_launch, t).
         andThen (update_launch_counter T M b prev_last_launch now_counter t) (\<lambda>t.
           Inr (dump_stats T t, t)))))"

subsection \<open>What the source relies on\<close>

definition counter_value :: "'t stats_table \<Rightarrow> string \<Rightarrow> 't \<Rightarrow> int option" where
  "counter_value T name t = (case counter_loc T name t of (loc, t) \<Rightarrow> map_option (\<lambda>l. load_int T l t) loc)"

text \<open>
  A counter that is looked up is found or added with no other counter changed, and a value stored at its place is its value.
\<close>

definition stats_table_ok :: "'t stats_table \<Rightarrow> bool" where
  "stats_table_ok T =
     ((\<forall>n t. \<exists>l t'. counter_loc T n t = (Some l, t') \<and> (\<forall>n'. counter_value T n' t' = counter_value T n' t)) \<and>
      (\<forall>n t l t'. counter_loc T n t = (Some l, t') \<longrightarrow>
         (\<forall>v. -(2 ^ 31) \<le> v \<and> v < 2 ^ 31 \<longrightarrow> load_int T l (store_int T l v t') = v \<and>
            (\<forall>n'. counter_value T n' (store_int T l v t') = (if n' = n then Some v else counter_value T n' t')) \<and>
            (\<forall>w. store_int T l w (store_int T l v t') = store_int T l w t'))) \<and>
      (\<forall>n w t. counter_value T n (RegisterCurrentThread T w t) = counter_value T n t))"

definition base_time_ok :: "base_time \<Rightarrow> bool" where
  "base_time_ok M = ((\<forall>s. FromSeconds M s = s * 10 ^ 6) \<and>
     (\<forall>d \<ge> 0. InSeconds M d = d div 10 ^ 6) \<and> (\<forall>d \<ge> 0. InMinutes M d = d div (60 * 10 ^ 6)))"


lemma with_counter_at: "counter_loc T n t = (Some l, t') \<Longrightarrow> with_counter T b n k t = k l t'"
  by (simp add: with_counter_def)

lemma counter_found:
  assumes "stats_table_ok T" and "counter_value T n t = Some v"
  obtains l t' where "counter_loc T n t = (Some l, t')" and "load_int T l t' = v"
    and "\<And>n'. counter_value T n' t' = counter_value T n' t"
proof -
  from assms(1) obtain l t' where l: "counter_loc T n t = (Some l, t')" "\<forall>n'. counter_value T n' t' = counter_value T n' t"
    unfolding stats_table_ok_def by blast
  with assms(2) have "load_int T l t' = v" by (simp add: counter_value_def)
  with l that show thesis by blast
qed

lemma store_ok:
  assumes "stats_table_ok T" and "counter_loc T n t = (Some l, t')" and "-(2 ^ 31) \<le> v" and "v < 2 ^ 31"
  shows "load_int T l (store_int T l v t') = v"
    and "counter_value T n' (store_int T l v t') = (if n' = n then Some v else counter_value T n' t')"
    and "store_int T l w (store_int T l v t') = store_int T l w t'"
  using assms unfolding stats_table_ok_def by blast+

lemma to_int32_id: "0 \<le> x \<Longrightarrow> x < 2 ^ 31 \<Longrightarrow> to_int32 x = x"
  by (simp add: to_int32_def signed_take_bit_int_eq_self)

text \<open>One run of the destructor.\<close>

lemma updater_delete_effect:
  assumes T: "stats_table_ok T" and M: "base_time_ok M" and e: "FromString M kAppEpochStr = Some e"
    and v: "counter_value T last_launch_time t = Some v" and c: "counter_value T recent_launch_counter t = Some c"
    and c0: "0 \<le> c" "c < 2 ^ 31 - 1" and n1: "0 \<le> n1 - e" "n1 - e < 2 ^ 31 * 10 ^ 6"
    and n2: "(if v \<noteq> 0 then e + v * 10 ^ 6 else 0) \<le> n2"
  shows "\<exists>log t'. ScopedStatsTableUpdater_delete T M b n1 n2 t = Inr (log, t') \<and>
    counter_value T last_launch_time t' = Some ((n1 - e) div 10 ^ 6) \<and>
    counter_value T recent_launch_counter t' = Some (if (n2 - (if v \<noteq> 0 then e + v * 10 ^ 6 else 0)) div (60 * 10 ^ 6) > 5
      then 1 else c + 1)"
proof -
  let ?t = "RegisterCurrentThread T ''server_main_thread'' t"
  let ?p = "if v \<noteq> 0 then e + v * 10 ^ 6 else 0"
  have val: "counter_value T n ?t = counter_value T n t" for n using T by (simp add: stats_table_ok_def)
  have neq: "last_launch_time \<noteq> recent_launch_counter" by (simp add: last_launch_time_def recent_launch_counter_def)
  have secs: "0 \<le> (n1 - e) div 10 ^ 6" "(n1 - e) div 10 ^ 6 < 2 ^ 31" using n1 by simp_all
  obtain l t1 where l: "counter_loc T last_launch_time ?t = (Some l, t1)" "load_int T l t1 = v"
    "\<And>n'. counter_value T n' t1 = counter_value T n' ?t" by (rule counter_found [OF T, of last_launch_time ?t v]) (simp_all add: val v)
  let ?t2 = "store_int T l ((n1 - e) div 10 ^ 6) t1"
  have first: "update_last_launch T M b e n1 ?t = Inr (?p, ?t2)"
    using M n1(1) secs by (simp add: update_last_launch_def with_counter_at [OF l(1)] l(2) base_time_ok_def to_int32_id)
  have v2: "counter_value T n' ?t2 = (if n' = last_launch_time then Some ((n1 - e) div 10 ^ 6) else counter_value T n' t)" for n'
    using store_ok(2) [OF T l(1), of "(n1 - e) div 10 ^ 6" n'] secs l(3) val by simp
  then have c2: "counter_value T recent_launch_counter ?t2 = Some c" using neq c by simp
  obtain l' t3 where l': "counter_loc T recent_launch_counter ?t2 = (Some l', t3)" "load_int T l' t3 = c"
    "\<And>n'. counter_value T n' t3 = counter_value T n' ?t2" by (rule counter_found [OF T c2]) simp
  let ?far = "(n2 - ?p) div (60 * 10 ^ 6) > 5"
  have "InMinutes M (n2 - ?p) = (n2 - ?p) div (60 * 10 ^ 6)" using M n2 by (simp add: base_time_ok_def)
  then have second: "update_launch_counter T M b ?p n2 ?t2 = Inr (store_int T l' (if ?far then 1 else c + 1) t3)"
    using c0 store_ok(1,3) [OF T l'(1), of 0]
    unfolding update_launch_counter_def with_counter_at [OF l'(1)] Let_def kMinutesToResetLaunchCounter_def
    by (cases ?far) (simp_all add: l'(2))
  let ?t4 = "store_int T l' (if ?far then 1 else c + 1) t3"
  have "counter_value T n' ?t4 = (if n' = recent_launch_counter then Some (if ?far then 1 else c + 1)
      else counter_value T n' ?t2)" for n'
    using store_ok(2) [OF T l'(1), of "if ?far then 1 else c + 1" n'] c0 l'(3) by simp
  moreover have "ScopedStatsTableUpdater_delete T M b n1 n2 t = Inr (dump_stats T ?t4, ?t4)"
    by (simp only: ScopedStatsTableUpdater_delete_def e Let_def option.case first second andThen_simps case_prod_conv)
      (simp add: dcheck_def)
  ultimately show ?thesis using v2 neq by auto
qed

subsection \<open>A sequence of runs\<close>

text \<open>
  The server is run again and again on one table; a run is the two times at which its destructor reads the clock. The minutes
  between the end of a run and the recorded end of the run before it, which is \<open>prev\<close>; the record has whole seconds.
\<close>

fun run_updates ::
  "'t stats_table \<Rightarrow> base_time \<Rightarrow> build \<Rightarrow> (int \<times> int) list \<Rightarrow> 't \<Rightarrow> 't result" where
  "run_updates T M b [] t = Inr t"
| "run_updates T M b ((n1, n2) # ends) t =
     andThen (ScopedStatsTableUpdater_delete T M b n1 n2 t) (\<lambda>(log, t). run_updates T M b ends t)"

definition recorded :: "int \<Rightarrow> int \<Rightarrow> int" where
  "recorded e n = e + (n - e) div 10 ^ 6 * 10 ^ 6"

fun gap_minutes :: "int \<Rightarrow> int \<Rightarrow> (int \<times> int) list \<Rightarrow> int list" where
  "gap_minutes e prev [] = []"
| "gap_minutes e prev ((n1, n2) # ends) = (n2 - prev) div (60 * 10 ^ 6) # gap_minutes e (recorded e n1) ends"

text \<open>Clocks that do not run backwards and fit into 31 bits of seconds after the epoch.\<close>

fun ends_ok :: "int \<Rightarrow> int \<Rightarrow> (int \<times> int) list \<Rightarrow> bool" where
  "ends_ok e prev [] = True"
| "ends_ok e prev ((n1, n2) # ends) =
     (prev \<le> n2 \<and> e + 10 ^ 6 \<le> n1 \<and> n1 < e + 2 ^ 31 * 10 ^ 6 \<and> ends_ok e (recorded e n1) ends)"

fun count_gaps :: "int \<Rightarrow> int list \<Rightarrow> int" where
  "count_gaps c [] = c"
| "count_gaps c (g # gs) = count_gaps (if g > 5 then 1 else c + 1) gs"

lemma run_updates_count:
  assumes T: "stats_table_ok T" and M: "base_time_ok M" and e: "FromString M kAppEpochStr = Some e"
    and "counter_value T last_launch_time t = Some v" and "prev = (if v \<noteq> 0 then e + v * 10 ^ 6 else 0)"
    and "counter_value T recent_launch_counter t = Some c" and "0 \<le> c" and "c + int (length ends) < 2 ^ 31"
    and "ends_ok e prev ends"
  shows "\<exists>t'. run_updates T M b ends t = Inr t' \<and>
    counter_value T recent_launch_counter t' = Some (count_gaps c (gap_minutes e prev ends))"
  using assms(4-)
proof (induction ends arbitrary: t v prev c)
  case Nil
  then show ?case by simp
next
  case (Cons n ends)
  obtain n1 n2 where n: "n = (n1, n2)" by (cases n) simp
  let ?c = "if (n2 - prev) div (60 * 10 ^ 6) > 5 then 1 else c + 1"
  have bounds: "e + 10 ^ 6 \<le> n1" "n1 < e + 2 ^ 31 * 10 ^ 6" "prev \<le> n2" "ends_ok e (recorded e n1) ends"
    using Cons.prems(6) by (simp_all add: n)
  have "0 \<le> n1 - e" "n1 - e < 2 ^ 31 * 10 ^ 6" "c < 2 ^ 31 - 1" using bounds(1,2) Cons.prems(5) by simp_all
  with updater_delete_effect [OF T M e Cons.prems(1,3,4), of n1 n2 b] bounds(3) obtain log t' where t':
    "ScopedStatsTableUpdater_delete T M b n1 n2 t = Inr (log, t')"
    "counter_value T last_launch_time t' = Some ((n1 - e) div 10 ^ 6)"
    "counter_value T recent_launch_counter t' = Some ?c" by (auto simp: Cons.prems(2))
  have "1 \<le> (n1 - e) div 10 ^ 6" using zdiv_mono1 [of "10 ^ 6" "n1 - e" "10 ^ 6"] bounds(1) by simp
  then have rec: "recorded e n1 = (if (n1 - e) div 10 ^ 6 \<noteq> 0 then e + (n1 - e) div 10 ^ 6 * 10 ^ 6 else 0)"
    by (simp add: recorded_def)
  have "0 \<le> ?c" "?c + int (length ends) < 2 ^ 31" using Cons.prems(4,5) by simp_all
  from Cons.IH [OF t'(2) rec t'(3) this bounds(4)] obtain t'' where "run_updates T M b ends t' = Inr t''"
    "counter_value T recent_launch_counter t'' = Some (count_gaps ?c (gap_minutes e (recorded e n1) ends))" by blast
  then show ?case by (simp add: n t'(1))
qed

lemma count_gaps_suffix:
  "count_gaps c gs = (if \<forall>g \<in> set gs. g \<le> 5 then c + int (length gs)
     else 1 + int (length (takeWhile (\<lambda>g. g \<le> 5) (rev gs))))"
proof (induction gs arbitrary: c rule: rev_induct)
  case Nil
  then show ?case by simp
next
  case (snoc g gs)
  have "count_gaps c (gs @ [g]) = (if g > 5 then 1 else count_gaps c gs + 1)" for c
    by (induction gs arbitrary: c) simp_all
  with snoc show ?case by auto
qed

subsection \<open>Properties\<close>


text \<open>A table over an array of counters, and two runs that end 1000 s and 1100 s after the epoch.\<close>

definition demo_table :: "(nat \<Rightarrow> int) stats_table" where
  "demo_table = \<lparr>RegisterCurrentThread = (\<lambda>_ t. t), FindOrAddCounter = (\<lambda>n t. (int (to_nat n), t)), GetSlot = (\<lambda>_. 0),
     GetLocation = (\<lambda>c _ _. Some (nat c)), load_int = (\<lambda>l t. t l), store_int = (\<lambda>l v t. t(l := v)),
     GetMaxCounters = (\<lambda>_. 0), GetRowName = (\<lambda>_ _. []), GetRowValue = (\<lambda>_ _. 0)\<rparr>"

definition demo_time :: base_time where
  "demo_time = \<lparr>FromSeconds = (\<lambda>s. s * 10 ^ 6), InSeconds = (\<lambda>d. d div 10 ^ 6), InMinutes = (\<lambda>d. d div (60 * 10 ^ 6)),
     FromString = (\<lambda>_. Some (600 * 10 ^ 6))\<rparr>"

lemma demo_table_ok: "stats_table_ok demo_table"
  by (auto simp: stats_table_ok_def counter_value_def counter_loc_def demo_table_def)

lemma demo_time_ok: "base_time_ok demo_time"
  by (simp add: base_time_ok_def demo_time_def)


end
