(* ===== verification/Basic_Cmd_Args.thy ===== *)
theory Basic_Cmd_Args
  imports Prelude
begin

text \<open>
  \<open>examples/server/plugins/plugin_BasicCmdArgs/src/main_plugin_logic.cc\<close>: two switches of the command line, neither of which is
  implemented. \<open>HasSwitch\<close> of the command line is a parameter.
\<close>

definition kVersionSwitch :: string where "kVersionSwitch = ''version''"
definition kHelpSwitch :: string where "kHelpSwitch = ''help''"

datatype cmd_effect = NotImplemented string

definition handleVersionCmd :: "cmd_effect list" where
  "handleVersionCmd = [NotImplemented ''TODO: --version'']"

definition handleHelpCmd :: "cmd_effect list" where
  "handleHelpCmd = [NotImplemented ''TODO: --help'']"

text \<open>With both switches only the first is looked at.\<close>

definition handleCmd :: "(string \<Rightarrow> bool) \<Rightarrow> cmd_effect list" where
  "handleCmd has_switch =
     (if has_switch kVersionSwitch then handleVersionCmd
      else if has_switch kHelpSwitch then handleHelpCmd else [])"

end
