(* ===== verification/Asio_Threads.thy ===== *)
theory Asio_Threads
  imports Plugin_Config
begin

text \<open>
  The threads that run the \<open>io_context\<close>:
  \<open>examples/server/plugins/plugin_AsioContextThreads/src/net/asio_threads_manager.cc\<close> and
  \<open>main_plugin_logic.cc\<close>, \<open>main_plugin_interface.cc\<close> of the plugin.

  A thread is whether it runs and how many \<open>runIoc\<close> tasks were posted to its runner; a runner is
  the index of its thread. \<open>Thread::Stop\<close> joins: it returns once the posted tasks have returned, and
  \<open>io_context::run\<close> with a work guard returns only when the \<open>io_context\<close> was stopped. A call that
  blocks for ever is \<open>Inr None\<close>.
\<close>

record asio_thread =
  IsRunning :: bool
  posted_runs :: nat

record AsioThreadsManager =
  asio_threads :: "asio_thread list"
  asio_task_runners :: "nat list"

definition AsioThreadsManager_new :: AsioThreadsManager where
  "AsioThreadsManager_new = \<lparr>asio_threads = [], asio_task_runners = []\<rparr>"

definition PostTask :: "nat \<Rightarrow> AsioThreadsManager \<Rightarrow> AsioThreadsManager" where
  "PostTask k m = m\<lparr>asio_threads := (asio_threads m)[k :=
     (asio_threads m ! k)\<lparr>posted_runs := posted_runs (asio_threads m ! k) + 1\<rparr>]\<rparr>"

text \<open>One round of the loop of \<open>startThreads\<close>.\<close>

definition start_thread :: "build \<Rightarrow> nat \<Rightarrow> AsioThreadsManager \<Rightarrow> AsioThreadsManager result" where
  "start_thread b i m =
     (let m = m\<lparr>asio_task_runners := asio_task_runners m @ [length (asio_threads m)]\<rparr>
      in requires ''asio_task_runners_[i]'' (i < length (asio_task_runners m))
        (let m = m\<lparr>asio_threads := asio_threads m @ [\<lparr>IsRunning = True, posted_runs = 0\<rparr>]\<rparr>
         in Inr (PostTask (asio_task_runners m ! i) m)))"

definition startThreads :: "build \<Rightarrow> nat \<Rightarrow> AsioThreadsManager \<Rightarrow> AsioThreadsManager result" where
  "startThreads b threadsNum m = foldM (start_thread b) [0..<threadsNum] m"

text \<open>\<open>runIoc\<close> returns at once, or runs until the \<open>io_context\<close> is stopped.\<close>

datatype ioc_run = Skipped | RunsUntilStopped

definition runIoc :: "bool \<Rightarrow> ioc_run" where
  "runIoc ioc_stopped = (if ioc_stopped then Skipped else RunsUntilStopped)"

definition stop_thread ::
  "build \<Rightarrow> bool \<Rightarrow> nat \<Rightarrow> AsioThreadsManager option \<Rightarrow> AsioThreadsManager option result" where
  "stop_thread b ioc_stopped i s = (case s of None \<Rightarrow> Inr None
     | Some m \<Rightarrow> (let t = asio_threads m ! i in
         dcheck b ''asio_thread->IsRunning()'' (IsRunning t)
         (if posted_runs t > 0 \<and> runIoc ioc_stopped = RunsUntilStopped then Inr None
          else Inr (Some (m\<lparr>asio_threads := (asio_threads m)[i := \<lparr>IsRunning = False, posted_runs = 0\<rparr>]\<rparr>)))))"

definition stopThreads :: "build \<Rightarrow> bool \<Rightarrow> AsioThreadsManager \<Rightarrow> AsioThreadsManager option result" where
  "stopThreads b ioc_stopped m = foldM (stop_thread b ioc_stopped) [0..<length (asio_threads m)] (Some m)"

definition AsioThreadsManager_delete :: "build \<Rightarrow> AsioThreadsManager \<Rightarrow> unit result" where
  "AsioThreadsManager_delete b m =
     foldM (\<lambda>t _. dcheck b ''!asio_thread->IsRunning()'' (\<not> IsRunning t) (Inr ())) (asio_threads m) ()"

text \<open>The plugin: construction with the configured number, \<open>unload\<close> (which stops the \<open>io_context\<close>) and destruction.\<close>

definition asio_logic_new :: "build \<Rightarrow> int \<Rightarrow> AsioThreadsManager result" where
  "asio_logic_new b threads =
     check ''checked_cast<size_t>'' (0 \<le> threads) (startThreads b (nat threads) AsioThreadsManager_new)"

definition asio_unload :: "bool \<Rightarrow> bool" where
  "asio_unload ioc_stopped = True"

definition asio_logic_delete :: "build \<Rightarrow> bool \<Rightarrow> AsioThreadsManager \<Rightarrow> AsioThreadsManager option result" where
  "asio_logic_delete b ioc_stopped m =
     andThen (stopThreads b ioc_stopped m) (\<lambda>s. case s of None \<Rightarrow> Inr None
       | Some m \<Rightarrow> andThen (AsioThreadsManager_delete b m) (\<lambda>_. Inr (Some m)))"

subsection \<open>Starting\<close>

definition threads_ok :: "AsioThreadsManager \<Rightarrow> bool" where
  "threads_ok m = (asio_task_runners m = [0..<length (asio_threads m)])"

lemma startThreads_effect:
  assumes "threads_ok m"
  shows "\<exists>m'. startThreads b n m = Inr m' \<and> threads_ok m' \<and> length (asio_threads m') = length (asio_threads m) + n \<and>
    (\<forall>i < length (asio_threads m'). asio_threads m' ! i =
      (if i < length (asio_threads m) then asio_threads m ! i else \<lparr>IsRunning = True, posted_runs = 0\<rparr>)
        \<lparr>posted_runs := (if i < length (asio_threads m) then posted_runs (asio_threads m ! i) else 0) + (if i < n then 1 else 0)\<rparr>)"
proof (induction n)
  case 0
  then show ?case using assms by (simp add: startThreads_def)
next
  case (Suc n)
  then obtain m1 where m1: "startThreads b n m = Inr m1" "threads_ok m1"
    "length (asio_threads m1) = length (asio_threads m) + n"
    "\<And>i. i < length (asio_threads m1) \<Longrightarrow> asio_threads m1 ! i =
      (if i < length (asio_threads m) then asio_threads m ! i else \<lparr>IsRunning = True, posted_runs = 0\<rparr>)
        \<lparr>posted_runs := (if i < length (asio_threads m) then posted_runs (asio_threads m ! i) else 0) + (if i < n then 1 else 0)\<rparr>"
    by blast
  let ?N = "length (asio_threads m1)"
  let ?ts = "asio_threads m1 @ [\<lparr>IsRunning = True, posted_runs = 0\<rparr>]"
  let ?m' = "\<lparr>asio_threads = ?ts[n := (?ts ! n)\<lparr>posted_runs := posted_runs (?ts ! n) + 1\<rparr>], asio_task_runners = [0..<Suc ?N]\<rparr>"
  have run: "[0..<?N] @ [?N] = [0..<Suc ?N]" by simp
  have "n < Suc ?N" using m1(3) by simp
  then have "start_thread b n m1 = Inr ?m'"
    using m1(2) by (simp add: start_thread_def PostTask_def threads_ok_def Let_def run nth_upt del: upt_Suc)
  then have "startThreads b (Suc n) m = Inr ?m'"
    using m1(1) by (simp add: startThreads_def foldM_append)
  moreover have "threads_ok ?m'" by (simp add: threads_ok_def)
  moreover have "length (asio_threads ?m') = length (asio_threads m) + Suc n" using m1(3) by simp
  moreover have "asio_threads ?m' ! i =
      (if i < length (asio_threads m) then asio_threads m ! i else \<lparr>IsRunning = True, posted_runs = 0\<rparr>)
        \<lparr>posted_runs := (if i < length (asio_threads m) then posted_runs (asio_threads m ! i) else 0) + (if i < Suc n then 1 else 0)\<rparr>"
    if "i < length (asio_threads ?m')" for i
    using that m1(3) m1(4) [of i] by (auto simp: nth_list_update nth_append less_Suc_eq)
  ultimately show ?case by blast
qed

subsection \<open>Stopping\<close>

lemma stop_threads_prefix:
  assumes "\<forall>t \<in> set (asio_threads m). IsRunning t" and "n \<le> length (asio_threads m)"
  shows "foldM (stop_thread b True) [0..<n] (Some m) = Inr (Some (m\<lparr>asio_threads :=
    replicate n \<lparr>IsRunning = False, posted_runs = 0\<rparr> @ drop n (asio_threads m)\<rparr>))"
  using assms(2)
proof (induction n)
  case 0
  then show ?case by simp
next
  case (Suc n)
  let ?m = "m\<lparr>asio_threads := replicate n \<lparr>IsRunning = False, posted_runs = 0\<rparr> @ drop n (asio_threads m)\<rparr>"
  have n: "n < length (asio_threads m)" using Suc.prems by simp
  then have t: "asio_threads ?m ! n = asio_threads m ! n" by (simp add: nth_append)
  have run: "IsRunning (asio_threads m ! n)" using assms(1) n by simp
  have "(replicate n x @ drop n ts)[n := x] = replicate (Suc n) x @ drop (Suc n) ts" if "n < length ts"
    for x :: asio_thread and ts
    using that by (simp add: list_update_append Cons_nth_drop_Suc [symmetric] replicate_append_same)
  from this [OF n] run have "stop_thread b True n (Some ?m) = Inr (Some (m\<lparr>asio_threads :=
    replicate (Suc n) \<lparr>IsRunning = False, posted_runs = 0\<rparr> @ drop (Suc n) (asio_threads m)\<rparr>))"
    unfolding stop_thread_def option.case Let_def t by (simp add: runIoc_def)
  with Suc.IH n show ?case by (simp add: foldM_append)
qed

lemma stop_blocks:
  assumes "asio_threads m = t # ts" and "IsRunning t" and "0 < posted_runs t"
  shows "stopThreads b False m = Inr None"
proof -
  have "foldM (stop_thread b False) is None = Inr None" for "is"
    by (induction "is") (simp_all add: stop_thread_def)
  moreover have "stop_thread b False 0 (Some m) = Inr None"
    using assms by (simp add: stop_thread_def runIoc_def Let_def)
  moreover have "[0..<length (asio_threads m)] = 0 # [1..<length (asio_threads m)]"
    by (simp add: assms(1) upt_conv_Cons del: upt_Suc)
  ultimately show ?thesis by (simp add: stopThreads_def)
qed

lemma delete_stopped:
  "AsioThreadsManager_delete b (m\<lparr>asio_threads := replicate n \<lparr>IsRunning = False, posted_runs = 0\<rparr>\<rparr>) = Inr ()"
proof -
  have "foldM (\<lambda>t _. dcheck b w (\<not> IsRunning t) (Inr ())) (replicate n \<lparr>IsRunning = False, posted_runs = 0\<rparr>) () = Inr ()" for w
    by (induction n) simp_all
  then show ?thesis by (simp add: AsioThreadsManager_delete_def)
qed

subsection \<open>Properties\<close>

text \<open>
  C39: the threads of the \<open>io_context\<close>. A configured number that is negative ends the process. Otherwise exactly that many
  threads run, each with one \<open>runIoc\<close>; after \<open>unload\<close> the destruction of the plugin returns with every
  thread joined, in both builds; destroyed without \<open>unload\<close> it blocks for ever, unless there is no thread. A second
  \<open>startThreads\<close> of at most as many threads posts \<open>runIoc\<close> to the old threads again and leaves the new ones idle.
\<close>

theorem asio_threads_life:
  assumes "asioThreads StringToInt conf = n"
  shows "if n < 0 then \<exists>e. asio_logic_new b n = Inl e
    else \<exists>m. asio_logic_new b n = Inr m \<and> asio_threads m = replicate (nat n) \<lparr>IsRunning = True, posted_runs = 1\<rparr> \<and>
      asio_logic_delete b (asio_unload stopped) m = Inr (Some (m\<lparr>asio_threads :=
        replicate (nat n) \<lparr>IsRunning = False, posted_runs = 0\<rparr>\<rparr>)) \<and>
      (0 < n \<longrightarrow> asio_logic_delete b False m = Inr None) \<and>
      (\<forall>k \<le> nat n. \<exists>m2. startThreads b k m = Inr m2 \<and>
        asio_threads m2 = replicate k \<lparr>IsRunning = True, posted_runs = 2\<rparr> @
          replicate (nat n - k) \<lparr>IsRunning = True, posted_runs = 1\<rparr> @ replicate k \<lparr>IsRunning = True, posted_runs = 0\<rparr>)"
proof (cases "n < 0")
  case True
  then show ?thesis by (simp add: asio_logic_new_def check_def)
next
  case False
  have "threads_ok AsioThreadsManager_new" by (simp add: threads_ok_def AsioThreadsManager_new_def)
  from startThreads_effect [OF this, of b "nat n"] obtain m where m: "startThreads b (nat n) AsioThreadsManager_new = Inr m"
    "threads_ok m" "length (asio_threads m) = nat n"
    "\<And>i. i < nat n \<Longrightarrow> asio_threads m ! i = \<lparr>IsRunning = True, posted_runs = 1\<rparr>"
    by (auto simp: AsioThreadsManager_new_def)
  have ts: "asio_threads m = replicate (nat n) \<lparr>IsRunning = True, posted_runs = 1\<rparr>"
    by (rule nth_equalityI) (simp_all add: m(3,4))
  have "stopThreads b True m = Inr (Some (m\<lparr>asio_threads := replicate (nat n) \<lparr>IsRunning = False, posted_runs = 0\<rparr>\<rparr>))"
    using stop_threads_prefix [of m "nat n" b] by (simp add: stopThreads_def ts)
  then have "asio_logic_delete b (asio_unload stopped) m = Inr (Some (m\<lparr>asio_threads :=
        replicate (nat n) \<lparr>IsRunning = False, posted_runs = 0\<rparr>\<rparr>))"
    by (simp add: asio_logic_delete_def asio_unload_def delete_stopped)
  moreover have "asio_logic_delete b False m = Inr None" if "0 < n"
  proof -
    have "0 < nat n" using that by simp
    then obtain k where "nat n = Suc k" using gr0_implies_Suc by blast
    then have "asio_threads m = \<lparr>IsRunning = True, posted_runs = 1\<rparr> # replicate k \<lparr>IsRunning = True, posted_runs = 1\<rparr>"
      by (simp add: ts)
    from stop_blocks [OF this] show ?thesis by (simp add: asio_logic_delete_def)
  qed
  moreover have "\<exists>m2. startThreads b k m = Inr m2 \<and>
        asio_threads m2 = replicate k \<lparr>IsRunning = True, posted_runs = 2\<rparr> @
          replicate (nat n - k) \<lparr>IsRunning = True, posted_runs = 1\<rparr> @ replicate k \<lparr>IsRunning = True, posted_runs = 0\<rparr>"
    if "k \<le> nat n" for k
  proof -
    from startThreads_effect [OF m(2), of b k] obtain m2 where m2: "startThreads b k m = Inr m2"
      "length (asio_threads m2) = nat n + k"
      "\<And>i. i < nat n + k \<Longrightarrow> asio_threads m2 ! i =
        (if i < nat n then asio_threads m ! i else \<lparr>IsRunning = True, posted_runs = 0\<rparr>)
        \<lparr>posted_runs := (if i < nat n then posted_runs (asio_threads m ! i) else 0) + (if i < k then 1 else 0)\<rparr>"
      by (auto simp: m(3))
    have "asio_threads m2 = replicate k \<lparr>IsRunning = True, posted_runs = 2\<rparr> @
          replicate (nat n - k) \<lparr>IsRunning = True, posted_runs = 1\<rparr> @ replicate k \<lparr>IsRunning = True, posted_runs = 0\<rparr>"
      by (rule nth_equalityI) (use that in \<open>auto simp: m2(2,3) m(4) nth_append\<close>)
    with m2(1) show ?thesis by blast
  qed
  ultimately show ?thesis using False m(1) ts by (auto simp: asio_logic_new_def)
qed

theorem asio_threads_life_witness:
  "\<exists>m. asio_logic_new Debug 4 = Inr m \<and> length (asio_threads m) = 4 \<and> asio_logic_delete Debug False m = Inr None"
  using asio_threads_life [of "\<lambda>_. 0" "\<lambda>_. None" 4 Debug False]
  by (auto simp: asioThreads_def configured_int_def kDefaultAsioThreads_def)

end
