(* ===== verification/Periodic_Executor.thy ===== *)
theory Periodic_Executor
  imports Prelude
begin

text \<open>
  A periodic executor that lives in the context of its sequence. Two plugins have the same three functions
  for it, each with a type of its own: one makes the object, one starts its timer, one removes it. The
  locale is that interface; its clients are \<open>load\<close> (make, then start) and \<open>unload\<close> (remove).

  The state is the object in the context, if there is one, and the period that it was started with. The sequence-local
  context is not part of the repository: setting a type twice, and using or removing one
  that is not set, are outside its precondition.
\<close>

type_synonym executor_context = "int option option"

text \<open>A sequence of loads (\<open>True\<close>) and unloads, and the ones that alternate.\<close>

fun executor_calls ::
  "(executor_context \<Rightarrow> executor_context result) \<Rightarrow> (executor_context \<Rightarrow> executor_context result) \<Rightarrow>
   bool list \<Rightarrow> executor_context \<Rightarrow> executor_context result" where
  "executor_calls load unload [] c = Inr c"
| "executor_calls load unload (k # cs) c = andThen (if k then load c else unload c) (executor_calls load unload cs)"

fun alternating :: "bool \<Rightarrow> bool list \<Rightarrow> bool" where
  "alternating loaded [] = True"
| "alternating loaded (k # cs) = (k \<noteq> loaded \<and> alternating k cs)"

locale periodic_executor =
  fixes make :: "build \<Rightarrow> executor_context \<Rightarrow> executor_context result"
    and start :: "build \<Rightarrow> int \<Rightarrow> executor_context \<Rightarrow> executor_context result"
    and remove :: "build \<Rightarrow> executor_context \<Rightarrow> executor_context result"
  assumes make_new: "make b None = Inr (Some None)"
    and make_twice: "c \<noteq> None \<Longrightarrow> \<exists>e. make b c = Inl e"
    and start_made: "start b p (Some q) = Inr (Some (Some p))"
    and start_missing: "\<exists>e. start b p None = Inl e"
    and remove_made: "remove b (Some q) = Inr None"
    and remove_missing: "\<exists>e. remove b None = Inl e"
begin

lemma calls_alternate:
  assumes "\<And>c. load c = andThen (make b c) (start b p)"
  shows "returns (executor_calls load (remove b) cs c) \<longleftrightarrow> alternating (c \<noteq> None) cs"
proof (induction cs arbitrary: c)
  case Nil
  then show ?case by simp
next
  case (Cons k cs)
  show ?case
  proof (cases k)
    case False
    with Cons.IH [of None] remove_missing [of b] show ?thesis by (cases c) (auto simp: remove_made)
  next
    case True
    with Cons.IH [of "Some (Some p)"] make_twice [of c b] show ?thesis
      by (cases c) (auto simp: assms make_new start_made)
  qed
qed

end

end
