(* ===== verification/Console_Terminal.thy ===== *)
theory Console_Terminal
  imports Signal_Handler Periodic_Executor Plugin_Config
begin

text \<open>
  The console reader of the example server:
  \<open>examples/server/plugins/plugin_ConsoleTerminal/src/main_plugin_logic.cc\<close>. A timer on a sequence of its own
  calls \<open>updateConsoleInput\<close>, which reads a line if there is input; the line is posted to the main
  loop and handed to the listeners of the dispatcher (\<open>handleConsoleInput\<close> of \<open>Signal_Handler\<close>).

  \<open>std::cin\<close> is the text that is left and its end-of-file flag; what \<open>kbhit\<close> (\<open>select\<close> on standard input)
  answers is an argument. The timer is not modelled: \<open>console_polls\<close> is a sequence of its calls.
\<close>

subsection \<open>The periodic executor on its sequence\<close>

definition setConsolePeriodicTaskExecutorOnSequence :: "build \<Rightarrow> executor_context \<Rightarrow> executor_context result" where
  "setConsolePeriodicTaskExecutorOnSequence b c =
     dcheck b ''!try_ctx<ConsolePeriodicTaskExecutor>'' (c = None)
       (requires ''set_once<ConsolePeriodicTaskExecutor>'' (c = None) (Inr (Some None)))"

definition startConsolePeriodicTaskExecutorOnSequence :: "build \<Rightarrow> int \<Rightarrow> executor_context \<Rightarrow> executor_context result" where
  "startConsolePeriodicTaskExecutorOnSequence b endTimeDelta c =
     dcheck b ''try_ctx<ConsolePeriodicTaskExecutor>'' (c \<noteq> None)
       (requires ''ctx<ConsolePeriodicTaskExecutor>'' (c \<noteq> None) (Inr (Some (Some endTimeDelta))))"

definition unsetConsolePeriodicTaskExecutorOnSequence :: "build \<Rightarrow> executor_context \<Rightarrow> executor_context result" where
  "unsetConsolePeriodicTaskExecutorOnSequence b c =
     dcheck b ''try_ctx<ConsolePeriodicTaskExecutor>'' (c \<noteq> None)
       (requires ''unset<ConsolePeriodicTaskExecutor>'' (c \<noteq> None) (Inr None))"

text \<open>\<open>load\<close> posts the first two, one after the other, \<open>unload\<close> the third.\<close>

definition console_load ::
  "(string \<Rightarrow> int) \<Rightarrow> configuration \<Rightarrow> build \<Rightarrow> executor_context \<Rightarrow> executor_context result" where
  "console_load StringToInt conf b c =
     andThen (setConsolePeriodicTaskExecutorOnSequence b c)
       (startConsolePeriodicTaskExecutorOnSequence b (consoleInputFreqMillisec StringToInt conf))"

definition console_unload :: "build \<Rightarrow> executor_context \<Rightarrow> executor_context result" where
  "console_unload b c = unsetConsolePeriodicTaskExecutorOnSequence b c"

interpretation console_executor: periodic_executor setConsolePeriodicTaskExecutorOnSequence
  startConsolePeriodicTaskExecutorOnSequence unsetConsolePeriodicTaskExecutorOnSequence
  by unfold_locales (auto simp: setConsolePeriodicTaskExecutorOnSequence_def
      startConsolePeriodicTaskExecutorOnSequence_def unsetConsolePeriodicTaskExecutorOnSequence_def dcheck_def requires_def)

lemma console_calls:
  "returns (executor_calls (console_load StringToInt conf b) (console_unload b) calls None) \<longleftrightarrow> alternating False calls"
proof -
  have "console_unload b = unsetConsolePeriodicTaskExecutorOnSequence b" by (intro ext) (simp add: console_unload_def)
  with console_executor.calls_alternate [of "console_load StringToInt conf b" b _ calls None] show ?thesis by (simp add: console_load_def)
qed

subsection \<open>Reading lines\<close>

definition newline :: char where "newline = CHR 0x0A"

record console =
  cin_rest :: string
  cin_eof :: bool

text \<open>\<open>std::getline(std::cin, line)\<close>.\<close>

definition getline :: "console \<Rightarrow> string \<times> console" where
  "getline c = (takeWhile (\<lambda>x. x \<noteq> newline) (cin_rest c),
     case dropWhile (\<lambda>x. x \<noteq> newline) (cin_rest c) of
       [] \<Rightarrow> \<lparr>cin_rest = [], cin_eof = True\<rparr> | _ # r \<Rightarrow> c\<lparr>cin_rest := r\<rparr>)"

text \<open>One call of the timer: the lines that \<open>postOnRunnerDispatcherEvent\<close> posts to the main loop.\<close>

definition updateConsoleInput :: "bool \<Rightarrow> console \<Rightarrow> console \<times> string list" where
  "updateConsoleInput kbhit c =
     (if \<not> kbhit then (c, [])
      else if \<not> cin_eof c then (case getline c of (line, c) \<Rightarrow> (c, [line]))
      else (c, []))"

text \<open>The posted task: the dispatcher may be gone; \<open>trigger\<close> calls what is connected to it.\<close>

definition postOnRunnerDispatcherEvent :: "bool \<Rightarrow> bool \<Rightarrow> string \<Rightarrow> main_loop_task list" where
  "postOnRunnerDispatcherEvent has_dispatcher connected line =
     (if \<not> has_dispatcher then [] else if connected then handleConsoleInput line else [])"

fun console_polls :: "bool list \<Rightarrow> console \<Rightarrow> console \<times> string list" where
  "console_polls [] c = (c, [])"
| "console_polls (k # ks) c = (case updateConsoleInput k c of (c, ls) \<Rightarrow>
     case console_polls ks c of (c, ls') \<Rightarrow> (c, ls @ ls'))"

subsection \<open>The lines of a text\<close>

fun lines_of :: "string \<Rightarrow> string list" where
  "lines_of [] = [[]]"
| "lines_of (c # s) = (if c = newline then [] # lines_of s
     else case lines_of s of [] \<Rightarrow> [[c]] | l # ls \<Rightarrow> (c # l) # ls)"

fun join_lines :: "string list \<Rightarrow> string" where
  "join_lines [] = []"
| "join_lines [l] = l"
| "join_lines (l # ls) = l @ newline # join_lines ls"

lemma lines_nonempty: "lines_of s \<noteq> []"
  by (induction s) (auto split: list.split)

lemma join_lines_of: "join_lines (lines_of s) = s"
proof (induction s)
  case Nil
  then show ?case by simp
next
  case (Cons c s)
  obtain l ls where l: "lines_of s = l # ls" using lines_nonempty [of s] by (cases "lines_of s") auto
  with Cons show ?case by (cases ls) auto
qed

lemma lines_of_split:
  "lines_of s = takeWhile (\<lambda>x. x \<noteq> newline) s #
     (case dropWhile (\<lambda>x. x \<noteq> newline) s of [] \<Rightarrow> [] | _ # r \<Rightarrow> lines_of r)"
  by (induction s) auto

text \<open>The lines that are still to come.\<close>

definition lines_left :: "console \<Rightarrow> string list" where
  "lines_left c = (if cin_eof c then [] else lines_of (cin_rest c))"

lemma update_lines:
  "updateConsoleInput k c = (c', ls) \<Longrightarrow>
    ls = take (if k then 1 else 0) (lines_left c) \<and> lines_left c' = drop (if k then 1 else 0) (lines_left c)"
  using lines_of_split [of "cin_rest c"]
  by (cases "dropWhile (\<lambda>x. x \<noteq> newline) (cin_rest c)")
    (auto simp del: dropWhile_eq_Nil_conv simp: updateConsoleInput_def getline_def lines_left_def split: if_splits)

lemma polls_lines:
  "console_polls ks c = (c', ls) \<Longrightarrow> ls = take (length (filter id ks)) (lines_left c)"
proof (induction ks arbitrary: c c' ls)
  case Nil
  then show ?case by simp
next
  case (Cons k ks)
  from Cons.prems obtain c1 ls1 ls2 where 1: "updateConsoleInput k c = (c1, ls1)"
    "console_polls ks c1 = (c', ls2)" "ls = ls1 @ ls2" by (auto split: prod.splits)
  from update_lines [OF 1(1)] Cons.IH [OF 1(2)] 1(3) show ?case
    by (cases "lines_left c") auto
qed

lemma stop_tasks:
  "concat (map (postOnRunnerDispatcherEvent True True) ls) = replicate (count_list ls ''stop'') PostTerminationEvent"
  by (induction ls) (auto simp: postOnRunnerDispatcherEvent_def handleConsoleInput_def)

subsection \<open>Properties\<close>

text \<open>
  C40: the lines of the console. Whatever the answers of \<open>kbhit\<close>, the posted lines are the first lines of standard
  input, one per call that finds input, in order and without loss: joined by newlines all of them are
  the text again, and nothing is posted after its end. The main loop gets one
  termination event for every line \<open>stop\<close>, and none if the dispatcher is gone.
\<close>

theorem console_lines:
  assumes "console_polls ks \<lparr>cin_rest = s, cin_eof = False\<rparr> = (c, ls)"
  shows "ls = take (length (filter id ks)) (lines_of s) \<and>
    (length (lines_of s) \<le> length (filter id ks) \<longrightarrow> join_lines ls = s) \<and>
    concat (map (postOnRunnerDispatcherEvent True True) ls) = replicate (count_list ls ''stop'') PostTerminationEvent \<and>
    concat (map (postOnRunnerDispatcherEvent False connected) ls) = []"
  using polls_lines [OF assms] join_lines_of [of s] stop_tasks [of ls]
  by (auto simp: lines_left_def postOnRunnerDispatcherEvent_def)

theorem console_lines_witness:
  "\<exists>c. console_polls [True, False, True, True, True] \<lparr>cin_rest = ''a'' @ [newline] @ ''stop'', cin_eof = False\<rparr> =
      (c, [''a'', ''stop'']) \<and>
    concat (map (postOnRunnerDispatcherEvent True True) [''a'', ''stop'']) = [PostTerminationEvent]"
proof -
  have "console_polls [True, False, True, True, True] \<lparr>cin_rest = ''a'' @ [newline] @ ''stop'', cin_eof = False\<rparr> =
      (\<lparr>cin_rest = [], cin_eof = True\<rparr>, [''a'', ''stop''])"
    by (simp add: updateConsoleInput_def getline_def newline_def)
  moreover from console_lines [OF this] have
    "concat (map (postOnRunnerDispatcherEvent True True) [''a'', ''stop'']) = replicate (count_list [''a'', ''stop''] ''stop'') PostTerminationEvent"
    by blast
  ultimately show ?thesis by simp
qed

end
