(* ===== verification/Entity_Plugin.thy ===== *)
theory Entity_Plugin
  imports Network_Update Periodic_Executor Plugin_Config
begin

text \<open>
  \<open>examples/server/plugins/plugin_NetworkEntity/src/main_plugin_logic.cc\<close>: the plugin around the systems. Its executor calls
  \<open>NetworkEntityUpdater::update\<close> (\<open>update\<close> of \<open>Network_Update\<close>) from a timer on a sequence of its own; the timer is
  not modelled. The period is \<open>entityUpdateFreqMillisec\<close> of \<open>Plugin_Config\<close>.
\<close>

definition setNetworkEntityPeriodicTaskExecutorOnSequence :: "build \<Rightarrow> executor_context \<Rightarrow> executor_context result" where
  "setNetworkEntityPeriodicTaskExecutorOnSequence b c =
     dcheck b ''!try_ctx<NetworkEntityPeriodicTaskExecutor>'' (c = None)
       (requires ''set_once<NetworkEntityPeriodicTaskExecutor>'' (c = None) (Inr (Some None)))"

definition startNetworkEntityPeriodicTaskExecutorOnSequence ::
  "build \<Rightarrow> int \<Rightarrow> executor_context \<Rightarrow> executor_context result" where
  "startNetworkEntityPeriodicTaskExecutorOnSequence b endTimeDelta c =
     dcheck b ''try_ctx<NetworkEntityPeriodicTaskExecutor>'' (c \<noteq> None)
       (requires ''ctx<NetworkEntityPeriodicTaskExecutor>'' (c \<noteq> None) (Inr (Some (Some endTimeDelta))))"

definition unsetNetworkEntityPeriodicTaskExecutorOnSequence :: "build \<Rightarrow> executor_context \<Rightarrow> executor_context result" where
  "unsetNetworkEntityPeriodicTaskExecutorOnSequence b c =
     dcheck b ''try_ctx<NetworkEntityPeriodicTaskExecutor>'' (c \<noteq> None)
       (requires ''unset<NetworkEntityPeriodicTaskExecutor>'' (c \<noteq> None) (Inr None))"

definition entity_load ::
  "(string \<Rightarrow> int) \<Rightarrow> configuration \<Rightarrow> build \<Rightarrow> executor_context \<Rightarrow> executor_context result" where
  "entity_load StringToInt conf b c =
     andThen (setNetworkEntityPeriodicTaskExecutorOnSequence b c)
       (startNetworkEntityPeriodicTaskExecutorOnSequence b (entityUpdateFreqMillisec StringToInt conf))"

definition entity_unload :: "build \<Rightarrow> executor_context \<Rightarrow> executor_context result" where
  "entity_unload b c = unsetNetworkEntityPeriodicTaskExecutorOnSequence b c"

interpretation entity_executor: periodic_executor setNetworkEntityPeriodicTaskExecutorOnSequence
  startNetworkEntityPeriodicTaskExecutorOnSequence unsetNetworkEntityPeriodicTaskExecutorOnSequence
  by unfold_locales (auto simp: setNetworkEntityPeriodicTaskExecutorOnSequence_def
      startNetworkEntityPeriodicTaskExecutorOnSequence_def unsetNetworkEntityPeriodicTaskExecutorOnSequence_def
      dcheck_def requires_def)

text \<open>Loads and unloads of the plugin return exactly if they alternate, in both builds.\<close>

lemma entity_calls:
  "returns (executor_calls (entity_load StringToInt conf b) (entity_unload b) calls None) \<longleftrightarrow> alternating False calls"
proof -
  have "entity_unload b = unsetNetworkEntityPeriodicTaskExecutorOnSequence b" by (intro ext) (simp add: entity_unload_def)
  with entity_executor.calls_alternate [of "entity_load StringToInt conf b" b _ calls None] show ?thesis
    by (simp add: entity_load_def)
qed

end
