(* ===== verification/Server_World.thy ===== *)
theory Server_World
  imports Plugin_Interface Action_Recorder Extra_Logging Basic_Cmd_Args Asio_Threads Console_Terminal Entity_Plugin Tcp_Server
begin

text \<open>
  The ten plugins of the example server on one state: what their constructors take from and put into the context of the
  registry of the main loop, the promises of their \<open>load\<close> and \<open>unload\<close>, and their destructors, from
  \<open>examples/server/plugins/plugin_*/src/main_plugin_logic.cc\<close>. The operations are the ones of the theories of the single plugins.

  The state keeps of every plugin what the other plugins or its own later steps depend on. The connections are one
  bit, whether the network registry is empty; the listener is one bit, whether it may still make connections. Of the configuration, the clock, the
  command line and the libraries the plugins see the fields of \<open>server_env\<close>.
\<close>

datatype plugin_id =
    P_ExtraLogging | P_NetworkRegistry | P_AsioContextThreads | P_SignalHandler | P_NetworkEntity
  | P_TcpServer | P_ConsoleTerminal | P_BasicTerminalCommands | P_ActionRecorder | P_BasicCmdArgs

record ('a, 'u, 't) server_env =
  se_data :: "plugin_id \<Rightarrow> string \<Rightarrow> string"        \<comment> \<open>\<open>metadata()->data()\<close>\<close>
  se_conf :: "plugin_id \<Rightarrow> configuration"            \<comment> \<open>\<open>metadata()->configuration()\<close>\<close>
  se_StringToInt :: "string \<Rightarrow> int"
  se_make_address :: "string \<Rightarrow> 'a option"
  se_cores :: "32 word"
  se_has_switch :: "string \<Rightarrow> bool"
  se_switch_size :: "string \<Rightarrow> 64 word option"
  se_switch_int :: "string \<Rightarrow> int option"
  se_memory :: "64 word"                            \<comment> \<open>what an uninitialised counter starts with\<close>
  se_metrics :: "'u user_metrics"
  se_stats :: "'t stats_table"
  se_time :: base_time
  se_now :: "int \<times> int"
  se_stop_status :: status                          \<comment> \<open>what the promise of \<open>stopAcceptorAsync\<close> is resolved with\<close>

record ('a, 'u, 't) server_world =
  w_alive :: "plugin_id \<Rightarrow> bool"
  w_SafeRegistry :: bool                             \<comment> \<open>context: \<open>ECS::SafeRegistry\<close>\<close>
  w_io_context :: "bool option"                      \<comment> \<open>context: \<open>io_context\<close>, and whether it is stopped\<close>
  w_dispatcher :: "bool option"                      \<comment> \<open>context: the dispatcher, and whether a listener is connected\<close>
  w_warned :: bool
  w_table :: 't
  w_asio :: "AsioThreadsManager option"
  w_signal :: "SignalHandler option"
  w_signal_wait :: bool                              \<comment> \<open>the \<open>async_wait\<close> of the signal set is pending\<close>
  w_updater :: "updater option"
  w_entity_executor :: executor_context
  w_updates :: nat                                   \<comment> \<open>posted and not yet run: \<open>updateOnRegistryThread\<close>\<close>
  w_endpoint :: "('a \<times> 16 word) option"
  w_server_log :: "server_effect list"
  w_accepting :: bool
  w_stop_posted :: bool                              \<comment> \<open>\<open>stopAcceptor\<close> is posted to the strand of the acceptor\<close>
  w_registry_empty :: bool
  w_console_executor :: executor_context
  w_recorder :: "'u recorder"
  w_cmd_log :: "cmd_effect list"
  w_blocked :: bool                                  \<comment> \<open>the main loop waits for a thread for ever\<close>

definition alive :: "plugin_id \<Rightarrow> ('a, 'u, 't) server_world \<Rightarrow> bool" where
  "alive p w = w_alive w p"

definition set_alive :: "plugin_id \<Rightarrow> bool \<Rightarrow> ('a, 'u, 't) server_world \<Rightarrow> ('a, 'u, 't) server_world" where
  "set_alive p v w = w\<lparr>w_alive := (w_alive w)(p := v)\<rparr>"

text \<open>\<open>registry().ctx<T>()\<close> of the two types that the plugins share.\<close>

definition ctx_SafeRegistry :: "('w \<Rightarrow> bool) \<Rightarrow> ('w \<Rightarrow> 'b result) \<Rightarrow> 'w \<Rightarrow> 'b result" where
  "ctx_SafeRegistry is_set k w = requires ''ctx<ECS::SafeRegistry>'' (is_set w) (k w)"

definition ctx_io_context ::
  "(bool \<Rightarrow> ('a, 'u, 't) server_world \<Rightarrow> 'b result) \<Rightarrow> ('a, 'u, 't) server_world \<Rightarrow> 'b result" where
  "ctx_io_context k w = (case w_io_context w of None \<Rightarrow> Inl (UNDEFINED ''ctx<io_context>'') | Some s \<Rightarrow> k s w)"

subsection \<open>ExtraLogging, NetworkRegistry, BasicCmdArgs\<close>

definition extra_logging_logic ::
  "('a, 'u, 't) server_env \<Rightarrow> build \<Rightarrow> ('a, 'u, 't) server_world plugin_logic" where
  "extra_logging_logic E b =
     \<lparr>logic_alive = alive P_ExtraLogging, logic_set_alive = set_alive P_ExtraLogging,
      logic_new = (\<lambda>w. andThen (extra_logging_new (se_StringToInt E) (se_conf E P_ExtraLogging) (se_cores E))
        (\<lambda>warned. Inr (w\<lparr>w_warned := warned\<rparr>))),
      logic_load = [Do (on_logic (alive P_ExtraLogging) Inr)],
      logic_unload = [Do (on_logic (alive P_ExtraLogging) Inr)],
      logic_delete = (\<lambda>w. andThen (ScopedStatsTableUpdater_delete (se_stats E) (se_time E) b (fst (se_now E)) (snd (se_now E))
        (w_table w)) (\<lambda>(log, t). Inr (w\<lparr>w_table := t\<rparr>)))\<rparr>"

definition network_registry_logic :: "('a, 'u, 't) server_world plugin_logic" where
  "network_registry_logic =
     \<lparr>logic_alive = alive P_NetworkRegistry, logic_set_alive = set_alive P_NetworkRegistry,
      logic_new = (\<lambda>w. Inr (w\<lparr>w_SafeRegistry := True\<rparr>)),
      logic_load = [Do (on_logic (alive P_NetworkRegistry) Inr)],
      logic_unload = [Do (on_logic (alive P_NetworkRegistry) Inr)],
      logic_delete = Inr\<rparr>"

definition basic_cmd_args_logic ::
  "('a, 'u, 't) server_env \<Rightarrow> ('a, 'u, 't) server_world plugin_logic" where
  "basic_cmd_args_logic E =
     \<lparr>logic_alive = alive P_BasicCmdArgs, logic_set_alive = set_alive P_BasicCmdArgs,
      logic_new = Inr,
      logic_load = [Do (on_logic (alive P_BasicCmdArgs) (\<lambda>w. Inr (w\<lparr>w_cmd_log := w_cmd_log w @ handleCmd (se_has_switch E)\<rparr>)))],
      logic_unload = [Do (on_logic (alive P_BasicCmdArgs) Inr)],
      logic_delete = Inr\<rparr>"

subsection \<open>AsioContextThreads\<close>

text \<open>
  The \<open>io_context\<close> is set before the registry is looked up. The posted task of \<open>unload\<close> looks the context up again and does not use the
  logic object.
\<close>

definition asio_context_threads_logic ::
  "('a, 'u, 't) server_env \<Rightarrow> build \<Rightarrow> ('a, 'u, 't) server_world plugin_logic" where
  "asio_context_threads_logic E b =
     \<lparr>logic_alive = alive P_AsioContextThreads, logic_set_alive = set_alive P_AsioContextThreads,
      logic_new = (\<lambda>w. ctx_SafeRegistry w_SafeRegistry (\<lambda>w.
        andThen (asio_logic_new b (asioThreads (se_StringToInt E) (se_conf E P_AsioContextThreads)))
          (\<lambda>m. Inr (w\<lparr>w_asio := Some m\<rparr>))) (w\<lparr>w_io_context := Some False\<rparr>)),
      logic_load = [Do (on_logic (alive P_AsioContextThreads) Inr)],
      logic_unload = [Do (on_logic (alive P_AsioContextThreads) (dcheck b ''mainLoopRunner_'' True \<circ> Inr)),
        Do (ctx_io_context (\<lambda>s w. Inr (w\<lparr>w_io_context := Some (asio_unload s)\<rparr>)))],
      logic_delete = (\<lambda>w. case w_asio w of None \<Rightarrow> Inr w
        | Some m \<Rightarrow> andThen (asio_logic_delete b (w_io_context w = Some True) m) (\<lambda>r. case r of
            None \<Rightarrow> Inr (w\<lparr>w_blocked := True\<rparr>) | Some m \<Rightarrow> Inr (w\<lparr>w_asio := Some m\<rparr>)))\<rparr>"

subsection \<open>SignalHandler\<close>

text \<open>
  The destructor of the signal set completes a pending wait with \<open>operation_aborted\<close>. The handler is bound to the
  \<open>SignalHandler\<close> with a plain pointer and does not look at the error code, so it must not run any more, which is so when the
  \<open>io_context\<close> is stopped.
\<close>

definition signal_handler_logic :: "build \<Rightarrow> ('a, 'u, 't) server_world plugin_logic" where
  "signal_handler_logic b =
     \<lparr>logic_alive = alive P_SignalHandler, logic_set_alive = set_alive P_SignalHandler,
      logic_new = ctx_io_context (\<lambda>s w. Inr (w\<lparr>w_signal := Some SignalHandler_new, w_signal_wait := True\<rparr>)),
      logic_load = [Do (on_logic (alive P_SignalHandler) Inr)],
      logic_unload = [Do (on_logic (alive P_SignalHandler) (dcheck b ''mainLoopRunner_'' True \<circ> Inr))],
      logic_delete = (\<lambda>w. requires ''handleSignal(this)'' (w_signal_wait w \<longrightarrow> w_io_context w = Some True)
        (Inr (w\<lparr>w_signal := None, w_signal_wait := False\<rparr>)))\<rparr>"

subsection \<open>NetworkEntity\<close>

text \<open>The tasks of the sequence of the executor are free functions; only the callback of the timer has a pointer to the updater.\<close>

definition network_entity_logic ::
  "('a, 'u, 't) server_env \<Rightarrow> build \<Rightarrow> ('a, 'u, 't) server_world plugin_logic" where
  "network_entity_logic E b =
     \<lparr>logic_alive = alive P_NetworkEntity, logic_set_alive = set_alive P_NetworkEntity,
      logic_new = ctx_io_context (\<lambda>s. ctx_SafeRegistry w_SafeRegistry (\<lambda>w.
        Inr (w\<lparr>w_updater := Some (NetworkEntityUpdater_new (se_switch_size E) (se_switch_int E) (se_memory E))\<rparr>))),
      logic_load = [Do (on_logic (alive P_NetworkEntity) Inr),
        Do (\<lambda>w. andThen (setNetworkEntityPeriodicTaskExecutorOnSequence b (w_entity_executor w))
          (\<lambda>c. Inr (w\<lparr>w_entity_executor := c\<rparr>))),
        Do (\<lambda>w. andThen (startNetworkEntityPeriodicTaskExecutorOnSequence b
            (entityUpdateFreqMillisec (se_StringToInt E) (se_conf E P_NetworkEntity)) (w_entity_executor w))
          (\<lambda>c. Inr (w\<lparr>w_entity_executor := c\<rparr>)))],
      logic_unload = [Do (on_logic (alive P_NetworkEntity) Inr),
        Do (\<lambda>w. andThen (unsetNetworkEntityPeriodicTaskExecutorOnSequence b (w_entity_executor w))
          (\<lambda>c. Inr (w\<lparr>w_entity_executor := c\<rparr>)))],
      logic_delete = (\<lambda>w. Inr (w\<lparr>w_updater := None\<rparr>))\<rparr>"

subsection \<open>TcpServer\<close>

text \<open>A step of the server plugin on the \<open>io_context\<close> of the context.\<close>

definition server_task ::
  "(tcp_server \<Rightarrow> server_step) \<Rightarrow> ('a, 'u, 't) server_world \<Rightarrow> ('a, 'u, 't) server_world result" where
  "server_task f = ctx_io_context (\<lambda>s w. andThen (f \<lparr>ioc_is_stopped = s\<rparr>) (\<lambda>(s, es).
     Inr (w\<lparr>w_io_context := Some (ioc_is_stopped s), w_server_log := w_server_log w @ es\<rparr>)))"

text \<open>
  The constructor, in the order of the members. The promise of \<open>unload\<close>: post the stop of the acceptor to its strand, wait
  until it has run, start the validation, wait until the registry is empty, stop the \<open>io_context\<close>.
\<close>

definition tcp_server_logic ::
  "('a, 'u, 't) server_env \<Rightarrow> build \<Rightarrow> ('a, 'u, 't) server_world plugin_logic" where
  "tcp_server_logic E b =
     \<lparr>logic_alive = alive P_TcpServer, logic_set_alive = set_alive P_TcpServer,
      logic_new = ctx_io_context (\<lambda>s w.
        andThen (tcpEndpoint (se_make_address E) (se_StringToInt E) (se_conf E P_TcpServer)) (\<lambda>ep.
          ctx_SafeRegistry w_SafeRegistry (\<lambda>w. Inr (w\<lparr>w_endpoint := Some ep\<rparr>)) w)),
      logic_load = [Do (on_logic (alive P_TcpServer) Inr),
        Do (on_logic (alive P_TcpServer) (\<lambda>w. andThen (server_task startAcceptors w) (\<lambda>w. Inr (w\<lparr>w_accepting := True\<rparr>))))],
      logic_unload = [Do (on_logic (alive P_TcpServer) Inr),
        Do (on_logic (alive P_TcpServer) (\<lambda>w. andThen (server_task unload w) (\<lambda>w. Inr (w\<lparr>w_stop_posted := True\<rparr>)))),
        Await (\<lambda>w. \<not> w_accepting w),
        Do (on_logic (alive P_TcpServer) (server_task (acceptor_stopped b (se_stop_status E)))),
        Await w_registry_empty,
        Do (on_logic (alive P_TcpServer) (server_task (stopIOContext b)))],
      logic_delete = (\<lambda>w. Inr (w\<lparr>w_endpoint := None\<rparr>))\<rparr>"

subsection \<open>ConsoleTerminal and BasicTerminalCommands\<close>

definition console_terminal_logic ::
  "('a, 'u, 't) server_env \<Rightarrow> build \<Rightarrow> ('a, 'u, 't) server_world plugin_logic" where
  "console_terminal_logic E b =
     \<lparr>logic_alive = alive P_ConsoleTerminal, logic_set_alive = set_alive P_ConsoleTerminal,
      logic_new = (\<lambda>w. Inr (w\<lparr>w_dispatcher := Some False\<rparr>)),
      logic_load = [Do (on_logic (alive P_ConsoleTerminal) Inr),
        Do (\<lambda>w. andThen (setConsolePeriodicTaskExecutorOnSequence b (w_console_executor w))
          (\<lambda>c. Inr (w\<lparr>w_console_executor := c\<rparr>))),
        Do (\<lambda>w. andThen (startConsolePeriodicTaskExecutorOnSequence b
            (consoleInputFreqMillisec (se_StringToInt E) (se_conf E P_ConsoleTerminal)) (w_console_executor w))
          (\<lambda>c. Inr (w\<lparr>w_console_executor := c\<rparr>)))],
      logic_unload = [Do (on_logic (alive P_ConsoleTerminal) (dcheck b ''mainLoopRunner_'' True \<circ> Inr)),
        Do (\<lambda>w. andThen (unsetConsolePeriodicTaskExecutorOnSequence b (w_console_executor w))
          (\<lambda>c. Inr (w\<lparr>w_console_executor := c\<rparr>)))],
      logic_delete = Inr\<rparr>"

definition basic_terminal_commands_logic :: "build \<Rightarrow> ('a, 'u, 't) server_world plugin_logic" where
  "basic_terminal_commands_logic b =
     \<lparr>logic_alive = alive P_BasicTerminalCommands, logic_set_alive = set_alive P_BasicTerminalCommands,
      logic_new = (\<lambda>w. requires ''ctx<ConsoleTerminalEventDispatcher>'' (w_dispatcher w \<noteq> None)
        (Inr (w\<lparr>w_dispatcher := Some True\<rparr>))),
      logic_load = [Do (on_logic (alive P_BasicTerminalCommands) Inr)],
      logic_unload = [Do (on_logic (alive P_BasicTerminalCommands) (dcheck b ''mainLoopRunner_'' True \<circ> Inr))],
      logic_delete = (\<lambda>w. Inr (w\<lparr>w_dispatcher := Some False\<rparr>))\<rparr>"

subsection \<open>ActionRecorder\<close>

definition action_recorder_logic ::
  "('a, 'u, 't) server_env \<Rightarrow> build \<Rightarrow> ('a, 'u, 't) server_world plugin_logic" where
  "action_recorder_logic E b =
     \<lparr>logic_alive = alive P_ActionRecorder, logic_set_alive = set_alive P_ActionRecorder,
      logic_new = (\<lambda>w. Inr (w\<lparr>w_recorder := recorder_logic_new (w_recorder w)\<rparr>)),
      logic_load = [Do (on_logic (alive P_ActionRecorder) (\<lambda>w. andThen (recorder_load b (w_recorder w))
          (\<lambda>r. Inr (w\<lparr>w_recorder := r\<rparr>)))),
        Do (\<lambda>w. Inr (w\<lparr>w_recorder := if_alive (setCustomCallback (se_metrics E)) (w_recorder w)\<rparr>))],
      logic_unload = [Do (on_logic (alive P_ActionRecorder) (\<lambda>w. andThen (recorder_unload b (w_recorder w))
          (\<lambda>r. Inr (w\<lparr>w_recorder := r\<rparr>)))),
        Do (\<lambda>w. Inr (w\<lparr>w_recorder := if_alive (unsetCustomCallback (se_metrics E)) (w_recorder w)\<rparr>))],
      logic_delete = (\<lambda>w. Inr (w\<lparr>w_recorder := recorder_logic_delete (w_recorder w)\<rparr>))\<rparr>"

subsection \<open>The ten interface objects\<close>

definition extra_logging_interface :: "('a, 'u, 't) server_env \<Rightarrow> build \<Rightarrow> ('a, 'u, 't) server_world plugin_interface" where
  "extra_logging_interface E b = MainPluginInterface_new b (se_data E P_ExtraLogging) (extra_logging_logic E b)"

definition network_registry_interface :: "('a, 'u, 't) server_env \<Rightarrow> build \<Rightarrow> ('a, 'u, 't) server_world plugin_interface" where
  "network_registry_interface E b = MainPluginInterface_new b (se_data E P_NetworkRegistry) network_registry_logic"

definition asio_context_threads_interface ::
  "('a, 'u, 't) server_env \<Rightarrow> build \<Rightarrow> ('a, 'u, 't) server_world plugin_interface" where
  "asio_context_threads_interface E b =
     MainPluginInterface_new b (se_data E P_AsioContextThreads) (asio_context_threads_logic E b)"

definition signal_handler_interface :: "('a, 'u, 't) server_env \<Rightarrow> build \<Rightarrow> ('a, 'u, 't) server_world plugin_interface" where
  "signal_handler_interface E b = MainPluginInterface_new b (se_data E P_SignalHandler) (signal_handler_logic b)"

definition network_entity_interface :: "('a, 'u, 't) server_env \<Rightarrow> build \<Rightarrow> ('a, 'u, 't) server_world plugin_interface" where
  "network_entity_interface E b = MainPluginInterface_new b (se_data E P_NetworkEntity) (network_entity_logic E b)"

definition tcp_server_interface :: "('a, 'u, 't) server_env \<Rightarrow> build \<Rightarrow> ('a, 'u, 't) server_world plugin_interface" where
  "tcp_server_interface E b = MainPluginInterface_new b (se_data E P_TcpServer) (tcp_server_logic E b)"

definition console_terminal_interface :: "('a, 'u, 't) server_env \<Rightarrow> build \<Rightarrow> ('a, 'u, 't) server_world plugin_interface" where
  "console_terminal_interface E b = MainPluginInterface_new b (se_data E P_ConsoleTerminal) (console_terminal_logic E b)"

definition basic_terminal_commands_interface ::
  "('a, 'u, 't) server_env \<Rightarrow> build \<Rightarrow> ('a, 'u, 't) server_world plugin_interface" where
  "basic_terminal_commands_interface E b =
     MainPluginInterface_new b (se_data E P_BasicTerminalCommands) (basic_terminal_commands_logic b)"

definition action_recorder_interface :: "('a, 'u, 't) server_env \<Rightarrow> build \<Rightarrow> ('a, 'u, 't) server_world plugin_interface" where
  "action_recorder_interface E b = MainPluginInterface_new b (se_data E P_ActionRecorder) (action_recorder_logic E b)"

definition basic_cmd_args_interface :: "('a, 'u, 't) server_env \<Rightarrow> build \<Rightarrow> ('a, 'u, 't) server_world plugin_interface" where
  "basic_cmd_args_interface E b = MainPluginInterface_new b (se_data E P_BasicCmdArgs) (basic_cmd_args_logic E)"

fun interface_of :: "('a, 'u, 't) server_env \<Rightarrow> build \<Rightarrow> plugin_id \<Rightarrow> ('a, 'u, 't) server_world plugin_interface" where
  "interface_of E b P_ExtraLogging = extra_logging_interface E b"
| "interface_of E b P_NetworkRegistry = network_registry_interface E b"
| "interface_of E b P_AsioContextThreads = asio_context_threads_interface E b"
| "interface_of E b P_SignalHandler = signal_handler_interface E b"
| "interface_of E b P_NetworkEntity = network_entity_interface E b"
| "interface_of E b P_TcpServer = tcp_server_interface E b"
| "interface_of E b P_ConsoleTerminal = console_terminal_interface E b"
| "interface_of E b P_BasicTerminalCommands = basic_terminal_commands_interface E b"
| "interface_of E b P_ActionRecorder = action_recorder_interface E b"
| "interface_of E b P_BasicCmdArgs = basic_cmd_args_interface E b"

end
