(* ===== verification/Plugin_Run.thy ===== *)
theory Plugin_Run
  imports Plugin_Interface
begin

text \<open>
  Plugins that are loaded (or unloaded) together: the tasks of \<open>Task_Graph\<close>, each with the call that starts it and the chain of
  links that it runs to its end, on a common state; links of different plugins interleave, and the environment (timers, other threads)
  moves in between. A call or a link that ends the process ends the run.

  The locale \<open>staged_run\<close> is the proof rule: every plugin is in a stage that says how far its chain has come and what the state then is for
  it, and no step of another plugin or of the environment changes that.
\<close>

record ('p, 'w) run_spec =
  rn_tasks :: "'p task list"
  rn_call :: "'p \<Rightarrow> 'w \<Rightarrow> 'w result"
  rn_chain :: "'p \<Rightarrow> 'w link list"
  rn_env :: "'w \<Rightarrow> 'w result \<Rightarrow> bool"
  rn_blocked :: "'w \<Rightarrow> bool"

record ('p, 'w) run_state =
  rs_log :: "'p task_event list"
  rs_rest :: "'p \<Rightarrow> 'w link list"
  rs_world :: 'w

inductive plugin_step :: "('p, 'w) run_spec \<Rightarrow> ('p, 'w) run_state \<Rightarrow> ('p, 'w) run_state result \<Rightarrow> bool"
  for R :: "('p, 'w) run_spec" where
  run_begins: "t \<in> set (rn_tasks R) \<Longrightarrow> Started (tk_name t) \<notin> set (rs_log s) \<Longrightarrow>
    (\<forall>d \<in> set (tk_after t). Finished d \<in> set (rs_log s)) \<Longrightarrow> \<not> rn_blocked R (rs_world s) \<Longrightarrow>
    plugin_step R s (andThen (rn_call R (tk_name t) (rs_world s)) (\<lambda>w. Inr \<lparr>rs_log = rs_log s @ [Started (tk_name t)],
      rs_rest = (rs_rest s)(tk_name t := rn_chain R (tk_name t)), rs_world = w\<rparr>))"
| run_does: "rs_rest s p = Do f # ls \<Longrightarrow> \<not> rn_blocked R (rs_world s) \<Longrightarrow>
    plugin_step R s (andThen (f (rs_world s)) (\<lambda>w. Inr (s\<lparr>rs_rest := (rs_rest s)(p := ls), rs_world := w\<rparr>)))"
| run_awaits: "rs_rest s p = Await g # ls \<Longrightarrow> g (rs_world s) \<Longrightarrow>
    plugin_step R s (Inr (s\<lparr>rs_rest := (rs_rest s)(p := ls)\<rparr>))"
| run_ends: "Started p \<in> set (rs_log s) \<Longrightarrow> Finished p \<notin> set (rs_log s) \<Longrightarrow> rs_rest s p = [] \<Longrightarrow>
    plugin_step R s (Inr (s\<lparr>rs_log := rs_log s @ [Finished p]\<rparr>))"

inductive run_step :: "('p, 'w) run_spec \<Rightarrow> ('p, 'w) run_state result \<Rightarrow> ('p, 'w) run_state result \<Rightarrow> bool"
  for R :: "('p, 'w) run_spec" where
  run_plugin: "plugin_step R s r \<Longrightarrow> run_step R (Inr s) r"
| run_env: "rn_env R (rs_world s) r \<Longrightarrow> run_step R (Inr s) (andThen r (\<lambda>w. Inr (s\<lparr>rs_world := w\<rparr>)))"

inductive_cases plugin_stepE: "plugin_step R s r"
inductive_cases run_stepE: "run_step R (Inr s) r"
inductive_cases run_step_InlE: "run_step R (Inl e) r"

definition run_start :: "'w \<Rightarrow> ('p, 'w) run_state" where
  "run_start w = \<lparr>rs_log = [], rs_rest = (\<lambda>_. []), rs_world = w\<rparr>"

abbreviation run_reach :: "('p, 'w) run_spec \<Rightarrow> ('w \<Rightarrow> bool) \<Rightarrow> ('p, 'w) run_state result \<Rightarrow> bool" where
  "run_reach R start \<equiv> reach (\<lambda>r. \<exists>w. start w \<and> r = Inr (run_start w)) (run_step R)"

lemma reach_rtranclp:
  assumes "reach start step s" and "step\<^sup>*\<^sup>* s t"
  shows "reach start step t"
  using assms(2,1) by (induction rule: rtranclp_induct) (auto intro: reach_step)

text \<open>A link that waits for something that is not there yet.\<close>

definition waiting :: "('p, 'w) run_state \<Rightarrow> bool" where
  "waiting s = (\<exists>p g ls. rs_rest s p = Await g # ls \<and> \<not> g (rs_world s))"

locale staged_run =
  fixes R :: "('p, 'w) run_spec"
    and start :: "'w \<Rightarrow> bool"
    and idle :: "'p \<Rightarrow> 'w \<Rightarrow> bool"
    and stage :: "'p \<Rightarrow> nat \<Rightarrow> 'w \<Rightarrow> bool"
    and common :: "'w \<Rightarrow> bool"
    and allowed :: "abort \<Rightarrow> bool"
  assumes at_start: "start w \<Longrightarrow> common w \<and> idle p w"
    and not_blocked: "common w \<Longrightarrow> \<not> rn_blocked R w"
    and call_ok: "t \<in> set (rn_tasks R) \<Longrightarrow> common w \<Longrightarrow> idle (tk_name t) w \<Longrightarrow>
      (\<And>d. d \<in> set (tk_after t) \<Longrightarrow> stage d (length (rn_chain R d)) w) \<Longrightarrow>
      \<exists>w'. rn_call R (tk_name t) w = Inr w' \<and> common w' \<and> stage (tk_name t) 0 w' \<and>
        (\<forall>q. q \<noteq> tk_name t \<longrightarrow> (idle q w \<longrightarrow> idle q w') \<and> (\<forall>k. stage q k w \<longrightarrow> stage q k w'))"
    and link_ok: "common w \<Longrightarrow> stage p k w \<Longrightarrow> k < length (rn_chain R p) \<Longrightarrow> rn_chain R p ! k = Do f \<Longrightarrow>
      \<exists>w'. f w = Inr w' \<and> common w' \<and> stage p (Suc k) w' \<and>
        (\<forall>q. q \<noteq> p \<longrightarrow> (idle q w \<longrightarrow> idle q w') \<and> (\<forall>k. stage q k w \<longrightarrow> stage q k w'))"
    and await_ok: "common w \<Longrightarrow> stage p k w \<Longrightarrow> k < length (rn_chain R p) \<Longrightarrow> rn_chain R p ! k = Await g \<Longrightarrow> g w \<Longrightarrow>
      stage p (Suc k) w"
    and env_ok: "common w \<Longrightarrow> rn_env R w (Inr w') \<Longrightarrow> common w' \<and> (idle q w \<longrightarrow> idle q w') \<and> (stage q k w \<longrightarrow> stage q k w')"
    and env_allowed: "common w \<Longrightarrow> rn_env R w (Inl e) \<Longrightarrow> allowed e"
begin

definition staged :: "('p, 'w) run_state \<Rightarrow> bool" where
  "staged s = (task_inv (rn_tasks R) (rs_log s) \<and> common (rs_world s) \<and>
     (\<forall>p. if Started p \<in> set (rs_log s)
       then \<exists>k \<le> length (rn_chain R p). rs_rest s p = drop k (rn_chain R p) \<and> stage p k (rs_world s) \<and>
         (Finished p \<in> set (rs_log s) \<longrightarrow> k = length (rn_chain R p))
       else rs_rest s p = [] \<and> idle p (rs_world s)))"

lemma staged_finished:
  assumes "staged s" and "Finished p \<in> set (rs_log s)"
  shows "stage p (length (rn_chain R p)) (rs_world s)"
proof -
  have "Started p \<in> set (rs_log s)" using finished_started [of "rn_tasks R", OF _ assms(2)] assms(1) by (simp add: staged_def)
  with assms show ?thesis unfolding staged_def by metis
qed

text \<open>How the invariant is established after a step of plugin \<open>p\<close>: its own part, and the frame.\<close>

lemma stagedI:
  assumes "staged s" and "task_inv (rn_tasks R) (rs_log s')" and "common (rs_world s')"
    and "\<And>q. q \<noteq> p \<Longrightarrow> rs_rest s' q = rs_rest s q \<and>
      (Started q \<in> set (rs_log s') \<longleftrightarrow> Started q \<in> set (rs_log s)) \<and>
      (Finished q \<in> set (rs_log s') \<longleftrightarrow> Finished q \<in> set (rs_log s))"
    and "\<And>q k. q \<noteq> p \<Longrightarrow> (idle q (rs_world s) \<longrightarrow> idle q (rs_world s')) \<and> (stage q k (rs_world s) \<longrightarrow> stage q k (rs_world s'))"
    and "Started p \<in> set (rs_log s')" and "k \<le> length (rn_chain R p)" and "rs_rest s' p = drop k (rn_chain R p)"
    and "stage p k (rs_world s')" and "Finished p \<in> set (rs_log s') \<longrightarrow> k = length (rn_chain R p)"
  shows "staged s'"
  unfolding staged_def
proof (intro conjI allI)
  fix q
  show "if Started q \<in> set (rs_log s')
       then \<exists>k \<le> length (rn_chain R q). rs_rest s' q = drop k (rn_chain R q) \<and> stage q k (rs_world s') \<and>
         (Finished q \<in> set (rs_log s') \<longrightarrow> k = length (rn_chain R q))
       else rs_rest s' q = [] \<and> idle q (rs_world s')"
  proof (cases "q = p")
    case True
    with assms(6-10) show ?thesis by auto
  next
    case False
    from assms(1) have "if Started q \<in> set (rs_log s)
       then \<exists>k \<le> length (rn_chain R q). rs_rest s q = drop k (rn_chain R q) \<and> stage q k (rs_world s) \<and>
         (Finished q \<in> set (rs_log s) \<longrightarrow> k = length (rn_chain R q))
       else rs_rest s q = [] \<and> idle q (rs_world s)" by (simp add: staged_def)
    with assms(4) [OF False] assms(5) [OF False] show ?thesis by (simp split: if_splits) blast
  qed
qed (fact assms(2,3))+

text \<open>Where a plugin stands whose chain has a next link.\<close>

lemma staged_next:
  assumes "staged s" and "rs_rest s p = l # ls"
  obtains k where "Started p \<in> set (rs_log s)" and "Finished p \<notin> set (rs_log s)" and "k < length (rn_chain R p)"
    and "rn_chain R p ! k = l" and "ls = drop (Suc k) (rn_chain R p)" and "stage p k (rs_world s)"
proof -
  from assms have st: "Started p \<in> set (rs_log s)" unfolding staged_def by (metis list.distinct(1))
  with assms(1) obtain k where k: "k \<le> length (rn_chain R p)" "rs_rest s p = drop k (rn_chain R p)" "stage p k (rs_world s)"
    "Finished p \<in> set (rs_log s) \<longrightarrow> k = length (rn_chain R p)" unfolding staged_def by metis
  with assms(2) have less: "k < length (rn_chain R p)" by (cases "k = length (rn_chain R p)") simp_all
  then have "drop k (rn_chain R p) = rn_chain R p ! k # drop (Suc k) (rn_chain R p)" by (simp add: Cons_nth_drop_Suc)
  with k assms(2) less st that show thesis by auto
qed

lemma plugin_step_staged:
  assumes s: "staged s" and "plugin_step R s r"
  shows "\<exists>s'. r = Inr s' \<and> staged s'"
proof -
  have c: "common (rs_world s)" and inv: "task_inv (rn_tasks R) (rs_log s)" using s by (simp_all add: staged_def)
  from assms(2) show ?thesis
  proof (rule plugin_stepE)
    fix t assume 1: "r = andThen (rn_call R (tk_name t) (rs_world s)) (\<lambda>w. Inr \<lparr>rs_log = rs_log s @ [Started (tk_name t)],
        rs_rest = (rs_rest s)(tk_name t := rn_chain R (tk_name t)), rs_world = w\<rparr>)"
      "t \<in> set (rn_tasks R)" "Started (tk_name t) \<notin> set (rs_log s)" "\<forall>d \<in> set (tk_after t). Finished d \<in> set (rs_log s)"
    from 1(3) s have idle: "idle (tk_name t) (rs_world s)" by (auto simp: staged_def)
    have "stage d (length (rn_chain R d)) (rs_world s)" if "d \<in> set (tk_after t)" for d
      using staged_finished [OF s] 1 that by blast
    from call_ok [OF 1(2) c idle this] obtain w where w: "rn_call R (tk_name t) (rs_world s) = Inr w" "common w"
      "stage (tk_name t) 0 w"
      "\<And>q k. q \<noteq> tk_name t \<Longrightarrow> (idle q (rs_world s) \<longrightarrow> idle q w) \<and> (stage q k (rs_world s) \<longrightarrow> stage q k w)" by blast
    let ?s = "\<lparr>rs_log = rs_log s @ [Started (tk_name t)],
      rs_rest = (rs_rest s)(tk_name t := rn_chain R (tk_name t)), rs_world = w\<rparr>"
    have "task_step (rn_tasks R) (rs_log s) (rs_log ?s)" using 1 by (simp add: task_begins)
    then have i: "task_inv (rn_tasks R) (rs_log ?s)" by (rule task_machine.inv_trans [OF inv])
    have nf: "Finished (tk_name t) \<notin> set (rs_log s)" using finished_started [OF inv] 1(3) by blast
    have "staged ?s" by (rule stagedI [OF s i, where p = "tk_name t" and k = 0]) (use w nf in auto)
    with 1(1) w(1) show ?thesis by simp
  next
    fix p f ls assume 2: "r = andThen (f (rs_world s)) (\<lambda>w. Inr (s\<lparr>rs_rest := (rs_rest s)(p := ls), rs_world := w\<rparr>))"
      "rs_rest s p = Do f # ls"
    obtain k where k: "Started p \<in> set (rs_log s)" "Finished p \<notin> set (rs_log s)" "k < length (rn_chain R p)"
      "rn_chain R p ! k = Do f" "ls = drop (Suc k) (rn_chain R p)" "stage p k (rs_world s)" by (rule staged_next [OF s 2(2)])
    from link_ok [OF c k(6,3,4)] obtain w where w: "f (rs_world s) = Inr w" "common w" "stage p (Suc k) w"
      "\<And>q k. q \<noteq> p \<Longrightarrow> (idle q (rs_world s) \<longrightarrow> idle q w) \<and> (stage q k (rs_world s) \<longrightarrow> stage q k w)" by blast
    have "staged (s\<lparr>rs_rest := (rs_rest s)(p := ls), rs_world := w\<rparr>)"
      by (rule stagedI [OF s, where p = p and k = "Suc k"]) (use w k inv in auto)
    with 2(1) w(1) show ?thesis by simp
  next
    fix p g ls assume 3: "r = Inr (s\<lparr>rs_rest := (rs_rest s)(p := ls)\<rparr>)" "rs_rest s p = Await g # ls" "g (rs_world s)"
    obtain k where k: "Started p \<in> set (rs_log s)" "Finished p \<notin> set (rs_log s)" "k < length (rn_chain R p)"
      "rn_chain R p ! k = Await g" "ls = drop (Suc k) (rn_chain R p)" "stage p k (rs_world s)" by (rule staged_next [OF s 3(2)])
    have "staged (s\<lparr>rs_rest := (rs_rest s)(p := ls)\<rparr>)"
      by (rule stagedI [OF s, where p = p and k = "Suc k"]) (use await_ok [OF c k(6,3,4) 3(3)] c k inv in auto)
    with 3(1) show ?thesis by simp
  next
    fix p assume 4: "r = Inr (s\<lparr>rs_log := rs_log s @ [Finished p]\<rparr>)" "Started p \<in> set (rs_log s)"
      "Finished p \<notin> set (rs_log s)" "rs_rest s p = []"
    let ?s = "s\<lparr>rs_log := rs_log s @ [Finished p]\<rparr>"
    have "task_step (rn_tasks R) (rs_log s) (rs_log ?s)" using 4 by (simp add: task_ends)
    then have i: "task_inv (rn_tasks R) (rs_log ?s)" by (rule task_machine.inv_trans [OF inv])
    note st = 4(2)
    with s obtain k where "k \<le> length (rn_chain R p)" "rs_rest s p = drop k (rn_chain R p)" "stage p k (rs_world s)"
      unfolding staged_def by metis
    moreover from this have "k = length (rn_chain R p)" using 4(4) by simp
    ultimately have "staged ?s"
      by (intro stagedI [OF s i, where p = p and k = "length (rn_chain R p)"]) (use c st in auto)
    with 4(1) show ?thesis by simp
  qed
qed

lemma env_step_staged:
  assumes "staged s" and "rn_env R (rs_world s) r"
  shows "case andThen r (\<lambda>w. Inr (s\<lparr>rs_world := w\<rparr>)) of Inl e \<Rightarrow> allowed e | Inr s' \<Rightarrow> staged s'"
proof -
  have c: "common (rs_world s)" using assms(1) by (simp add: staged_def)
  show ?thesis
  proof (cases r)
    case (Inl e)
    with assms(2) env_allowed [OF c] show ?thesis by simp
  next
    case (Inr w)
    from env_ok [OF c] assms(2) Inr have w: "common w"
      "\<And>q k. (idle q (rs_world s) \<longrightarrow> idle q w) \<and> (stage q k (rs_world s) \<longrightarrow> stage q k w)" by auto
    with assms(1) have "staged (s\<lparr>rs_world := w\<rparr>)" unfolding staged_def by (simp split: if_splits) blast
    with Inr show ?thesis by simp
  qed
qed

lemma step_staged:
  assumes "staged s" and "run_step R (Inr s) r"
  shows "case r of Inl e \<Rightarrow> allowed e | Inr s' \<Rightarrow> staged s'"
  using assms(2)
proof (rule run_stepE)
  assume "plugin_step R s r"
  from plugin_step_staged [OF assms(1) this] show ?thesis by auto
next
  fix r' assume "r = andThen r' (\<lambda>w. Inr (s\<lparr>rs_world := w\<rparr>))" and "rn_env R (rs_world s) r'"
  with env_step_staged [OF assms(1)] show ?thesis by simp
qed

lemma staged_machine:
  "invariant_machine (\<lambda>r. \<exists>w. start w \<and> r = Inr (run_start w)) (run_step R)
    (\<lambda>r. case r of Inl e \<Rightarrow> allowed e | Inr s \<Rightarrow> staged s)"
proof (unfold_locales, goal_cases)
  case (1 r)
  then obtain w where w: "start w" "r = Inr (run_start w)" by blast
  have "task_inv (rn_tasks R) []" by (rule task_machine.inv_start) simp
  with at_start [OF w(1)] show ?case by (simp add: w(2) staged_def run_start_def)
next
  case (2 r r')
  then show ?case
  proof (cases r)
    case (Inl e)
    with 2 show ?thesis by (auto elim: run_step_InlE)
  next
    case (Inr s)
    with 2 step_staged [of s r'] show ?thesis by simp
  qed
qed

lemma run_staged: "run_reach R start (Inr s) \<Longrightarrow> staged s"
  using invariant_machine.reach_inv [OF staged_machine, of "Inr s"] by simp

lemma run_aborts: "run_reach R start (Inl e) \<Longrightarrow> allowed e"
  using invariant_machine.reach_inv [OF staged_machine, of "Inl e"] by simp

text \<open>A run that is not complete goes on, or waits for the environment.\<close>

lemma run_progress:
  assumes "orderly (rn_tasks R)" and "staged s" and "\<not> complete (rn_tasks R) (rs_log s)" and "\<not> waiting s"
  shows "\<exists>r. plugin_step R s r"
proof -
  have nb: "\<not> rn_blocked R (rs_world s)" using assms(2) not_blocked by (simp add: staged_def)
  obtain l where "task_step (rn_tasks R) (rs_log s) l" using orderly_progress [OF assms(1,3)] by blast
  then show ?thesis
  proof (rule task_stepE)
    fix t assume "t \<in> set (rn_tasks R)" "Started (tk_name t) \<notin> set (rs_log s)" "\<forall>d \<in> set (tk_after t). Finished d \<in> set (rs_log s)"
    with run_begins [of t R s] nb show ?thesis by blast
  next
    fix p assume p: "Started p \<in> set (rs_log s)" "Finished p \<notin> set (rs_log s)"
    show ?thesis
    proof (cases "rs_rest s p")
      case Nil
      with run_ends [OF p] show ?thesis by blast
    next
      case (Cons l ls)
      show ?thesis
      proof (cases l)
        case (Do f)
        with Cons run_does [of s p f ls R] nb show ?thesis by blast
      next
        case (Await g)
        with Cons assms(4) have "g (rs_world s)" by (auto simp: waiting_def)
        with Cons Await run_awaits [of s p g ls R] show ?thesis by blast
      qed
    qed
  qed
qed

lemma run_complete:
  assumes "staged s" and "complete (rn_tasks R) (rs_log s)" and "t \<in> set (rn_tasks R)"
  shows "stage (tk_name t) (length (rn_chain R (tk_name t))) (rs_world s)"
  using assms staged_finished by (auto simp: complete_def)

text \<open>What is left to do: every step of a plugin takes one from it.\<close>

definition task_work :: "('p, 'w) run_state \<Rightarrow> 'p \<Rightarrow> nat" where
  "task_work s p = (if Started p \<notin> set (rs_log s) then length (rn_chain R p) + 2
     else length (rs_rest s p) + (if Finished p \<in> set (rs_log s) then 0 else 1))"

definition work :: "('p, 'w) run_state \<Rightarrow> nat" where
  "work s = (\<Sum>p \<in> names (rn_tasks R). task_work s p)"

lemma work_less:
  assumes "p \<in> names (rn_tasks R)" and "task_work s' p < task_work s p" and "\<And>q. q \<noteq> p \<Longrightarrow> task_work s' q = task_work s q"
  shows "work s' < work s"
proof -
  have "task_work s' q \<le> task_work s q" for q using assms(2) assms(3) [of q] by (cases "q = p") simp_all
  then show ?thesis unfolding work_def using assms(1,2) by (intro sum_strict_mono_ex1) (auto simp: names_def)
qed

lemma plugin_step_work:
  assumes "staged s" and "plugin_step R s (Inr s')"
  shows "work s' < work s"
proof -
  have inv: "task_inv (rn_tasks R) (rs_log s)" using assms(1) by (simp add: staged_def)
  from assms(2) show ?thesis
  proof (rule plugin_stepE)
    fix t assume 1: "Inr s' = andThen (rn_call R (tk_name t) (rs_world s)) (\<lambda>w. Inr \<lparr>rs_log = rs_log s @ [Started (tk_name t)],
        rs_rest = (rs_rest s)(tk_name t := rn_chain R (tk_name t)), rs_world = w\<rparr>)"
      "t \<in> set (rn_tasks R)" "Started (tk_name t) \<notin> set (rs_log s)"
    from 1(1) obtain w where s': "s' = \<lparr>rs_log = rs_log s @ [Started (tk_name t)],
        rs_rest = (rs_rest s)(tk_name t := rn_chain R (tk_name t)), rs_world = w\<rparr>"
      by (cases "rn_call R (tk_name t) (rs_world s)") auto
    have "Finished (tk_name t) \<notin> set (rs_log s)" using finished_started [OF inv] 1(3) by blast
    then show ?thesis by (intro work_less [of "tk_name t"]) (use 1 in \<open>auto simp: s' task_work_def names_def\<close>)
  next
    fix p f ls assume 2: "Inr s' = andThen (f (rs_world s)) (\<lambda>w. Inr (s\<lparr>rs_rest := (rs_rest s)(p := ls), rs_world := w\<rparr>))"
      "rs_rest s p = Do f # ls"
    from 2(1) obtain w where s': "s' = s\<lparr>rs_rest := (rs_rest s)(p := ls), rs_world := w\<rparr>"
      by (cases "f (rs_world s)") auto
    from staged_next [OF assms(1) 2(2)] have "Started p \<in> set (rs_log s)" by metis
    with started_task [OF inv] show ?thesis
      by (intro work_less [of p]) (use 2(2) in \<open>auto simp: s' task_work_def names_def\<close>)
  next
    fix p g ls assume 3: "Inr s' = Inr (s\<lparr>rs_rest := (rs_rest s)(p := ls)\<rparr>)" "rs_rest s p = Await g # ls"
    from staged_next [OF assms(1) 3(2)] have "Started p \<in> set (rs_log s)" by metis
    with started_task [OF inv] show ?thesis
      by (intro work_less [of p]) (use 3 in \<open>auto simp: task_work_def names_def\<close>)
  next
    fix p assume 4: "Inr s' = Inr (s\<lparr>rs_log := rs_log s @ [Finished p]\<rparr>)" "Started p \<in> set (rs_log s)"
      "Finished p \<notin> set (rs_log s)"
    with started_task [OF inv] show ?thesis by (intro work_less [of p]) (auto simp: task_work_def names_def)
  qed
qed

text \<open>A property \<open>Q\<close> of the world that calls and links keep.\<close>

definition kept :: "('w \<Rightarrow> bool) \<Rightarrow> bool" where
  "kept Q = ((\<forall>p w w'. common w \<longrightarrow> idle p w \<longrightarrow> Q w \<longrightarrow> rn_call R p w = Inr w' \<longrightarrow> Q w') \<and>
     (\<forall>p k f w w'. common w \<longrightarrow> stage p k w \<longrightarrow> k < length (rn_chain R p) \<longrightarrow> rn_chain R p ! k = Do f \<longrightarrow> Q w \<longrightarrow>
       f w = Inr w' \<longrightarrow> Q w'))"

definition waits_end :: "('w \<Rightarrow> bool) \<Rightarrow> bool" where
  "waits_end Q = (\<forall>s. staged s \<and> waiting s \<and> Q (rs_world s) \<longrightarrow>
     (\<exists>w. rn_env R (rs_world s) (Inr w) \<and> \<not> waiting (s\<lparr>rs_world := w\<rparr>) \<and> Q w))"

lemma plugin_step_keeps:
  assumes "kept Q" and "staged s" and "Q (rs_world s)" and "plugin_step R s (Inr s')"
  shows "Q (rs_world s')"
  using assms(4)
proof (rule plugin_stepE)
  fix t assume 1: "Inr s' = andThen (rn_call R (tk_name t) (rs_world s)) (\<lambda>w. Inr \<lparr>rs_log = rs_log s @ [Started (tk_name t)],
        rs_rest = (rs_rest s)(tk_name t := rn_chain R (tk_name t)), rs_world = w\<rparr>)" "Started (tk_name t) \<notin> set (rs_log s)"
  from assms(2) 1(2) have "common (rs_world s)" "idle (tk_name t) (rs_world s)" by (auto simp: staged_def)
  with assms(1,3) have "rn_call R (tk_name t) (rs_world s) = Inr w' \<Longrightarrow> Q w'" for w' unfolding kept_def by blast
  with 1(1) show ?thesis by (cases "rn_call R (tk_name t) (rs_world s)") auto
next
  fix p f ls assume 2: "Inr s' = andThen (f (rs_world s)) (\<lambda>w. Inr (s\<lparr>rs_rest := (rs_rest s)(p := ls), rs_world := w\<rparr>))"
    "rs_rest s p = Do f # ls"
  obtain k where "k < length (rn_chain R p)" "rn_chain R p ! k = Do f" "stage p k (rs_world s)"
    by (rule staged_next [OF assms(2) 2(2)])
  moreover have "common (rs_world s)" using assms(2) by (simp add: staged_def)
  ultimately have "f (rs_world s) = Inr w' \<Longrightarrow> Q w'" for w' using assms(1,3) unfolding kept_def by blast
  with 2(1) show ?thesis by (cases "f (rs_world s)") auto
qed (use assms(3) in simp_all)

text \<open>What the environment keeps too holds of every run.\<close>

lemma run_keeps:
  assumes "kept Q" and "\<And>w w'. common w \<Longrightarrow> Q w \<Longrightarrow> rn_env R w (Inr w') \<Longrightarrow> Q w'"
    and "run_reach R (\<lambda>w. start w \<and> Q w) (Inr s)"
  shows "staged s \<and> Q (rs_world s)"
proof -
  have "\<forall>s. r = Inr s \<longrightarrow> staged s \<and> Q (rs_world s)" if "run_reach R (\<lambda>w. start w \<and> Q w) r" for r
    using that
  proof (induction rule: reach.induct)
    case (reach_init r)
    then obtain w where w: "start w" "Q w" "r = Inr (run_start w)" by blast
    then have "staged (run_start w)" by (blast intro: run_staged reach.reach_init)
    with w show ?case by (simp add: run_start_def)
  next
    case (reach_step r r')
    show ?case
    proof (intro allI impI)
      fix s' assume r': "r' = Inr s'"
      with reach_step(2) obtain s where s: "r = Inr s" by (cases r) (auto elim: run_step_InlE)
      with reach_step have st: "staged s" "Q (rs_world s)" by blast+
      from reach_step(2) have "run_step R (Inr s) (Inr s')" by (simp add: s r')
      then show "staged s' \<and> Q (rs_world s')"
      proof (rule run_stepE)
        assume "plugin_step R s (Inr s')"
        with plugin_step_staged [OF st(1) this] plugin_step_keeps [OF assms(1) st this] show ?thesis by simp
      next
        fix v assume v: "Inr s' = andThen v (\<lambda>w. Inr (s\<lparr>rs_world := w\<rparr>))" "rn_env R (rs_world s) v"
        then obtain w where w: "v = Inr w" "s' = s\<lparr>rs_world := w\<rparr>" by (cases v) auto
        have "common (rs_world s)" using st(1) by (simp add: staged_def)
        with assms(2) st(2) v(2) w have "Q w" by blast
        with env_step_staged [OF st(1) v(2)] w show ?thesis by simp
      qed
    qed
  qed
  with assms(3) show ?thesis by blast
qed

text \<open>If the environment can end every wait, every run can go on, one step of one plugin at a time.\<close>

lemma plugin_step_task_work:
  assumes "staged s" and "plugin_step R s (Inr s')"
  shows "task_work s p \<le> Suc (task_work s' p)"
  using assms(2)
proof (rule plugin_stepE)
  fix t assume "Inr s' = andThen (rn_call R (tk_name t) (rs_world s)) (\<lambda>w. Inr \<lparr>rs_log = rs_log s @ [Started (tk_name t)],
        rs_rest = (rs_rest s)(tk_name t := rn_chain R (tk_name t)), rs_world = w\<rparr>)" "Started (tk_name t) \<notin> set (rs_log s)"
  moreover have "Finished (tk_name t) \<notin> set (rs_log s)"
    using finished_started [of "rn_tasks R" "rs_log s"] calculation(2) assms(1) by (auto simp: staged_def)
  ultimately show ?thesis by (cases "rn_call R (tk_name t) (rs_world s)") (auto simp: task_work_def)
next
  fix q f ls assume "Inr s' = andThen (f (rs_world s)) (\<lambda>w. Inr (s\<lparr>rs_rest := (rs_rest s)(q := ls), rs_world := w\<rparr>))"
    "rs_rest s q = Do f # ls"
  then show ?thesis by (cases "f (rs_world s)") (auto simp: task_work_def)
qed (auto simp: task_work_def)

lemma run_advances:
  assumes "orderly (rn_tasks R)" and "kept Q" and "waits_end Q"
    and "staged s" and "Q (rs_world s)" and "\<not> complete (rn_tasks R) (rs_log s)"
  obtains s' where "(run_step R)\<^sup>*\<^sup>* (Inr s) (Inr s')" and "staged s'" and "Q (rs_world s')" and "work s' < work s"
    and "\<And>p. task_work s p \<le> Suc (task_work s' p)"
proof -
  obtain s1 where s1: "(run_step R)\<^sup>*\<^sup>* (Inr s) (Inr s1)" "staged s1" "\<not> waiting s1" "Q (rs_world s1)" "rs_log s1 = rs_log s"
    "rs_rest s1 = rs_rest s"
  proof (cases "waiting s")
    case True
    with assms(3-5) obtain w where w: "rn_env R (rs_world s) (Inr w)" "\<not> waiting (s\<lparr>rs_world := w\<rparr>)" "Q w"
      unfolding waits_end_def by blast
    from run_env [of R s, OF w(1)] have "run_step R (Inr s) (Inr (s\<lparr>rs_world := w\<rparr>))" by simp
    moreover have "staged (s\<lparr>rs_world := w\<rparr>)" using env_step_staged [OF assms(4) w(1)] by simp
    ultimately show thesis by (intro that [of "s\<lparr>rs_world := w\<rparr>"]) (use w in auto)
  next
    case False
    then show thesis using that assms(4,5) by blast
  qed
  have same: "task_work s1 p = task_work s p" for p using s1(5,6) by (simp add: task_work_def)
  have "\<not> complete (rn_tasks R) (rs_log s1)" using assms(6) s1(5) by simp
  from run_progress [OF assms(1) s1(2) this s1(3)] obtain r where r: "plugin_step R s1 r" by blast
  from plugin_step_staged [OF s1(2) r] obtain s2 where s2: "r = Inr s2" "staged s2" by blast
  show thesis
  proof (rule that)
    show "(run_step R)\<^sup>*\<^sup>* (Inr s) (Inr s2)" using s1(1) run_plugin [OF r] s2(1) by (metis rtranclp.rtrancl_into_rtrancl)
    show "Q (rs_world s2)" using plugin_step_keeps [OF assms(2) s1(2,4)] r s2(1) by blast
    have "work s1 = work s" by (simp add: work_def same)
    then show "work s2 < work s" using plugin_step_work [OF s1(2)] r s2(1) by auto
    show "task_work s p \<le> Suc (task_work s2 p)" for p using plugin_step_task_work [OF s1(2)] r s2(1) same [of p] by metis
  qed (fact s2(2))
qed

lemma run_can_complete:
  assumes "orderly (rn_tasks R)" and "kept Q" and "waits_end Q" and "staged s" and "Q (rs_world s)"
  shows "\<exists>s'. (run_step R)\<^sup>*\<^sup>* (Inr s) (Inr s') \<and> staged s' \<and> Q (rs_world s') \<and> complete (rn_tasks R) (rs_log s')"
  using assms(4,5)
proof (induction "work s" arbitrary: s rule: less_induct)
  case less
  show ?case
  proof (cases "complete (rn_tasks R) (rs_log s)")
    case True
    with less.prems show ?thesis by blast
  next
    case False
    obtain s1 where s1: "(run_step R)\<^sup>*\<^sup>* (Inr s) (Inr s1)" "staged s1" "Q (rs_world s1)" "work s1 < work s"
      by (rule run_advances [OF assms(1-3) less.prems False])
    from less.hyps [OF s1(4,2,3)] s1(1) show ?thesis by (meson rtranclp_trans)
  qed
qed

text \<open>On the way a plugin passes through every point of its chain.\<close>

lemma run_can_reach:
  assumes "orderly (rn_tasks R)" and "kept Q" and "waits_end Q" and "staged s" and "Q (rs_world s)"
    and "p \<in> names (rn_tasks R)" and "n \<le> task_work s p"
  shows "\<exists>s'. (run_step R)\<^sup>*\<^sup>* (Inr s) (Inr s') \<and> staged s' \<and> Q (rs_world s') \<and> task_work s' p = n"
  using assms(4,5,7)
proof (induction "work s" arbitrary: s rule: less_induct)
  case less
  show ?case
  proof (cases "task_work s p = n")
    case True
    with less.prems show ?thesis by blast
  next
    case False
    have "\<not> complete (rn_tasks R) (rs_log s)"
    proof
      assume "complete (rn_tasks R) (rs_log s)"
      with assms(6) have fin: "Finished p \<in> set (rs_log s)" by (auto simp: complete_def names_def)
      moreover have "Started p \<in> set (rs_log s)"
        using finished_started [of "rn_tasks R", OF _ fin] less.prems(1) by (simp add: staged_def)
      moreover have "rs_rest s p = []" using less.prems(1) calculation unfolding staged_def by (metis drop_all order_refl)
      ultimately show False using False less.prems(3) by (simp add: task_work_def)
    qed
    from run_advances [OF assms(1-3) less.prems(1,2) this] obtain s1 where s1: "(run_step R)\<^sup>*\<^sup>* (Inr s) (Inr s1)" "staged s1"
      "Q (rs_world s1)" "work s1 < work s" "task_work s p \<le> Suc (task_work s1 p)" by metis
    with False less.prems(3) have "n \<le> task_work s1 p" by linarith
    from less.hyps [OF s1(4,2,3) this] obtain s' where "(run_step R)\<^sup>*\<^sup>* (Inr s1) (Inr s')" "staged s'" "Q (rs_world s')"
      "task_work s' p = n" by blast
    with rtranclp_trans [OF s1(1)] show ?thesis by blast
  qed
qed

end

end
