(* ===== verification/Server_Boot.thy ===== *)
theory Server_Boot
  imports Server_World Plugin_Run
begin

text \<open>
  The start of the example server with the configuration that it is shipped with
  (\<open>examples/server/resources/configuration_files/plugins.conf\<close>): its ten plugins are loaded in any interleaving that the plugin
  manager allows, while the timer of the network entities, the registry thread, connections and signals go on.
\<close>

subsection \<open>The shipped configuration\<close>

fun kPluginName :: "plugin_id \<Rightarrow> string" where
  "kPluginName P_ExtraLogging = ''ExtraLogging''"
| "kPluginName P_NetworkRegistry = ''NetworkRegistry''"
| "kPluginName P_AsioContextThreads = ''AsioContextThreads''"
| "kPluginName P_SignalHandler = ''SignalHandler''"
| "kPluginName P_NetworkEntity = ''NetworkEntity''"
| "kPluginName P_TcpServer = ''TcpServer''"
| "kPluginName P_ConsoleTerminal = ''ConsoleTerminal''"
| "kPluginName P_BasicTerminalCommands = ''BasicTerminalCommands''"
| "kPluginName P_ActionRecorder = ''ActionRecorder''"
| "kPluginName P_BasicCmdArgs = ''BasicCmdArgs''"

text \<open>The groups \<open>[plugins/plugin]\<close> with their values \<open>depends\<close>.\<close>

fun shipped_depends :: "plugin_id \<Rightarrow> plugin_id list" where
  "shipped_depends P_ExtraLogging = []"
| "shipped_depends P_NetworkRegistry = []"
| "shipped_depends P_AsioContextThreads = [P_NetworkRegistry]"
| "shipped_depends P_SignalHandler = [P_AsioContextThreads]"
| "shipped_depends P_NetworkEntity = [P_AsioContextThreads]"
| "shipped_depends P_TcpServer = [P_AsioContextThreads, P_SignalHandler, P_NetworkEntity]"
| "shipped_depends P_ConsoleTerminal = []"
| "shipped_depends P_BasicTerminalCommands = [P_ConsoleTerminal, P_TcpServer]"
| "shipped_depends P_ActionRecorder = []"
| "shipped_depends P_BasicCmdArgs = [P_ConsoleTerminal, P_TcpServer]"

definition shipped_titles :: "plugin_id list" where
  "shipped_titles = [P_ExtraLogging, P_NetworkRegistry, P_AsioContextThreads, P_SignalHandler, P_NetworkEntity, P_TcpServer,
     P_ConsoleTerminal, P_BasicTerminalCommands, P_ActionRecorder, P_BasicCmdArgs]"

text \<open>The order of the map of the plugin manager, which is the order of the names, and what the plugins are required by.\<close>

definition shipped_order :: "plugin_id list" where
  "shipped_order = [P_ActionRecorder, P_AsioContextThreads, P_BasicCmdArgs, P_BasicTerminalCommands, P_ConsoleTerminal,
     P_ExtraLogging, P_NetworkEntity, P_NetworkRegistry, P_SignalHandler, P_TcpServer]"

definition shipped_required :: "plugin_id \<Rightarrow> plugin_id list" where
  "shipped_required p = filter (\<lambda>q. p \<in> set (shipped_depends q)) shipped_order"

definition boot_tasks :: "plugin_id task list" where
  "boot_tasks = map (\<lambda>p. \<lparr>tk_name = p, tk_after = shipped_depends p\<rparr>) shipped_order"

definition down_tasks :: "plugin_id task list" where
  "down_tasks = map (\<lambda>p. \<lparr>tk_name = p, tk_after = shipped_required p\<rparr>) (rev shipped_order)"

subsection \<open>What moves beside the plugins\<close>

text \<open>The timer of the executor calls \<open>NetworkEntityUpdater::update\<close>; the registry thread runs \<open>updateOnRegistryThread\<close>.\<close>

definition entity_timer :: "build \<Rightarrow> ('a, 'u, 't) server_world \<Rightarrow> ('a, 'u, 't) server_world result" where
  "entity_timer b w = (case w_updater w of None \<Rightarrow> Inl (UNDEFINED ''update(this)'')
     | Some u \<Rightarrow> ctx_io_context (\<lambda>stopped w. andThen (update stopped (w_registry_empty w) b u) (\<lambda>(u, es).
         Inr (w\<lparr>w_updater := Some u, w_updates := w_updates w + length (filter (\<lambda>e. e = PostUpdateOnRegistryThread) es)\<rparr>))) w)"

definition registry_task :: "('a, 'u, 't) server_world \<Rightarrow> ('a, 'u, 't) server_world result" where
  "registry_task w = (case w_updater w of None \<Rightarrow> Inl (UNDEFINED ''updateOnRegistryThread(this)'')
     | Some u \<Rightarrow> Inr (w\<lparr>w_updater := Some (u\<lparr>numQueuedUpdateTasks := numQueuedUpdateTasks u - 1\<rparr>), w_updates := w_updates w - 1\<rparr>))"

text \<open>The posted stop of the acceptor runs; a listener that accepts changes the registry; entities are destroyed while the threads of the \<open>io_context\<close> run.\<close>

inductive server_moves :: "build \<Rightarrow> ('a, 'u, 't) server_world \<Rightarrow> ('a, 'u, 't) server_world result \<Rightarrow> bool" for b :: build where
  moves_timer: "w_entity_executor w = Some (Some period) \<Longrightarrow> server_moves b w (entity_timer b w)"
| moves_registry: "0 < w_updates w \<Longrightarrow> server_moves b w (registry_task w)"
| moves_acceptor: "w_stop_posted w \<Longrightarrow> w_io_context w = Some False \<Longrightarrow>
    server_moves b w (Inr (w\<lparr>w_stop_posted := False, w_accepting := False\<rparr>))"
| moves_connections: "w_accepting w \<Longrightarrow> server_moves b w (Inr (w\<lparr>w_registry_empty := v\<rparr>))"
| moves_drained: "w_io_context w = Some False \<Longrightarrow> server_moves b w (Inr (w\<lparr>w_registry_empty := True\<rparr>))"
| moves_signal: "w_signal_wait w \<Longrightarrow> w_signal w = Some h \<Longrightarrow> w_io_context w = Some False \<Longrightarrow> signum \<in> set (signals_set h) \<Longrightarrow>
    server_moves b w (andThen (handleSignal b False Success signum h)
      (\<lambda>(h, es). Inr (w\<lparr>w_signal := Some h, w_signal_wait := False\<rparr>)))"

definition boot_run :: "('a, 'u, 't) server_env \<Rightarrow> build \<Rightarrow> (plugin_id, ('a, 'u, 't) server_world) run_spec" where
  "boot_run E b = \<lparr>rn_tasks = boot_tasks, rn_call = (\<lambda>p. pi_load (interface_of E b p)),
     rn_chain = (\<lambda>p. pi_load_chain (interface_of E b p)), rn_env = server_moves b, rn_blocked = w_blocked\<rparr>"

definition down_run :: "('a, 'u, 't) server_env \<Rightarrow> build \<Rightarrow> (plugin_id, ('a, 'u, 't) server_world) run_spec" where
  "down_run E b = \<lparr>rn_tasks = down_tasks, rn_call = (\<lambda>p. pi_unload (interface_of E b p)),
     rn_chain = (\<lambda>p. pi_unload_chain (interface_of E b p)), rn_env = server_moves b, rn_blocked = w_blocked\<rparr>"

text \<open>The world before the start: nothing is loaded.\<close>

definition fresh :: "('a, 'u, 't) server_world \<Rightarrow> bool" where
  "fresh w = ((\<forall>p. \<not> w_alive w p) \<and> \<not> w_SafeRegistry w \<and> w_io_context w = None \<and> w_dispatcher w = None \<and> w_asio w = None \<and>
     w_signal w = None \<and> \<not> w_signal_wait w \<and> w_updater w = None \<and> w_entity_executor w = None \<and> w_updates w = 0 \<and> w_console_executor w = None \<and>
     \<not> w_blocked w \<and> w_registry_empty w \<and> \<not> w_accepting w \<and> \<not> w_stop_posted w)"

text \<open>Configured values that the constructors accept.\<close>

definition values_ok :: "('a, 'u, 't) server_env \<Rightarrow> bool" where
  "values_ok E = (0 \<le> confMinCores (se_StringToInt E) (se_conf E P_ExtraLogging) \<and>
     0 \<le> asioThreads (se_StringToInt E) (se_conf E P_AsioContextThreads) \<and>
     (\<exists>ep. tcpEndpoint (se_make_address E) (se_StringToInt E) (se_conf E P_TcpServer) = Inr ep))"

subsection \<open>The stages of loading\<close>

abbreviation entity_period :: "('a, 'u, 't) server_env \<Rightarrow> int" where
  "entity_period E \<equiv> entityUpdateFreqMillisec (se_StringToInt E) (se_conf E P_NetworkEntity)"

abbreviation console_period :: "('a, 'u, 't) server_env \<Rightarrow> int" where
  "console_period E \<equiv> consoleInputFreqMillisec (se_StringToInt E) (se_conf E P_ConsoleTerminal)"

text \<open>An executor after \<open>k\<close> links of the chain that makes and starts it.\<close>

definition executor_at :: "nat \<Rightarrow> int \<Rightarrow> executor_context" where
  "executor_at k period = (if k \<le> 2 then None else if k = 3 then Some None else Some (Some period))"

fun boot_idle :: "plugin_id \<Rightarrow> ('a, 'u, 't) server_world \<Rightarrow> bool" where
  "boot_idle P_AsioContextThreads w = (\<not> w_alive w P_AsioContextThreads \<and> w_io_context w = None)"
| "boot_idle P_NetworkEntity w = (\<not> w_alive w P_NetworkEntity \<and> w_entity_executor w = None)"
| "boot_idle P_ConsoleTerminal w = (\<not> w_alive w P_ConsoleTerminal \<and> w_dispatcher w = None \<and> w_console_executor w = None)"
| "boot_idle p w = (\<not> w_alive w p)"

fun boot_stage :: "('a, 'u, 't) server_env \<Rightarrow> build \<Rightarrow> plugin_id \<Rightarrow> nat \<Rightarrow> ('a, 'u, 't) server_world \<Rightarrow> bool" where
  "boot_stage E b P_NetworkRegistry k w = (w_alive w P_NetworkRegistry \<and> w_SafeRegistry w)"
| "boot_stage E b P_AsioContextThreads k w = (w_alive w P_AsioContextThreads \<and> w_SafeRegistry w \<and> w_io_context w = Some False \<and>
     (\<exists>m. w_asio w = Some m \<and> asio_logic_new b (asioThreads (se_StringToInt E) (se_conf E P_AsioContextThreads)) = Inr m))"
| "boot_stage E b P_SignalHandler k w = (w_alive w P_SignalHandler \<and> w_signal w \<noteq> None)"
| "boot_stage E b P_NetworkEntity k w = (w_alive w P_NetworkEntity \<and> w_updater w \<noteq> None \<and>
     w_entity_executor w = executor_at k (entity_period E))"
| "boot_stage E b P_TcpServer k w = (w_alive w P_TcpServer \<and> w_endpoint w \<noteq> None \<and> w_io_context w = Some False \<and>
     (3 \<le> k \<longrightarrow> w_accepting w))"
| "boot_stage E b P_ConsoleTerminal k w = (w_alive w P_ConsoleTerminal \<and> w_dispatcher w \<noteq> None \<and>
     w_console_executor w = executor_at k (console_period E))"
| "boot_stage E b P_BasicTerminalCommands k w = (w_alive w P_BasicTerminalCommands \<and> w_dispatcher w = Some True)"
| "boot_stage E b P_ActionRecorder k w = (w_alive w P_ActionRecorder \<and> rec_logic (w_recorder w) = Some (2 \<le> k))"
| "boot_stage E b p k w = w_alive w p"

definition boot_common :: "('a, 'u, 't) server_world \<Rightarrow> bool" where
  "boot_common w = (\<not> w_blocked w \<and> \<not> w_stop_posted w \<and> w_io_context w \<noteq> Some True \<and> (w_updater w \<noteq> None \<longrightarrow> w_io_context w = Some False) \<and>
     (0 < w_updates w \<longrightarrow> w_updater w \<noteq> None) \<and> (w_entity_executor w \<noteq> None \<longrightarrow> w_updater w \<noteq> None) \<and>
     (w_signal_wait w \<longrightarrow> w_signal w = Some SignalHandler_new))"

lemmas interface_simps = MainPluginInterface_new_def log_link_def on_logic_def alive_def set_alive_def optional_emplace_def
  optional_reset_def extra_logging_interface_def network_registry_interface_def asio_context_threads_interface_def
  signal_handler_interface_def network_entity_interface_def tcp_server_interface_def console_terminal_interface_def
  basic_terminal_commands_interface_def action_recorder_interface_def basic_cmd_args_interface_def
  extra_logging_logic_def network_registry_logic_def asio_context_threads_logic_def signal_handler_logic_def
  network_entity_logic_def tcp_server_logic_def console_terminal_logic_def basic_terminal_commands_logic_def
  action_recorder_logic_def basic_cmd_args_logic_def

lemmas executor_simps = setNetworkEntityPeriodicTaskExecutorOnSequence_def startNetworkEntityPeriodicTaskExecutorOnSequence_def
  unsetNetworkEntityPeriodicTaskExecutorOnSequence_def setConsolePeriodicTaskExecutorOnSequence_def
  startConsolePeriodicTaskExecutorOnSequence_def unsetConsolePeriodicTaskExecutorOnSequence_def executor_at_def

lemma boot_task_after: "t \<in> set boot_tasks \<Longrightarrow> tk_after t = shipped_depends (tk_name t)"
  by (auto simp: boot_tasks_def)

lemma all_plugins: "(\<forall>p. Q p) \<longleftrightarrow> Q P_ExtraLogging \<and> Q P_NetworkRegistry \<and> Q P_AsioContextThreads \<and> Q P_SignalHandler \<and>
    Q P_NetworkEntity \<and> Q P_TcpServer \<and> Q P_ConsoleTerminal \<and> Q P_BasicTerminalCommands \<and> Q P_ActionRecorder \<and> Q P_BasicCmdArgs"
  by (metis plugin_id.exhaust)

definition boot_frame ::
  "('a, 'u, 't) server_env \<Rightarrow> build \<Rightarrow> plugin_id \<Rightarrow> ('a, 'u, 't) server_world \<Rightarrow> ('a, 'u, 't) server_world \<Rightarrow> bool" where
  "boot_frame E b p w w' = (w_table w' = w_table w \<and>
     (\<forall>q. q \<noteq> p \<longrightarrow> (boot_idle q w \<longrightarrow> boot_idle q w') \<and> (\<forall>k. boot_stage E b q k w \<longrightarrow> boot_stage E b q k w')))"

text \<open>The synchronous part of \<open>load\<close>: the constructor finds what it looks up, and the configured values are accepted.\<close>

lemma asio_logic_new_returns: "0 \<le> n \<Longrightarrow> \<exists>m. asio_logic_new b n = Inr m"
  using startThreads_effect [of AsioThreadsManager_new b "nat n"]
  by (auto simp: asio_logic_new_def threads_ok_def AsioThreadsManager_new_def)

lemma boot_call:
  assumes ok: "values_ok E" and c: "boot_common w" and i: "boot_idle p w"
    and deps: "\<And>d. d \<in> set (shipped_depends p) \<Longrightarrow> \<exists>k. boot_stage E b d k w"
  shows "\<exists>w'. pi_load (interface_of E b p) w = Inr w' \<and> boot_common w' \<and> boot_stage E b p 0 w' \<and> boot_frame E b p w w'"
proof (cases p)
  case P_ExtraLogging
  with ok i c show ?thesis
    by (simp add: interface_simps extra_logging_new_def values_ok_def Let_def boot_common_def boot_frame_def all_plugins)
next
  case P_NetworkRegistry
  with i c show ?thesis by (simp add: interface_simps boot_common_def boot_frame_def all_plugins)
next
  case P_AsioContextThreads
  from ok obtain m where "asio_logic_new b (asioThreads (se_StringToInt E) (se_conf E P_AsioContextThreads)) = Inr m"
    using asio_logic_new_returns unfolding values_ok_def by blast
  with P_AsioContextThreads i c deps [of P_NetworkRegistry] show ?thesis
    by (auto simp add: interface_simps boot_common_def boot_frame_def all_plugins ctx_SafeRegistry_def)
next
  case P_SignalHandler
  with i c deps [of P_AsioContextThreads] show ?thesis
    by (auto simp add: interface_simps boot_common_def boot_frame_def all_plugins ctx_io_context_def)
next
  case P_NetworkEntity
  with i c deps [of P_AsioContextThreads] show ?thesis
    by (auto simp add: interface_simps boot_common_def boot_frame_def all_plugins ctx_io_context_def ctx_SafeRegistry_def executor_at_def)
next
  case P_TcpServer
  with ok i c deps [of P_AsioContextThreads] show ?thesis
    by (auto simp add: interface_simps boot_common_def boot_frame_def all_plugins ctx_io_context_def ctx_SafeRegistry_def values_ok_def)
next
  case P_ConsoleTerminal
  with i c show ?thesis by (auto simp add: interface_simps boot_common_def boot_frame_def all_plugins executor_at_def)
next
  case P_BasicTerminalCommands
  with i c deps [of P_ConsoleTerminal] show ?thesis
    by (auto simp add: interface_simps boot_common_def boot_frame_def all_plugins)
next
  case P_ActionRecorder
  with i c show ?thesis
    by (simp add: interface_simps boot_common_def boot_frame_def all_plugins recorder_logic_new_def)
next
  case P_BasicCmdArgs
  with i c show ?thesis by (simp add: interface_simps boot_common_def boot_frame_def all_plugins)
qed

text \<open>The frame of the changes that links make.\<close>

lemma boot_frames [simp]:
  "boot_frame E b p w w"
  "boot_frame E b P_NetworkEntity w (w\<lparr>w_entity_executor := c\<rparr>)"
  "boot_frame E b P_ConsoleTerminal w (w\<lparr>w_console_executor := c\<rparr>)"
  "w_io_context w = Some False \<Longrightarrow> boot_frame E b P_TcpServer w (w\<lparr>w_io_context := Some False, w_server_log := l, w_accepting := v\<rparr>)"
  "boot_frame E b P_ActionRecorder w (w\<lparr>w_recorder := r\<rparr>)"
  "boot_frame E b P_BasicCmdArgs w (w\<lparr>w_cmd_log := es\<rparr>)"
  by (simp_all add: boot_frame_def all_plugins)

lemma ex_false: "Ex Not" by auto

lemmas below_simps = less_Suc_eq numeral_eq_Suc

text \<open>A link of the chain of a plugin. The stage of a plugin that has no state of its own does not depend on the link.\<close>

lemma boot_link:
  assumes c: "boot_common w" and st: "boot_stage E b p k w"
    and k: "k < length (pi_load_chain (interface_of E b p))" and f: "pi_load_chain (interface_of E b p) ! k = Do f"
  shows "\<exists>w'. f w = Inr w' \<and> boot_common w' \<and> boot_stage E b p (Suc k) w' \<and> boot_frame E b p w w'"
proof (cases p)
  case P_ExtraLogging
  with assms show ?thesis by (auto simp add: interface_simps less_Suc_eq)
next
  case P_NetworkRegistry
  with assms show ?thesis by (auto simp add: interface_simps less_Suc_eq)
next
  case P_AsioContextThreads
  with assms show ?thesis by (auto simp add: interface_simps less_Suc_eq)
next
  case P_SignalHandler
  with assms show ?thesis by (auto simp add: interface_simps less_Suc_eq)
next
  case P_NetworkEntity
  with k consider "k = 0" | "k = 1" | "k = 2" | "k = 3" | "k = 4" by (force simp: interface_simps below_simps)
  then show ?thesis
    by cases (use P_NetworkEntity c st f [symmetric] in \<open>simp_all add: interface_simps executor_simps boot_common_def\<close>)
next
  case P_TcpServer
  with k consider "k = 0" | "k = 1" | "k = 2" | "k = 3" by (force simp: interface_simps below_simps)
  then show ?thesis
  proof cases
    case 3
    with P_TcpServer f have f: "f = on_logic (alive P_TcpServer) (\<lambda>w. andThen (server_task startAcceptors w)
        (\<lambda>w. Inr (w\<lparr>w_accepting := True\<rparr>)))" by (simp add: interface_simps)
    from P_TcpServer st have "w_alive w P_TcpServer" "w_io_context w = Some False" by auto
    then have "f w = Inr (w\<lparr>w_io_context := Some False, w_server_log := w_server_log w @ [PostConfigureAndRunAcceptor],
        w_accepting := True\<rparr>)" by (simp add: f on_logic_def alive_def server_task_def ctx_io_context_def startAcceptors_def)
    with P_TcpServer c st show ?thesis by (simp add: boot_common_def)
  qed (use P_TcpServer c st f [symmetric] in \<open>simp_all add: interface_simps\<close>)
next
  case P_ConsoleTerminal
  with k consider "k = 0" | "k = 1" | "k = 2" | "k = 3" | "k = 4" by (force simp: interface_simps below_simps)
  then show ?thesis
    by cases (use P_ConsoleTerminal c st f [symmetric] in \<open>simp_all add: interface_simps executor_simps boot_common_def\<close>)
next
  case P_BasicTerminalCommands
  with assms show ?thesis by (auto simp add: interface_simps less_Suc_eq)
next
  case P_ActionRecorder
  with k consider "k = 0" | "k = 1" | "k = 2" | "k = 3" by (force simp: interface_simps below_simps)
  then show ?thesis
    by cases (use P_ActionRecorder c st f [symmetric] in \<open>simp_all add: interface_simps recorder_load_def setRecordActionTaskRunner_def
      if_alive_def setCustomCallback_def bindCheckedRepeating_def Let_def boot_common_def ex_false\<close>)
next
  case P_BasicCmdArgs
  with k consider "k = 0" | "k = 1" | "k = 2" by (force simp: interface_simps below_simps)
  then show ?thesis by cases (use P_BasicCmdArgs c st f [symmetric] in \<open>simp_all add: interface_simps boot_common_def\<close>)
qed

text \<open>What moves beside the plugins keeps all of it.\<close>

lemma boot_moves:
  assumes "boot_common w" and "server_moves b w r"
  shows "\<exists>w'. r = Inr w' \<and> boot_common w' \<and> w_table w' = w_table w \<and> (\<forall>q. (boot_idle q w \<longrightarrow> boot_idle q w') \<and> (\<forall>k. boot_stage E b q k w \<longrightarrow> boot_stage E b q k w'))"
  using assms(2)
proof cases
  case (moves_timer period)
  with assms(1) show ?thesis
    by (auto simp add: entity_timer_def ctx_io_context_def update_def boot_common_def all_plugins)
next
  case moves_registry
  with assms(1) show ?thesis by (auto simp add: registry_task_def boot_common_def all_plugins)
next
  case moves_acceptor
  with assms(1) show ?thesis by (simp add: boot_common_def)
next
  case (moves_connections v)
  with assms(1) show ?thesis by (simp add: boot_common_def all_plugins)
next
  case moves_drained
  with assms(1) show ?thesis by (simp add: boot_common_def all_plugins)
next
  case (moves_signal h signum)
  with assms(1) have h: "h = SignalHandler_new" by (auto simp: boot_common_def)
  with moves_signal have "signum \<in> {SIGINT, SIGTERM, SIGQUIT}" by (simp add: SignalHandler_new_def)
  from signal_first [OF this, of b False] moves_signal assms(1) show ?thesis
    by (simp add: h boot_common_def all_plugins)
qed

interpretation boot: staged_run "boot_run E b" "\<lambda>w. values_ok E \<and> fresh w" boot_idle "boot_stage E b"
  "\<lambda>w. values_ok E \<and> boot_common w" "\<lambda>_. False" for E b
proof (unfold_locales, goal_cases)
  case (1 w p)
  then show ?case by (cases p) (auto simp: fresh_def boot_common_def)
next
  case (2 w)
  then show ?case by (simp add: boot_run_def boot_common_def)
next
  case (3 t w)
  from 3(1) have t: "tk_after t = shipped_depends (tk_name t)" by (simp add: boot_run_def boot_task_after)
  from 3(2) have "values_ok E" "boot_common w" by simp_all
  from boot_call [OF this 3(3)] 3(4) \<open>values_ok E\<close> show ?case unfolding boot_frame_def by (fastforce simp: boot_run_def t)
next
  case (4 w p k f)
  from 4(1) have "values_ok E" "boot_common w" by simp_all
  note ok = this
  from 4(3,4) have "k < length (pi_load_chain (interface_of E b p))" "pi_load_chain (interface_of E b p) ! k = Do f"
    by (simp_all add: boot_run_def)
  from boot_link [OF ok(2) 4(2) this] ok(1) show ?case unfolding boot_frame_def by blast
next
  case (5 w p k g)
  then have "Await g \<in> set (pi_load_chain (interface_of E b p))" by (metis boot_run_def nth_mem run_spec.select_convs(3))
  then show ?case by (cases p) (auto simp: interface_simps)
next
  case (6 w w' q k)
  then have "values_ok E" "boot_common w" by simp_all
  from boot_moves [OF this(2), of b "Inr w'"] this(1) 6(2) show ?case by (auto simp: boot_run_def)
next
  case (7 w e)
  then have "boot_common w" by simp
  from boot_moves [OF this, of b "Inl e"] 7(2) show ?case by (auto simp: boot_run_def)
qed

lemma boot_orderly: "orderly boot_tasks"
proof -
  define rank :: "plugin_id \<Rightarrow> nat" where "rank p = (case p of P_AsioContextThreads \<Rightarrow> 1 | P_SignalHandler \<Rightarrow> 2
    | P_NetworkEntity \<Rightarrow> 2 | P_TcpServer \<Rightarrow> 3 | P_BasicTerminalCommands \<Rightarrow> 4 | P_BasicCmdArgs \<Rightarrow> 4 | _ \<Rightarrow> 0)" for p
  have "waits_for boot_tasks \<subseteq> measure rank"
    by (auto simp: waits_for_def boot_tasks_def shipped_order_def rank_def)
  then have "acyclic (waits_for boot_tasks)" by (meson wf_acyclic wf_measure wf_subset)
  then show ?thesis by (auto simp: orderly_def names_def boot_tasks_def shipped_order_def)
qed

lemma all_boot_tasks: "\<lparr>tk_name = p, tk_after = shipped_depends p\<rparr> \<in> set boot_tasks"
  by (cases p) (simp_all add: boot_tasks_def shipped_order_def)

lemma no_await_in_boot:
  assumes "boot.staged E b s"
  shows "\<not> waiting s"
proof
  assume "waiting s"
  then obtain p g ls where "rs_rest s p = Await g # ls" by (auto simp: waiting_def)
  from boot.staged_next [OF assms this] obtain k where "k < length (rn_chain (boot_run E b) p)"
    "rn_chain (boot_run E b) p ! k = Await g" by metis
  then have "Await g \<in> set (pi_load_chain (interface_of E b p))" by (metis boot_run_def nth_mem run_spec.select_convs(3))
  then show False by (cases p) (auto simp: interface_simps)
qed

text \<open>Loading does not touch the statistics.\<close>

lemma load_call_table: "boot_idle p w \<Longrightarrow> pi_load (interface_of E b p) w = Inr w' \<Longrightarrow> w_table w' = w_table w"
  by (cases p) (auto simp: interface_simps ctx_io_context_def ctx_SafeRegistry_def requires_def result_simps split: option.splits if_splits)

lemma boot_kept: "boot.kept E b (\<lambda>w. Q (w_table w))"
  unfolding boot.kept_def
proof (intro conjI allI impI, goal_cases)
  case (1 p w w')
  then have "pi_load (interface_of E b p) w = Inr w'" by (simp add: boot_run_def)
  from load_call_table [OF 1(2) this] 1(3) show ?case by simp
next
  case (2 p k f w w')
  then have "boot_common w" "k < length (pi_load_chain (interface_of E b p))" "pi_load_chain (interface_of E b p) ! k = Do f"
    by (simp_all add: boot_run_def)
  from boot_link [OF this(1) 2(2) this(2,3)] 2(5,6) show ?case by (auto simp: boot_frame_def)
qed

text \<open>A server whose plugins are all loaded.\<close>

definition loaded :: "('a, 'u, 't) server_env \<Rightarrow> build \<Rightarrow> ('a, 'u, 't) server_world \<Rightarrow> bool" where
  "loaded E b w = ((\<forall>p. w_alive w p) \<and> w_SafeRegistry w \<and> w_io_context w = Some False \<and> w_accepting w \<and> w_endpoint w \<noteq> None \<and>
     w_updater w \<noteq> None \<and> w_entity_executor w = Some (Some (entity_period E)) \<and>
     w_console_executor w = Some (Some (console_period E)) \<and> w_dispatcher w = Some True \<and>
     w_signal w \<noteq> None \<and> (w_signal_wait w \<longrightarrow> w_signal w = Some SignalHandler_new) \<and> rec_logic (w_recorder w) = Some True \<and>
     (\<exists>m. w_asio w = Some m \<and> asio_logic_new b (asioThreads (se_StringToInt E) (se_conf E P_AsioContextThreads)) = Inr m) \<and>
     \<not> w_blocked w)"

lemma boot_loaded:
  assumes "boot.staged E b s" and "complete boot_tasks (rs_log s)"
  shows "loaded E b (rs_world s)"
proof -
  have st: "boot_stage E b p (length (pi_load_chain (interface_of E b p))) (rs_world s)" for p
    using boot.run_complete [OF assms(1), of "\<lparr>tk_name = p, tk_after = shipped_depends p\<rparr>"] assms(2) all_boot_tasks [of p]
    by (simp add: boot_run_def)
  have "boot_common (rs_world s)" using assms(1) by (simp add: boot.staged_def)
  with st [of P_ExtraLogging] st [of P_NetworkRegistry] st [of P_AsioContextThreads] st [of P_SignalHandler] st [of P_NetworkEntity]
    st [of P_TcpServer] st [of P_ConsoleTerminal] st [of P_BasicTerminalCommands] st [of P_ActionRecorder] st [of P_BasicCmdArgs]
  show ?thesis by (auto simp: loaded_def all_plugins boot_common_def interface_simps executor_at_def)
qed

lemma boot_completes:
  assumes "boot.staged E b s"
  shows "\<exists>s'. (run_step (boot_run E b))\<^sup>*\<^sup>* (Inr s) (Inr s') \<and> complete boot_tasks (rs_log s') \<and> loaded E b (rs_world s')"
proof -
  have tasks: "rn_tasks (boot_run E b) = boot_tasks" by (simp add: boot_run_def)
  have "boot.waits_end E b (\<lambda>_. True)" using no_await_in_boot by (auto simp: boot.waits_end_def)
  from boot.run_can_complete [OF _ boot_kept [of E b "\<lambda>_. True"] this assms] boot_orderly
  obtain s' where "(run_step (boot_run E b))\<^sup>*\<^sup>* (Inr s) (Inr s')" "boot.staged E b s'" "complete boot_tasks (rs_log s')"
    unfolding tasks by blast
  with boot_loaded show ?thesis by blast
qed

subsection \<open>Properties\<close>


definition demo_server_env :: "(nat, callback list, nat \<Rightarrow> int) server_env" where
  "demo_server_env = \<lparr>se_data = (\<lambda>_ _. []), se_conf = (\<lambda>_ _. None), se_StringToInt = (\<lambda>_. 0), se_make_address = (\<lambda>_. Some 0), se_cores = 8,
     se_has_switch = (\<lambda>_. False), se_switch_size = (\<lambda>_. None), se_switch_int = (\<lambda>_. None), se_memory = 0,
     se_metrics = demo_metrics, se_stats = demo_table, se_time = demo_time, se_now = (10 ^ 9, 10 ^ 9), se_stop_status = Ok\<rparr>"

definition demo_unstarted :: "(nat, callback list, nat \<Rightarrow> int) server_world" where
  "demo_unstarted = \<lparr>w_alive = (\<lambda>_. False), w_SafeRegistry = False, w_io_context = None, w_dispatcher = None, w_warned = False, w_table = (\<lambda>_. 0),
     w_asio = None, w_signal = None, w_signal_wait = False, w_updater = None, w_entity_executor = None, w_updates = 0,
     w_endpoint = None, w_server_log = [], w_accepting = False, w_stop_posted = False, w_registry_empty = True, w_console_executor = None,
     w_recorder = \<lparr>metrics = [], next_bind = 0, rec_logic = None\<rparr>, w_cmd_log = [], w_blocked = False\<rparr>"

lemma demo_fresh: "values_ok demo_server_env" "fresh demo_unstarted"
  by (simp_all add: values_ok_def demo_server_env_def confMinCores_def asioThreads_def configured_int_def kDefaultMinCores_def
      kDefaultAsioThreads_def tcpEndpoint_def portNum_def kDefaultPortNum_def fresh_def demo_unstarted_def)


end
