(* ===== verification/Server_Config.thy ===== *)
theory Server_Config
  imports Server_Boot Plugin_Properties
begin

text \<open>
  The shipped \<open>plugins.conf\<close> through the plugin manager: the tasks of \<open>Server_Boot\<close> are the ones that \<open>startup\<close> and
  \<open>shutdown\<close> make of it.
\<close>

definition shipped_groups :: "demo_group list" where
  "shipped_groups = map (\<lambda>p. Entry (kPluginName p) (map kPluginName (shipped_depends p))) shipped_titles"

definition by_name :: "plugin_id task \<Rightarrow> string task" where
  "by_name t = \<lparr>tk_name = kPluginName (tk_name t), tk_after = map kPluginName (tk_after t)\<rparr>"

definition shipped_metadata :: "plugin_id \<Rightarrow> PluginMetadata" where
  "shipped_metadata p = \<lparr>pluginName = kPluginName p, dependsOn = map kPluginName (shipped_depends p),
     requiredBy = map kPluginName (shipped_required p)\<rparr>"

definition shipped_table :: plugin_map where
  "shipped_table = map (\<lambda>p. (kPluginName p, shipped_metadata p)) shipped_order"

text \<open>A host whose library has the ten plugins and can load them.\<close>

definition host_ok :: "'c plugin_host \<Rightarrow> string list \<Rightarrow> bool" where
  "host_ok H dynamic_plugins = (\<forall>p. (kPluginName p \<in> set dynamic_plugins \<or> kPluginName p \<in> set (static_pluginList H)) \<and>
     loads H (shipped_metadata p) \<and> fromNativeSeparators H (kPluginName p) = kPluginName p \<and> BaseName_agrees H (kPluginName p) \<and>
     loadState_ok H (plugin_of_path H (kPluginName p)))"

fun put_group :: "demo_group \<Rightarrow> plugin_map \<Rightarrow> plugin_map" where
  "put_group (Entry t ds) m = std_map_put string_less t \<lparr>pluginName = t, dependsOn = ds, requiredBy = []\<rparr> m"
| "put_group (Section gs) m = m"

lemma shipped_put: "populate_requiredBy (fold put_group shipped_groups []) = shipped_table"
  by code_simp

lemma add_entry:
  assumes "t \<in> set dyn \<or> t \<in> set stat"
  shows "add_group demo_conf_api b dyn stat (Entry t ds) m = Inr (put_group (Entry t ds) m)"
  using assms by (cases ds) (simp_all add: add_group_def demo_conf_api_def)


lemma add_groups:
  assumes "host_ok H dyn"
  shows "foldM (add_group demo_conf_api b dyn (static_pluginList H)) shipped_groups [] = Inr (fold put_group shipped_groups [])"
proof -
  have "foldM (add_group demo_conf_api b dyn (static_pluginList H))
      (map (\<lambda>p. Entry (kPluginName p) (map kPluginName (shipped_depends p))) ps) m =
    Inr (fold put_group (map (\<lambda>p. Entry (kPluginName p) (map kPluginName (shipped_depends p))) ps) m)" for ps m
    using assms by (induction ps arbitrary: m) (simp_all add: add_entry host_ok_def)
  then show ?thesis by (simp add: shipped_groups_def)
qed

lemma init_all:
  assumes "distinct (map pluginName mds)" and "\<forall>md \<in> set mds. pluginName md \<notin> set (loadResolvers pm) \<and>
    pluginName md \<notin> set (loadPromises pm) \<and> pluginName md \<notin> set (unloadResolvers pm) \<and> pluginName md \<notin> set (unloadPromises pm) \<and>
    loadCount pm (pluginName md) = None \<and> unloadCount pm (pluginName md) = None"
  shows "\<exists>pm'. foldM init_promises mds pm = Inr pm' \<and> loadPromises pm' = loadPromises pm @ map pluginName mds \<and>
    unloadPromises pm' = unloadPromises pm @ map pluginName mds \<and> loaded_plugins pm' = loaded_plugins pm \<and>
    has_manager pm' = has_manager pm \<and> is_initialized pm' = is_initialized pm"
  using assms
proof (induction mds arbitrary: pm)
  case Nil
  then show ?case by simp
next
  case (Cons md mds)
  obtain pm1 where pm1: "init_promises md pm = Inr pm1" "pm1 = pm\<lparr>loadResolvers := loadResolvers pm @ [pluginName md],
      loadPromises := loadPromises pm @ [pluginName md], unloadResolvers := unloadResolvers pm @ [pluginName md],
      unloadPromises := unloadPromises pm @ [pluginName md], loadCount := (loadCount pm)(pluginName md \<mapsto> 0),
      unloadCount := (unloadCount pm)(pluginName md \<mapsto> 0)\<rparr>"
    using Cons.prems by (simp add: init_promises_def Let_def)
  have "\<exists>pm'. foldM init_promises mds pm1 = Inr pm' \<and> loadPromises pm' = loadPromises pm1 @ map pluginName mds \<and>
    unloadPromises pm' = unloadPromises pm1 @ map pluginName mds \<and> loaded_plugins pm' = loaded_plugins pm1 \<and>
    has_manager pm' = has_manager pm1 \<and> is_initialized pm' = is_initialized pm1"
    by (rule Cons.IH) (use Cons.prems in \<open>auto simp: pm1(2) image_iff\<close>)
  then show ?case by (simp add: pm1)
qed

lemma load_all:
  assumes "\<forall>md \<in> set mds. loads H md \<and> fromNativeSeparators H (pluginName md) = pluginName md \<and>
    BaseName_agrees H (pluginName md) \<and> loadState_ok H (plugin_of_path H (pluginName md)) \<and> set (dependsOn md) \<subseteq> set (loadPromises pm)"
    and "has_manager pm"
  shows "foldM (load_plugin H b) mds (pm, ts) = Inr (pm\<lparr>loaded_plugins := loaded_plugins pm @ mds\<rparr>, ts @ map load_task mds)"
  using assms by (induction mds arbitrary: pm ts) (auto simp: load_plugin_def loads_def Let_def subset_iff)

lemma shipped_names: "distinct (map pluginName (map snd shipped_table))" "map snd shipped_table = map shipped_metadata shipped_order"
  by (simp_all add: shipped_table_def shipped_order_def shipped_metadata_def)

lemma shipped_tasks: "map load_task (map shipped_metadata shipped_order) = map by_name boot_tasks"
  "map unload_task (rev (map shipped_metadata shipped_order)) = map by_name down_tasks"
  by (simp_all add: load_task_def unload_task_def shipped_metadata_def by_name_def boot_tasks_def down_tasks_def rev_map)

lemma in_shipped_order: "p \<in> set shipped_order"
  by (cases p) (simp_all add: shipped_order_def)

text \<open>
  C25: the shipped configuration. If the host has the ten plugins and can load them, \<open>startup\<close> accepts
  the groups of the shipped \<open>plugins.conf\<close> and returns one task per plugin in the order of the names, each after the plugins
  it depends on; \<open>shutdown\<close> then returns the tasks in the reverse order, each after the plugins that depend on it. These are
  the tasks that the start and the stop of the server interleave.
\<close>

theorem shipped_startup:
  assumes "startup_paths H dir conf = Inr (d, c)" and "open_conf H c = Some (Section shipped_groups)"
    and "host_ok H (dynamic_plugins_of (static_pluginList H) (pluginList H d))"
  shows "\<exists>pm. startup demo_conf_api H b dir conf [] PluginManager_new = Inr (pm, map by_name boot_tasks) \<and>
    loaded_plugins pm = map shipped_metadata shipped_order \<and> shutdown pm = Inr (map by_name down_tasks)"
proof -
  let ?mds = "map shipped_metadata shipped_order"
  let ?dyn = "dynamic_plugins_of (static_pluginList H) (pluginList H d)"
  have meta: "loadPluginsMetadata demo_conf_api b shipped_groups ?dyn (static_pluginList H) = Inr shipped_table"
    using add_groups [OF assms(3)] by (simp add: loadPluginsMetadata_def shipped_put)
  have parse: "parsePluginsConfig demo_conf_api b (Some (Section shipped_groups)) [] False = Inr (True, shipped_groups, True)"
    by (simp add: parsePluginsConfig_def demo_conf_api_def kAllPluginsConfigCategory_def kIndividualPluginConfigCategory_def)
  obtain pm1 where pm1: "foldM init_promises ?mds (PluginManager_new\<lparr>has_manager := True\<rparr>) = Inr pm1"
    "loadPromises pm1 = map pluginName ?mds" "unloadPromises pm1 = map pluginName ?mds" "loaded_plugins pm1 = []"
    "has_manager pm1" "\<not> is_initialized pm1"
    using init_all [of ?mds "PluginManager_new\<lparr>has_manager := True\<rparr>"] shipped_names by (auto simp: PluginManager_new_def)
  have ok: "\<forall>md \<in> set ?mds. loads H md \<and> fromNativeSeparators H (pluginName md) = pluginName md \<and>
    BaseName_agrees H (pluginName md) \<and> loadState_ok H (plugin_of_path H (pluginName md)) \<and> set (dependsOn md) \<subseteq> set (loadPromises pm1)"
    using assms(3) in_shipped_order by (auto simp: host_ok_def shipped_metadata_def pm1(2))
  have "start_plugins H b shipped_table (PluginManager_new\<lparr>has_manager := True\<rparr>) =
      Inr (pm1\<lparr>loaded_plugins := ?mds, is_initialized := True\<rparr>, map by_name boot_tasks)"
    using load_all [OF ok pm1(5), of b "[]"] pm1 shipped_tasks(1)
    by (simp add: start_plugins_def shipped_names(2) PluginManager_new_def)
  then have s: "startup demo_conf_api H b dir conf [] PluginManager_new =
      Inr (pm1\<lparr>loaded_plugins := ?mds, is_initialized := True\<rparr>, map by_name boot_tasks)"
    using assms(1,2) meta parse by (simp add: startup_def PluginManager_new_def Let_def)
  from startup_shutdown [OF s] show ?thesis using s shipped_tasks(2) by simp
qed

definition shipped_host :: "demo_group option plugin_host" where
  "shipped_host = \<lparr>executable_path = ''bin'', join_path = (\<lambda>d n. d @ ''/'' @ n), open_conf = (\<lambda>_. Some (Section shipped_groups)),
     static_pluginList = [], pluginList = (\<lambda>_. map kPluginName shipped_order), PathExists = (\<lambda>_. False),
     fromNativeSeparators = (\<lambda>p. p), load_ok = (\<lambda>n. True), plugin_of_path = (\<lambda>p. p), BaseName_agrees = (\<lambda>_. True),
     loadState_ok = (\<lambda>_. True), instantiate_ok = (\<lambda>_. True)\<rparr>"

theorem shipped_startup_witness:
  "\<exists>pm. startup demo_conf_api shipped_host Debug [] [] [] PluginManager_new = Inr (pm, map by_name boot_tasks) \<and>
    shutdown pm = Inr (map by_name down_tasks) \<and> countLoadedPlugins pm = 10"
proof -
  have "host_ok shipped_host (dynamic_plugins_of (static_pluginList shipped_host) (pluginList shipped_host ''bin''))"
    using in_shipped_order by (auto simp: host_ok_def shipped_host_def loads_def dynamic_plugins_of_def)
  from shipped_startup [of shipped_host "[]" "[]", OF _ _ this, of "''bin/plugins.conf''" Debug] show ?thesis
    by (auto simp: shipped_host_def startup_paths_def kPluginsConfigFileName_def Let_def countLoadedPlugins_def shipped_order_def)
qed

end
