(* ===== verification/Server_Stop.thy ===== *)
theory Server_Stop
  imports Server_Boot
begin

text \<open>
  The stop of the example server: its ten plugins are unloaded in any interleaving that \<open>shutdown\<close> of the plugin manager allows, while
  the timer, the registry thread, connections and signals still go on.
\<close>

text \<open>The acceptor is closed without an error, and the statistics can be written.\<close>

definition teardown_ok :: "('a, 'u, 't) server_env \<Rightarrow> build \<Rightarrow> ('a, 'u, 't) server_world \<Rightarrow> bool" where
  "teardown_ok E b w = (se_stop_status E = Ok \<and>
     returns (ScopedStatsTableUpdater_delete (se_stats E) (se_time E) b (fst (se_now E)) (snd (se_now E)) (w_table w)))"

subsection \<open>The stages of unloading\<close>

definition running_threads :: "('a, 'u, 't) server_env \<Rightarrow> build \<Rightarrow> ('a, 'u, 't) server_world \<Rightarrow> bool" where
  "running_threads E b w = (\<exists>m. w_asio w = Some m \<and>
     asio_logic_new b (asioThreads (se_StringToInt E) (se_conf E P_AsioContextThreads)) = Inr m)"

definition joined_threads :: "('a, 'u, 't) server_world \<Rightarrow> bool" where
  "joined_threads w = (\<exists>m. w_asio w = Some m \<and> (\<forall>t \<in> set (asio_threads m). \<not> IsRunning t))"

fun down_idle :: "('a, 'u, 't) server_env \<Rightarrow> build \<Rightarrow> plugin_id \<Rightarrow> ('a, 'u, 't) server_world \<Rightarrow> bool" where
  "down_idle E b P_ExtraLogging w = (w_alive w P_ExtraLogging \<and> teardown_ok E b w)"
| "down_idle E b P_AsioContextThreads w = (w_alive w P_AsioContextThreads \<and> running_threads E b w)"
| "down_idle E b P_NetworkEntity w = (w_alive w P_NetworkEntity \<and> w_updater w \<noteq> None \<and>
     w_entity_executor w = Some (Some (entity_period E)))"
| "down_idle E b P_TcpServer w = (w_alive w P_TcpServer \<and> w_io_context w = Some False)"
| "down_idle E b P_ConsoleTerminal w = (w_alive w P_ConsoleTerminal \<and> w_console_executor w \<noteq> None)"
| "down_idle E b P_ActionRecorder w = (w_alive w P_ActionRecorder \<and> rec_logic (w_recorder w) = Some True)"
| "down_idle E b p w = w_alive w p"

text \<open>\<open>k\<close> links of the chain have run; the logic object is destroyed by the last but one of them.\<close>

fun down_stage :: "('a, 'u, 't) server_env \<Rightarrow> build \<Rightarrow> plugin_id \<Rightarrow> nat \<Rightarrow> ('a, 'u, 't) server_world \<Rightarrow> bool" where
  "down_stage E b P_ExtraLogging k w = (w_alive w P_ExtraLogging = (k \<le> 2) \<and> (k \<le> 2 \<longrightarrow> teardown_ok E b w))"
| "down_stage E b P_AsioContextThreads k w = (w_alive w P_AsioContextThreads = (k \<le> 3) \<and> w_io_context w = Some True \<and>
     (if k \<le> 3 then running_threads E b w else joined_threads w))"
| "down_stage E b P_SignalHandler k w = (w_alive w P_SignalHandler = (k \<le> 2) \<and> w_io_context w = Some True \<and>
     (2 < k \<longrightarrow> \<not> w_signal_wait w))"
| "down_stage E b P_NetworkEntity k w = (w_alive w P_NetworkEntity = (k \<le> 3) \<and> w_io_context w = Some True \<and>
     (w_updater w \<noteq> None) = (k \<le> 3) \<and> (w_entity_executor w \<noteq> None) = (k \<le> 2))"
| "down_stage E b P_TcpServer k w = (w_alive w P_TcpServer = (k \<le> 7) \<and> w_io_context w = Some (6 < k) \<and>
     (k = 3 \<and> w_accepting w \<longrightarrow> w_stop_posted w) \<and> (3 < k \<longrightarrow> \<not> w_accepting w) \<and> (5 < k \<longrightarrow> w_registry_empty w))"
| "down_stage E b P_ConsoleTerminal k w = (w_alive w P_ConsoleTerminal = (k \<le> 3) \<and> (w_console_executor w \<noteq> None) = (k \<le> 2))"
| "down_stage E b P_ActionRecorder k w = (w_alive w P_ActionRecorder = (k \<le> 3) \<and>
     rec_logic (w_recorder w) = (if k \<le> 1 then Some True else if k \<le> 3 then Some False else None))"
| "down_stage E b p k w = (w_alive w p = (k \<le> 2))"

definition down_common :: "('a, 'u, 't) server_env \<Rightarrow> ('a, 'u, 't) server_world \<Rightarrow> bool" where
  "down_common E w = (se_stop_status E = Ok \<and> 0 \<le> asioThreads (se_StringToInt E) (se_conf E P_AsioContextThreads) \<and> \<not> w_blocked w \<and> w_io_context w \<noteq> None \<and>
     (w_io_context w = Some True \<longrightarrow> w_registry_empty w \<and> \<not> w_accepting w) \<and>
     (w_entity_executor w \<noteq> None \<longrightarrow> w_updater w \<noteq> None) \<and> (w_signal_wait w \<longrightarrow> w_signal w = Some SignalHandler_new))"

definition down_frame ::
  "('a, 'u, 't) server_env \<Rightarrow> build \<Rightarrow> plugin_id \<Rightarrow> ('a, 'u, 't) server_world \<Rightarrow> ('a, 'u, 't) server_world \<Rightarrow> bool" where
  "down_frame E b p w w' = (w_updates w' = w_updates w \<and>
     (\<forall>q. q \<noteq> p \<longrightarrow> (down_idle E b q w \<longrightarrow> down_idle E b q w') \<and> (\<forall>k. down_stage E b q k w \<longrightarrow> down_stage E b q k w')))"

lemma down_frame_refl [simp]: "down_frame E b p w w"
  by (simp add: down_frame_def)

lemma down_task_after: "t \<in> set down_tasks \<Longrightarrow> tk_after t = shipped_required (tk_name t)"
  by (auto simp: down_tasks_def)

lemma required_simps:
  "shipped_required P_ExtraLogging = []" "shipped_required P_NetworkRegistry = [P_AsioContextThreads]"
  "shipped_required P_AsioContextThreads = [P_NetworkEntity, P_SignalHandler, P_TcpServer]"
  "shipped_required P_SignalHandler = [P_TcpServer]" "shipped_required P_NetworkEntity = [P_TcpServer]"
  "shipped_required P_TcpServer = [P_BasicCmdArgs, P_BasicTerminalCommands]"
  "shipped_required P_ConsoleTerminal = [P_BasicCmdArgs, P_BasicTerminalCommands]"
  "shipped_required P_BasicTerminalCommands = []" "shipped_required P_ActionRecorder = []" "shipped_required P_BasicCmdArgs = []"
  by (simp_all add: shipped_required_def shipped_order_def)

text \<open>The call of \<open>unload\<close> takes the address of the logic object, which exists.\<close>

lemma down_call:
  assumes "down_common E w" and "down_idle E b p w"
    and "\<And>d. d \<in> set (shipped_required p) \<Longrightarrow> down_stage E b d (length (pi_unload_chain (interface_of E b d))) w"
  shows "pi_unload (interface_of E b p) w = Inr w \<and> down_stage E b p 0 w"
  using assms(1,2) assms(3) [of P_TcpServer]
  by (cases p) (auto simp add: interface_simps required_simps down_common_def)

text \<open>The destructor of the threads, with a stopped \<open>io_context\<close>.\<close>

lemma asio_delete_returns:
  assumes "asio_logic_new b n = Inr m"
  shows "\<exists>m'. asio_logic_delete b True m = Inr (Some m') \<and> (\<forall>t \<in> set (asio_threads m'). \<not> IsRunning t)"
proof -
  have new: "threads_ok AsioThreadsManager_new" by (simp add: threads_ok_def AsioThreadsManager_new_def)
  from assms have "startThreads b (nat n) AsioThreadsManager_new = Inr m" by (simp add: asio_logic_new_def check_def split: if_splits)
  with startThreads_effect [OF new, of b "nat n"] have "\<forall>i < length (asio_threads m). IsRunning (asio_threads m ! i)"
    by (auto simp: AsioThreadsManager_new_def)
  then have run: "\<forall>t \<in> set (asio_threads m). IsRunning t" by (metis in_set_conv_nth)
  from stop_threads_prefix [OF this order_refl, of b]
  have "stopThreads b True m =
      Inr (Some (m\<lparr>asio_threads := replicate (length (asio_threads m)) \<lparr>IsRunning = False, posted_runs = 0\<rparr>\<rparr>))"
    by (simp add: stopThreads_def)
  then show ?thesis by (auto simp: asio_logic_delete_def delete_stopped)
qed

lemma ex_true: "\<exists>y. y" by auto

lemmas down_simps = ex_true ex_false down_common_def down_frame_def all_plugins running_threads_def joined_threads_def teardown_ok_def

text \<open>A link of the chain of a plugin.\<close>

lemma down_link_tcp:
  assumes c: "down_common E w" and st: "down_stage E b P_TcpServer k w"
    and k: "k < length (pi_unload_chain (interface_of E b P_TcpServer))"
    and f: "pi_unload_chain (interface_of E b P_TcpServer) ! k = Do f"
  shows "\<exists>w'. f w = Inr w' \<and> down_common E w' \<and> down_stage E b P_TcpServer (Suc k) w' \<and> down_frame E b P_TcpServer w w'"
proof -
  from k consider "k = 0" | "k = 1" | "k = 2" | "k = 3" | "k = 4" | "k = 5" | "k = 6" | "k = 7" | "k = 8"
    by (force simp: interface_simps below_simps)
  then show ?thesis
  proof cases
    case 3
    then have "f = on_logic (alive P_TcpServer) (\<lambda>w. andThen (server_task unload w) (\<lambda>w. Inr (w\<lparr>w_stop_posted := True\<rparr>)))"
      using f by (simp add: interface_simps)
    with 3 c st show ?thesis by (simp add: interface_simps server_task_def ctx_io_context_def unload_def down_simps)
  next
    case 5
    then have "f = on_logic (alive P_TcpServer) (server_task (acceptor_stopped b (se_stop_status E)))"
      using f by (simp add: interface_simps)
    with 5 c st show ?thesis by (simp add: interface_simps server_task_def ctx_io_context_def acceptor_stopped_def
        promiseNetworkResourcesFreed_def down_simps)
  next
    case 7
    then have "f = on_logic (alive P_TcpServer) (server_task (stopIOContext b))" using f by (simp add: interface_simps)
    with 7 c st show ?thesis by (simp add: interface_simps server_task_def ctx_io_context_def stopIOContext_def Let_def down_simps)
  qed (use c st f [symmetric] in \<open>simp_all add: interface_simps down_simps\<close>)
qed

lemma down_link_asio:
  assumes c: "down_common E w" and st: "down_stage E b P_AsioContextThreads k w"
    and k: "k < length (pi_unload_chain (interface_of E b P_AsioContextThreads))"
    and f: "pi_unload_chain (interface_of E b P_AsioContextThreads) ! k = Do f"
  shows "\<exists>w'. f w = Inr w' \<and> down_common E w' \<and> down_stage E b P_AsioContextThreads (Suc k) w' \<and>
    down_frame E b P_AsioContextThreads w w'"
proof -
  from k consider "k = 0" | "k = 1" | "k = 2" | "k = 3" | "k = 4" by (force simp: interface_simps below_simps)
  then show ?thesis
  proof cases
    case 3
    then have "f = ctx_io_context (\<lambda>s w. Inr (w\<lparr>w_io_context := Some (asio_unload s)\<rparr>))" using f by (simp add: interface_simps)
    with 3 c st show ?thesis by (simp add: ctx_io_context_def asio_unload_def down_simps)
  next
    case 4
    then have f: "f = optional_reset (asio_context_threads_logic E b)" using f by (simp add: asio_context_threads_interface_def
          MainPluginInterface_new_def log_link_def asio_context_threads_logic_def)
    from st 4 obtain m where m: "w_asio w = Some m"
      "asio_logic_new b (asioThreads (se_StringToInt E) (se_conf E P_AsioContextThreads)) = Inr m" "w_io_context w = Some True"
      by (auto simp: running_threads_def)
    from asio_delete_returns [OF m(2)] obtain m' where
      "asio_logic_delete b True m = Inr (Some m')" "\<forall>t \<in> set (asio_threads m'). \<not> IsRunning t" by blast
    with f 4 c st m show ?thesis by (simp add: interface_simps down_simps)
  qed (use c st f [symmetric] in \<open>simp_all add: interface_simps down_simps\<close>)
qed

lemma down_link:
  assumes c: "down_common E w" and st: "down_stage E b p k w"
    and k: "k < length (pi_unload_chain (interface_of E b p))" and f: "pi_unload_chain (interface_of E b p) ! k = Do f"
  shows "\<exists>w'. f w = Inr w' \<and> down_common E w' \<and> down_stage E b p (Suc k) w' \<and> down_frame E b p w w'"
proof (cases p)
  case P_ExtraLogging
  with k consider "k = 0" | "k = 1" | "k = 2" | "k = 3" by (force simp: interface_simps below_simps)
  then show ?thesis
  proof cases
    case 3
    with P_ExtraLogging st obtain lt where
      "ScopedStatsTableUpdater_delete (se_stats E) (se_time E) b (fst (se_now E)) (snd (se_now E)) (w_table w) = Inr lt"
      by (auto simp: teardown_ok_def returns_def split: sum.splits)
    with 3 P_ExtraLogging c st f [symmetric] show ?thesis by (cases lt) (simp add: interface_simps down_simps)
  qed (use P_ExtraLogging c st f [symmetric] in \<open>simp_all add: interface_simps down_simps\<close>)
next
  case P_NetworkRegistry
  with k consider "k = 0" | "k = 1" | "k = 2" | "k = 3" by (force simp: interface_simps below_simps)
  then show ?thesis by cases (use P_NetworkRegistry c st f [symmetric] in \<open>simp_all add: interface_simps down_simps\<close>)
next
  case P_AsioContextThreads
  with down_link_asio assms show ?thesis by blast
next
  case P_SignalHandler
  with k consider "k = 0" | "k = 1" | "k = 2" | "k = 3" by (force simp: interface_simps below_simps)
  then show ?thesis by cases (use P_SignalHandler c st f [symmetric] in \<open>simp_all add: interface_simps down_simps\<close>)
next
  case P_NetworkEntity
  with k consider "k = 0" | "k = 1" | "k = 2" | "k = 3" | "k = 4" by (force simp: interface_simps below_simps)
  then show ?thesis
    by cases (use P_NetworkEntity c st f [symmetric] in \<open>simp_all add: interface_simps executor_simps down_simps\<close>)
next
  case P_TcpServer
  with down_link_tcp assms show ?thesis by blast
next
  case P_ConsoleTerminal
  with k consider "k = 0" | "k = 1" | "k = 2" | "k = 3" | "k = 4" by (force simp: interface_simps below_simps)
  then show ?thesis
    by cases (use P_ConsoleTerminal c st f [symmetric] in \<open>simp_all add: interface_simps executor_simps down_simps\<close>)
next
  case P_BasicTerminalCommands
  with k consider "k = 0" | "k = 1" | "k = 2" | "k = 3" by (force simp: interface_simps below_simps)
  then show ?thesis by cases (use P_BasicTerminalCommands c st f [symmetric] in \<open>simp_all add: interface_simps down_simps\<close>)
next
  case P_ActionRecorder
  with k consider "k = 0" | "k = 1" | "k = 2" | "k = 3" | "k = 4" by (force simp: interface_simps below_simps)
  then show ?thesis
    by cases (use P_ActionRecorder c st f [symmetric] in \<open>simp_all add: interface_simps down_simps recorder_unload_def
      removeActionCallback_def bindCheckedRepeating_def if_alive_def unsetCustomCallback_def recorder_logic_delete_def Let_def\<close>)
next
  case P_BasicCmdArgs
  with k consider "k = 0" | "k = 1" | "k = 2" | "k = 3" by (force simp: interface_simps below_simps)
  then show ?thesis by cases (use P_BasicCmdArgs c st f [symmetric] in \<open>simp_all add: interface_simps down_simps\<close>)
qed

text \<open>What moves beside the plugins. Only a posted update can come too late.\<close>

definition late_update :: abort where
  "late_update = UNDEFINED ''updateOnRegistryThread(this)''"

lemma down_moves:
  assumes c: "down_common E w" and "server_moves b w r"
  shows "r = Inl late_update \<or> (\<exists>w'. r = Inr w' \<and> down_common E w' \<and>
    (\<forall>q. (down_idle E b q w \<longrightarrow> down_idle E b q w') \<and> (\<forall>k. down_stage E b q k w \<longrightarrow> down_stage E b q k w')))"
  using assms(2)
proof cases
  case (moves_timer period)
  with c obtain u where "w_updater w = Some u" by (auto simp: down_common_def)
  with moves_timer c show ?thesis
    by (cases "w_io_context w = Some True") (auto simp add: entity_timer_def ctx_io_context_def update_def down_simps)
next
  case moves_registry
  with c show ?thesis by (cases "w_updater w") (simp_all add: registry_task_def late_update_def down_simps)
next
  case moves_acceptor
  with c show ?thesis by (auto simp add: down_simps)
next
  case (moves_connections v)
  with c show ?thesis by (auto simp add: down_simps)
next
  case moves_drained
  with c show ?thesis by (simp add: down_simps)
next
  case (moves_signal h signum)
  with c have h: "h = SignalHandler_new" by (auto simp: down_common_def)
  with moves_signal have "signum \<in> {SIGINT, SIGTERM, SIGQUIT}" by (simp add: SignalHandler_new_def)
  from signal_first [OF this, of b False] moves_signal c show ?thesis
    by (simp add: h down_simps)
qed

definition down_start :: "('a, 'u, 't) server_env \<Rightarrow> build \<Rightarrow> ('a, 'u, 't) server_world \<Rightarrow> bool" where
  "down_start E b w = (values_ok E \<and> loaded E b w \<and> teardown_ok E b w)"

interpretation down: staged_run "down_run E b" "down_start E b" "down_idle E b" "down_stage E b" "down_common E" "\<lambda>e. e = late_update"
  for E b
proof (unfold_locales, goal_cases)
  case (1 w p)
  then show ?case by (cases p) (auto simp: down_start_def loaded_def values_ok_def down_simps)
next
  case (2 w)
  then show ?case by (simp add: down_run_def down_common_def)
next
  case (3 t w)
  from 3(1) have t: "tk_after t = shipped_required (tk_name t)" by (simp add: down_run_def down_task_after)
  from down_call [OF 3(2,3)] 3(2,4) show ?case by (simp add: down_run_def t)
next
  case (4 w p k f)
  then have "k < length (pi_unload_chain (interface_of E b p))" "pi_unload_chain (interface_of E b p) ! k = Do f"
    by (simp_all add: down_run_def)
  from down_link [OF 4(1,2) this] show ?case unfolding down_frame_def by blast
next
  case (5 w p k g)
  then have "Await g \<in> set (pi_unload_chain (interface_of E b p))" by (metis down_run_def nth_mem run_spec.select_convs(3))
  then have p: "p = P_TcpServer" by (cases p) (auto simp: interface_simps)
  with 5(3) have "k < 9" by (simp add: down_run_def interface_simps)
  then consider "k = 3" | "k = 5" | "k = 0" | "k = 1" | "k = 2" | "k = 4" | "k = 6" | "k = 7" | "k = 8" by linarith
  then show ?case by cases (use 5 p in \<open>auto simp: down_run_def interface_simps\<close>)
next
  case (6 w w' q k)
  from down_moves [OF 6(1), of b "Inr w'"] 6(2) show ?case by (auto simp: down_run_def)
next
  case (7 w e)
  from down_moves [OF 7(1), of b "Inl e"] 7(2) show ?case by (auto simp: down_run_def)
qed

lemma down_orderly: "orderly down_tasks"
proof -
  define rank :: "plugin_id \<Rightarrow> nat" where "rank p = (case p of P_TcpServer \<Rightarrow> 1 | P_SignalHandler \<Rightarrow> 2
    | P_NetworkEntity \<Rightarrow> 2 | P_AsioContextThreads \<Rightarrow> 3 | P_ConsoleTerminal \<Rightarrow> 1 | P_NetworkRegistry \<Rightarrow> 4 | _ \<Rightarrow> 0)" for p
  have "waits_for down_tasks \<subseteq> measure rank"
    by (auto simp: waits_for_def down_tasks_def shipped_order_def required_simps rank_def)
  then have "acyclic (waits_for down_tasks)" by (meson wf_acyclic wf_measure wf_subset)
  then show ?thesis by (auto simp: orderly_def names_def down_tasks_def shipped_order_def required_simps)
qed

lemma all_down_tasks: "\<lparr>tk_name = p, tk_after = shipped_required p\<rparr> \<in> set down_tasks"
  by (cases p) (simp_all add: down_tasks_def shipped_order_def)

text \<open>The two waits are for the acceptor and for the connections, and both can end: the threads of the \<open>io_context\<close> still run.\<close>

lemma down_wait:
  assumes "down.staged E b s" and "rs_rest s p = Await g # ls"
  shows "w_io_context (rs_world s) = Some False"
    and "g = w_registry_empty \<or> g = (\<lambda>w. \<not> w_accepting w) \<and> (w_accepting (rs_world s) \<longrightarrow> w_stop_posted (rs_world s))"
    and "p = P_TcpServer"
proof -
  from down.staged_next [OF assms] obtain k where k: "k < length (rn_chain (down_run E b) p)"
    "rn_chain (down_run E b) p ! k = Await g" "down_stage E b p k (rs_world s)" by metis
  then have at: "Await g \<in> set (pi_unload_chain (interface_of E b p))" by (metis down_run_def nth_mem run_spec.select_convs(3))
  then show p: "p = P_TcpServer" by (cases p; auto simp: interface_simps)
  have "k < 9" using k(1) p by (simp add: down_run_def interface_simps)
  then consider "k = 3" | "k = 5" | "k = 0" | "k = 1" | "k = 2" | "k = 4" | "k = 6" | "k = 7" | "k = 8" by linarith
  then have "w_io_context (rs_world s) = Some False \<and>
      (g = w_registry_empty \<or> g = (\<lambda>w. \<not> w_accepting w) \<and> (w_accepting (rs_world s) \<longrightarrow> w_stop_posted (rs_world s)))"
    by cases (use k(2,3) p in \<open>auto simp: down_run_def interface_simps\<close>)
  then show "w_io_context (rs_world s) = Some False"
    and "g = w_registry_empty \<or> g = (\<lambda>w. \<not> w_accepting w) \<and> (w_accepting (rs_world s) \<longrightarrow> w_stop_posted (rs_world s))" by blast+
qed

lemma down_waits_end: "down.waits_end E b (\<lambda>w. Q (w_updates w))"
  unfolding down.waits_end_def
proof (intro allI impI, elim conjE)
  fix s assume s: "down.staged E b s" "waiting s" and q: "Q (w_updates (rs_world s))"
  let ?drained = "(rs_world s)\<lparr>w_registry_empty := True\<rparr>" and ?closed = "(rs_world s)\<lparr>w_stop_posted := False, w_accepting := False\<rparr>"
  from s(2) obtain p g ls where w: "rs_rest s p = Await g # ls" "\<not> g (rs_world s)" by (auto simp: waiting_def)
  note dw = down_wait [OF s(1) w(1)]
  have only: "g' = g" if "rs_rest s p' = Await g' # ls'" for p' g' ls'
    using down_wait(3) [OF s(1) that] dw(3) w(1) that by simp
  let ?w = "if g = w_registry_empty then ?drained else ?closed"
  have "g ?w" using dw(2) by auto
  then have "\<not> waiting (s\<lparr>rs_world := ?w\<rparr>)" unfolding waiting_def by (auto dest!: only simp del: if_split_asm split del: if_split)
  moreover have "rn_env (down_run E b) (rs_world s) (Inr ?w)"
    using dw(1,2) w(2) moves_drained [of "rs_world s" b] moves_acceptor [of "rs_world s" b] by (auto simp: down_run_def)
  moreover have "Q (w_updates ?w)" using q by simp
  ultimately show "\<exists>w. rn_env (down_run E b) (rs_world s) (Inr w) \<and> \<not> waiting (s\<lparr>rs_world := w\<rparr>) \<and> Q (w_updates w)" by blast
qed

lemma unload_call_same: "pi_unload (interface_of E b p) w = Inr w' \<Longrightarrow> w' = w"
  by (cases p) (auto simp: interface_simps dcheck_def requires_def split: if_splits)

lemma down_kept: "down.kept E b (\<lambda>w. Q (w_updates w))"
  unfolding down.kept_def
proof (intro conjI allI impI, goal_cases)
  case (1 p w w')
  then have "pi_unload (interface_of E b p) w = Inr w'" by (simp add: down_run_def)
  from unload_call_same [OF this] 1(3) show ?case by simp
next
  case (2 p k f w w')
  from down_link [OF 2(1,2)] 2(3-6) show ?case by (auto simp: down_run_def down_frame_def)
qed

subsection \<open>Properties\<close>

definition stopped_server :: "('a, 'u, 't) server_world \<Rightarrow> bool" where
  "stopped_server w = ((\<forall>p. \<not> w_alive w p) \<and> w_io_context w = Some True \<and> w_registry_empty w \<and> \<not> w_accepting w \<and>
     joined_threads w \<and> w_updater w = None \<and> w_entity_executor w = None \<and> w_console_executor w = None \<and>
     \<not> w_signal_wait w \<and> rec_logic (w_recorder w) = None \<and> \<not> w_blocked w)"

lemma down_stopped:
  assumes "down.staged E b s" and "complete down_tasks (rs_log s)"
  shows "stopped_server (rs_world s)"
proof -
  have st: "down_stage E b p (length (pi_unload_chain (interface_of E b p))) (rs_world s)" for p
    using down.run_complete [OF assms(1), of "\<lparr>tk_name = p, tk_after = shipped_required p\<rparr>"] assms(2) all_down_tasks [of p]
    by (simp add: down_run_def)
  have "down_common E (rs_world s)" using assms(1) by (simp add: down.staged_def)
  with st [of P_ExtraLogging] st [of P_NetworkRegistry] st [of P_AsioContextThreads] st [of P_SignalHandler] st [of P_NetworkEntity]
    st [of P_TcpServer] st [of P_ConsoleTerminal] st [of P_BasicTerminalCommands] st [of P_ActionRecorder] st [of P_BasicCmdArgs]
  show ?thesis by (auto simp: stopped_server_def all_plugins down_common_def interface_simps)
qed

lemma down_completes:
  assumes "down.staged E b s" and "Q (w_updates (rs_world s))"
  shows "\<exists>s'. (run_step (down_run E b))\<^sup>*\<^sup>* (Inr s) (Inr s') \<and> complete down_tasks (rs_log s') \<and> stopped_server (rs_world s') \<and>
    Q (w_updates (rs_world s'))"
proof -
  have tasks: "rn_tasks (down_run E b) = down_tasks" by (simp add: down_run_def)
  from down.run_can_complete [where Q = "\<lambda>w. Q (w_updates w)", OF _ down_kept down_waits_end assms(1)] assms(2) down_orderly
  obtain s' where "(run_step (down_run E b))\<^sup>*\<^sup>* (Inr s) (Inr s')" "down.staged E b s'" "Q (w_updates (rs_world s'))"
    "complete down_tasks (rs_log s')" unfolding tasks by blast
  with down_stopped show ?thesis by blast
qed


lemma late_update_step:
  assumes "0 < w_updates (rs_world s)" and "w_updater (rs_world s) = None"
  shows "run_step (down_run E b) (Inr s) (Inl late_update)"
proof -
  have "rn_env (down_run E b) (rs_world s) (registry_task (rs_world s))" using assms(1) by (simp add: down_run_def moves_registry)
  from run_env [of "down_run E b" s, OF this] assms(2) show ?thesis by (simp add: registry_task_def late_update_def)
qed

text \<open>Between the check for an empty registry and the stop of the \<open>io_context\<close> the timer still posts.\<close>

lemma timer_posts:
  assumes "w_io_context w = Some False" and "w_updater w = Some u"
  shows "entity_timer b w = Inr (w\<lparr>w_updater := Some (u\<lparr>numQueuedUpdateTasks := numQueuedUpdateTasks u + 1\<rparr>),
    w_updates := w_updates w + 1\<rparr>)"
  using assms by (simp add: entity_timer_def ctx_io_context_def update_def)

text \<open>The last point at which the server is still connected to the \<open>io_context\<close>: three links of the server's chain are left.\<close>

lemma before_stop:
  assumes "down.staged E b s" and "down.task_work E b s P_TcpServer = 4"
  shows "rs_rest s P_TcpServer = drop 6 (pi_unload_chain (tcp_server_interface E b))" and "w_registry_empty (rs_world s)"
    and "w_io_context (rs_world s) = Some False" and "w_entity_executor (rs_world s) = Some (Some (entity_period E))"
    and "w_updater (rs_world s) \<noteq> None"
proof -
  have len: "length (rn_chain (down_run E b) P_TcpServer) = 9" by (simp add: down_run_def interface_simps)
  with assms(2) have st: "Started P_TcpServer \<in> set (rs_log s)" by (auto simp: down.task_work_def split: if_splits)
  with assms(1) obtain k where k: "k \<le> 9" "rs_rest s P_TcpServer = drop k (rn_chain (down_run E b) P_TcpServer)"
    "down_stage E b P_TcpServer k (rs_world s)" "Finished P_TcpServer \<in> set (rs_log s) \<longrightarrow> k = 9"
    unfolding down.staged_def len [symmetric] by metis
  from assms(2) st k(1,2,4) len have "k = 6" "Finished P_TcpServer \<notin> set (rs_log s)"
    by (auto simp: down.task_work_def split: if_splits)
  note k6 = this
  from k(2) k6(1) show "rs_rest s P_TcpServer = drop 6 (pi_unload_chain (tcp_server_interface E b))" by (simp add: down_run_def)
  from k(3) k6(1) show "w_registry_empty (rs_world s)" "w_io_context (rs_world s) = Some False" by simp_all
  have "task_inv (rn_tasks (down_run E b)) (rs_log s)" using assms(1) by (simp add: down.staged_def)
  then have inv: "task_inv down_tasks (rs_log s)" by (simp add: down_run_def)
  have "Started P_NetworkEntity \<notin> set (rs_log s)"
  proof
    assume "Started P_NetworkEntity \<in> set (rs_log s)"
    then obtain xs ys where l: "rs_log s = xs @ Started P_NetworkEntity # ys" using split_list by fastforce
    from started_after [OF inv l] obtain t where t: "t \<in> set down_tasks" "tk_name t = P_NetworkEntity"
      "\<forall>d \<in> set (tk_after t). Finished d \<in> set xs" .
    with down_task_after have "tk_after t = [P_TcpServer]" by (simp add: required_simps)
    with t(3) l k6(2) show False by simp
  qed
  with assms(1) have "down_idle E b P_NetworkEntity (rs_world s)" unfolding down.staged_def by metis
  then show "w_entity_executor (rs_world s) = Some (Some (entity_period E))" "w_updater (rs_world s) \<noteq> None" by simp_all
qed

text \<open>
  C8: the update that outlives its updater. From every state in which all plugins are loaded and no update is
  posted there is a run in which the registry is found empty with no update posted, the timer then posts one more before the
  \<open>io_context\<close> is stopped, all plugins are unloaded while the registry thread is late, and the posted task, which has an unowned
  pointer to the updater, runs when the updater is gone.
\<close>

theorem update_outlives_updater:
  assumes "down_start E b w" and "w_updates w = 0"
  shows "\<exists>s1 w1 s2. (run_step (down_run E b))\<^sup>*\<^sup>* (Inr (run_start w)) (Inr s1) \<and>
    rs_rest s1 P_TcpServer = drop 6 (pi_unload_chain (tcp_server_interface E b)) \<and>
    w_registry_empty (rs_world s1) \<and> w_updates (rs_world s1) = 0 \<and>
    server_moves b (rs_world s1) (Inr w1) \<and> w_updates w1 = 1 \<and>
    (run_step (down_run E b))\<^sup>*\<^sup>* (Inr (s1\<lparr>rs_world := w1\<rparr>)) (Inr s2) \<and> stopped_server (rs_world s2) \<and>
    run_step (down_run E b) (Inr s2) (Inl late_update)"
proof -
  have staged: "down.staged E b (run_start w)" using assms(1) by (blast intro: down.run_staged reach_init)
  have "length (rn_chain (down_run E b) P_TcpServer) = 9" by (simp add: down_run_def interface_simps)
  then have "down.task_work E b (run_start w) P_TcpServer = 11" by (simp add: down.task_work_def run_start_def)
  then have less: "4 \<le> down.task_work E b (run_start w) P_TcpServer" by simp
  have names: "P_TcpServer \<in> names (rn_tasks (down_run E b))"
    using all_down_tasks [of P_TcpServer] by (force simp: names_def down_run_def)
  have tasks: "orderly (rn_tasks (down_run E b))" using down_orderly by (simp add: down_run_def)
  have zero: "w_updates (rs_world (run_start w)) = 0" using assms(2) by (simp add: run_start_def)
  from down.run_can_reach [where Q = "\<lambda>w. w_updates w = 0", OF tasks down_kept down_waits_end staged zero names less]
  obtain s1 where s1: "(run_step (down_run E b))\<^sup>*\<^sup>* (Inr (run_start w)) (Inr s1)" "down.staged E b s1"
    "w_updates (rs_world s1) = 0" "down.task_work E b s1 P_TcpServer = 4" by blast
  note at = before_stop [OF s1(2,4)]
  from at(5) obtain u where u: "w_updater (rs_world s1) = Some u" by blast
  let ?w = "(rs_world s1)\<lparr>w_updater := Some (u\<lparr>numQueuedUpdateTasks := numQueuedUpdateTasks u + 1\<rparr>),
    w_updates := w_updates (rs_world s1) + 1\<rparr>"
  have move: "server_moves b (rs_world s1) (Inr ?w)" using moves_timer [OF at(4), of b] timer_posts [OF at(3) u, of b] by simp
  then have env: "rn_env (down_run E b) (rs_world s1) (Inr ?w)" by (simp add: down_run_def)
  have "down.staged E b (s1\<lparr>rs_world := ?w\<rparr>)" using down.env_step_staged [OF s1(2) env] by simp
  from down_completes [where Q = "\<lambda>n. n = 1", OF this] s1(3) obtain s2 where
    s2: "(run_step (down_run E b))\<^sup>*\<^sup>* (Inr (s1\<lparr>rs_world := ?w\<rparr>)) (Inr s2)" "stopped_server (rs_world s2)"
    "w_updates (rs_world s2) = 1" by auto
  from s2(2,3) have "run_step (down_run E b) (Inr s2) (Inl late_update)"
    by (intro late_update_step) (simp_all add: stopped_server_def)
  with s1(1,3) at(1,2) move s2(1,2) show ?thesis by (intro exI [of _ s1] exI [of _ ?w] exI [of _ s2]) simp
qed



text \<open>A server on which both apply: four threads, both timers started.\<close>

definition demo_loaded :: "(nat, callback list, nat \<Rightarrow> int) server_world" where
  "demo_loaded = demo_unstarted\<lparr>w_alive := (\<lambda>_. True), w_SafeRegistry := True, w_io_context := Some False, w_dispatcher := Some True,
     w_asio := Some (case asio_logic_new Debug 4 of Inr m \<Rightarrow> m | Inl _ \<Rightarrow> AsioThreadsManager_new), w_signal := Some SignalHandler_new,
     w_signal_wait := True, w_updater := Some demo_updater, w_entity_executor := Some (Some 1000),
     w_console_executor := Some (Some 100), w_endpoint := Some (0, 8085), w_accepting := True, w_registry_empty := False,
     w_recorder := \<lparr>metrics = [0], next_bind = 1, rec_logic = Some True\<rparr>\<rparr>"

lemma demo_down_start: "down_start demo_server_env Debug demo_loaded" "w_updates demo_loaded = 0"
proof -
  obtain m where m: "asio_logic_new Debug 4 = Inr m" using asio_logic_new_returns [of 4 Debug] by auto
  have "teardown_ok demo_server_env Debug demo_loaded"
    by (simp add: teardown_ok_def demo_server_env_def demo_loaded_def demo_unstarted_def ScopedStatsTableUpdater_delete_def demo_table_def demo_time_def
        update_last_launch_def update_launch_counter_def with_counter_def counter_loc_def Let_def kMinutesToResetLaunchCounter_def)
  then show "down_start demo_server_env Debug demo_loaded"
    by (simp add: down_start_def demo_fresh(1) loaded_def demo_loaded_def demo_unstarted_def m) (simp add: demo_server_env_def m asioThreads_def
        configured_int_def kDefaultAsioThreads_def entityUpdateFreqMillisec_def kDefaultEntityUpdateFreqMillisec_def
        consoleInputFreqMillisec_def kDefaultConsoleInputFreqMillisec_def)
qed (simp add: demo_loaded_def demo_unstarted_def)


theorem update_outlives_updater_witness:
  "\<exists>s. stopped_server (rs_world s) \<and> run_step (down_run demo_server_env Debug) (Inr s) (Inl late_update)"
  using update_outlives_updater [OF demo_down_start] by blast

end
