(* ===== verification/Connection_Run.thy ===== *)
theory Connection_Run
  imports Tcp_Server_Properties Http_Machine
begin

text \<open>
  All connections of the server together. The allocator and the listener's callbacks
  (\<open>Tcp_Server\<close>, \<open>Listener\<close>), the detector (\<open>Detect_Channel\<close>), the HTTP channel (\<open>Http_Channel\<close>) and
  the network systems (\<open>Network_Systems\<close>) run on one registry; a connection is an entity of it, and
  what it has outstanding (posted tasks, operations of Asio) is a list of \<open>conn_op\<close>s. A completed operation finds its channel in
  the registry: without it the step is an \<open>UNDEFINED\<close> abort, so that "no step ends the process" says that no channel is destroyed
  under an operation. Operations of different connections complete in any order, allocations
  and updates happen at any moment.

  A connection leaves this machine when its \<open>WsChannel\<close> has been built; \<open>Ws_Machine\<close> goes on from
  there. The io context keeps running. \<open>net_env\<close> collects the parameters: library code, the
  environment of the process, the features as shipped.
\<close>

subsection \<open>Outstanding operations\<close>

datatype 's conn_op =
    ConnAsyncAccept                       \<comment> \<open>\<open>asyncAccept\<close>, posted to the acceptor's strand\<close>
  | ConnAccept                            \<comment> \<open>\<open>acceptor_.async_accept\<close>\<close>
  | ConnSetAccept error_code 's           \<comment> \<open>\<open>setAcceptConnectionResult\<close>, posted to the registry\<close>
  | ConnRunDetector nat                   \<comment> \<open>\<open>runDetector\<close>, posted to the connection's strand\<close>
  | ConnDetect                            \<comment> \<open>\<open>beast::async_detect_ssl\<close>\<close>
  | ConnSetDetect error_code bool "'s tcp_stream" string bool  \<comment> \<open>\<open>setSSLDetectResult\<close>\<close>
  | ConnHttp http_op
  | ConnMarkUnused                        \<comment> \<open>\<open>HttpChannel::markUnused\<close>, posted to the registry\<close>
  | ConnUpgrade "'s tcp_stream" http_request  \<comment> \<open>\<open>handleWebsocketUpgrade\<close>, posted to the registry\<close>
  | ConnWsAccept http_request             \<comment> \<open>\<open>startAccept\<close> of the \<open>WsChannel\<close>: see \<open>Ws_Machine\<close>\<close>

type_synonym 's conn_ops = "(entity \<times> 's conn_op) list"

text \<open>The operations that the effects of each part leave outstanding.\<close>

fun accept_conn_ops :: "'s listener_effect list \<Rightarrow> 's conn_ops" where
  "accept_conn_ops [] = []"
| "accept_conn_ops (PostAsyncAccept e # es) = (e, ConnAsyncAccept) # accept_conn_ops es"
| "accept_conn_ops (AsyncAccept e # es) = (e, ConnAccept) # accept_conn_ops es"
| "accept_conn_ops (PostSetResult e ec s # es) = (e, ConnSetAccept ec s) # accept_conn_ops es"
| "accept_conn_ops (_ # es) = accept_conn_ops es"

fun detect_conn_ops :: "entity \<Rightarrow> 's detect_effect list \<Rightarrow> 's conn_ops" where
  "detect_conn_ops e [] = []"
| "detect_conn_ops e (DetectAsync # es) = (e, ConnDetect) # detect_conn_ops e es"
| "detect_conn_ops e (DetectPostResult ec hs st buf close # es) =
     (e, ConnSetDetect ec hs st buf close) # detect_conn_ops e es"
| "detect_conn_ops e (_ # es) = detect_conn_ops e es"

fun http_conn_ops :: "entity \<Rightarrow> 's http_effect list \<Rightarrow> 's conn_ops" where
  "http_conn_ops e [] = []"
| "http_conn_ops e (HttpPostRead # es) = (e, ConnHttp OpPostedRead) # http_conn_ops e es"
| "http_conn_ops e (HttpAsyncRead _ # es) = (e, ConnHttp OpRead) # http_conn_ops e es"
| "http_conn_ops e (HttpAsyncWrite r # es) = (e, ConnHttp (OpWrite r)) # http_conn_ops e es"
| "http_conn_ops e (HttpPostMarkUnused x # es) = (x, ConnMarkUnused) # http_conn_ops e es"
| "http_conn_ops e (HttpPostUpgrade ec st req # es) = (e, ConnUpgrade st req) # http_conn_ops e es"
| "http_conn_ops e (_ # es) = http_conn_ops e es"

fun ws_conn_ops :: "entity \<Rightarrow> ws_effect list \<Rightarrow> 's conn_ops" where
  "ws_conn_ops e [] = []"
| "ws_conn_ops e (WsPostStartAccept req # es) = (e, ConnWsAccept req) # ws_conn_ops e es"
| "ws_conn_ops e (_ # es) = ws_conn_ops e es"

fun net_conn_ops :: "'s net_effect list \<Rightarrow> 's conn_ops" where
  "net_conn_ops [] = []"
| "net_conn_ops (NetPostRunDetector e n # es) = (e, ConnRunDetector n) # net_conn_ops es"
| "net_conn_ops (NetHttp e x # es) = http_conn_ops e [x] @ net_conn_ops es"
| "net_conn_ops (_ # es) = net_conn_ops es"

definition ops_for :: "entity \<Rightarrow> 's conn_ops \<Rightarrow> 's conn_op list" where
  "ops_for e ops = map snd (filter (\<lambda>(x, op). x = e) ops)"

lemma ops_for_simps [simp]:
  "ops_for e [] = []"
  "ops_for e ((x, op) # ops) = (if x = e then op # ops_for e ops else ops_for e ops)"
  "ops_for e (ops @ ops') = ops_for e ops @ ops_for e ops'"
  by (simp_all add: ops_for_def)

lemma ops_for_one: "fst ` set ops \<subseteq> {e} \<Longrightarrow> ops_for x ops = (if x = e then map snd ops else [])"
  by (induction ops) auto

lemma net_conn_ops_append [simp]: "net_conn_ops (es @ es') = net_conn_ops es @ net_conn_ops es'"
  by (induction es rule: net_conn_ops.induct) auto

lemma net_conn_ops_close [simp]: "net_conn_ops (map (NetCloseLog e) logs) = []"
  by (induction logs) auto

subsection \<open>The machine\<close>

record ('r, 's, 'q, 'a) net_env =
  ne_build :: build
  ne_sockets :: "'s socket_api"
  ne_peer :: "'s \<Rightarrow> bool"                         \<comment> \<open>\<open>remote_endpoint()\<close> finds a peer\<close>
  ne_acceptor :: "'a acceptor_api"
  ne_registry :: "('r, 's, 'q) registry_api"
  ne_helpers :: "'r ecs_helpers"
  ne_excluded :: "kind list"                     \<comment> \<open>\<open>exclude_not_constructed\<close>\<close>
  ne_relations :: "'r relations"
  ne_host :: http_host
  ne_need_eof :: "response \<Rightarrow> bool"
  ne_ring :: "'q circular_api"
  ne_beast_version :: string
  ne_ws_is_open :: "('s, 'q) WsChannel \<Rightarrow> bool"


record ('r, 's) net_world =
  nw_registry :: 'r
  nw_ops :: "'s conn_ops"

text \<open>What the completion of an operation brings along; each kind of operation uses a part of it.\<close>

record ('s, 'a) completion =
  cp_ec :: error_code
  cp_fail_point :: bool
  cp_socket :: 's
  cp_listener :: "'a listener"     \<comment> \<open>the listener at that moment\<close>
  cp_handshake :: bool
  cp_received :: string
  cp_request :: http_request

text \<open>
  An accepted socket has a peer, and an open acceptor belongs to a listener that was started
  (the invariant of \<open>Listener_Machine\<close>).
\<close>

definition completion_ok :: "('r, 's, 'q, 'a) net_env \<Rightarrow> ('s, 'a) completion \<Rightarrow> bool" where
  "completion_ok N c =
     ((is_open (ne_sockets N) (cp_socket c) \<longrightarrow> ne_peer N (cp_socket c)) \<and>
      (acc_is_open (ne_acceptor N) (ls_acceptor (cp_listener c)) \<longrightarrow> ls_state (cp_listener c) = Listener_STARTED))"

definition with_detector ::
  "('s, 'q) TcpConnection \<Rightarrow> ('s DetectChannel \<Rightarrow> 'x result) \<Rightarrow> 'x result" where
  "with_detector tcp k = (case ctx_detect_channel tcp of
     None \<Rightarrow> Inl (UNDEFINED ''DetectChannel'') | Some d \<Rightarrow> k d)"

definition with_http ::
  "('s, 'q) TcpConnection \<Rightarrow> ('s HttpChannel \<Rightarrow> 'x result) \<Rightarrow> 'x result" where
  "with_http tcp k = (case ctx_http_channel tcp of
     None \<Rightarrow> Inl (UNDEFINED ''HttpChannel'') | Some h \<Rightarrow> k h)"

text \<open>The handlers of the channels, on the channel that the registry holds.\<close>

definition detector_step ::
  "('r, 's, 'q) registry_api \<Rightarrow> entity \<Rightarrow> 'r \<Rightarrow> 's detect_handler \<Rightarrow> ('r \<times> 's conn_ops) result" where
  "detector_step R e r handler =
     with_tcp R r e (\<lambda>tcp. with_detector tcp (\<lambda>d. andThen (handler d) (\<lambda>(d, es).
       Inr (reg_set R r e (CTcp (tcp\<lparr>ctx_detect_channel := Some d\<rparr>)), detect_conn_ops e es))))"

definition http_channel_step ::
  "('r, 's, 'q) registry_api \<Rightarrow> entity \<Rightarrow> 'r \<Rightarrow> 's http_handler \<Rightarrow> ('r \<times> 's conn_ops) result" where
  "http_channel_step R e r handler =
     with_tcp R r e (\<lambda>tcp. with_http tcp (\<lambda>h. andThen (handler h) (\<lambda>(h, es).
       Inr (reg_set R r e (CTcp (tcp\<lparr>ctx_http_channel := Some h\<rparr>)), http_conn_ops e es))))"

fun conn_complete ::
  "('r, 's, 'q, 'a) net_env \<Rightarrow> ('s, 'a) completion \<Rightarrow> entity \<Rightarrow> 's conn_op \<Rightarrow> 'r \<Rightarrow> ('r \<times> 's conn_ops) result" where
  "conn_complete N c e ConnAsyncAccept r =
     andThen (asyncAccept (ne_acceptor N) (at (ne_build N) AcceptorStrand) e (cp_listener c)) (\<lambda>(l, es).
       Inr (r, accept_conn_ops es))"
| "conn_complete N c e ConnAccept r =
     andThen (Listener_onAccept (ne_sockets N) (ne_peer N) (at (ne_build N) ConnectionStrand)
       (cp_fail_point c) False e (cp_ec c) (cp_socket c) (cp_listener c)) (\<lambda>(l, es). Inr (r, accept_conn_ops es))"
| "conn_complete N c e (ConnSetAccept ec s) r =
     andThen (setAcceptConnectionResult (ne_sockets N) (ne_registry N) (at (ne_build N) RegistrySequence) e ec s r)
       (\<lambda>r. Inr (r, []))"
| "conn_complete N c e (ConnRunDetector n) r =
     detector_step (ne_registry N) e r (runDetector (at (ne_build N) ConnectionStrand) n)"
| "conn_complete N c e ConnDetect r =
     detector_step (ne_registry N) e r
       (onDetected (ne_sockets N) (cp_fail_point c) (at (ne_build N) ConnectionStrand) (cp_ec c)
         (cp_handshake c) (cp_received c))"
| "conn_complete N c e (ConnSetDetect ec hs st buf close) r =
     andThen (setSSLDetectResult (ne_registry N) (at (ne_build N) RegistrySequence) e ec hs st buf close r)
       (\<lambda>r. Inr (r, []))"
| "conn_complete N c e (ConnHttp op) r =
     http_channel_step (ne_registry N) e r
       (http_complete (ne_sockets N) (ne_host N) (ne_need_eof N) (at (ne_build N) ConnectionStrand) (cp_ec c)
         (cp_request c) op)"
| "conn_complete N c e ConnMarkUnused r =
     andThen (HttpChannel_markUnused (ne_registry N) (at (ne_build N) RegistrySequence) e r) (\<lambda>r. Inr (r, []))"
| "conn_complete N c e (ConnUpgrade st req) r =
     andThen (handleWebsocketUpgrade (ne_registry N) (ne_ring N) (ne_beast_version N)
       (at (ne_build N) RegistrySequence) e st req r) (\<lambda>(r, es). Inr (r, ws_conn_ops e es))"
| "conn_complete N c e (ConnWsAccept req) r = Inr (r, [(e, ConnWsAccept req)])"

definition net_allocate :: "('r, 's, 'q, 'a) net_env \<Rightarrow> ('r, 's) net_world \<Rightarrow> ('r, 's) net_world result" where
  "net_allocate N w =
     andThen (allocateTcpResourceAndAccept (ne_registry N)
         (allocateTcpEntity (ne_registry N) (ne_helpers N) (at (ne_build N) RegistrySequence))
         (at (ne_build N) RegistrySequence) False (nw_registry w)) (\<lambda>(r, es).
       Inr \<lparr>nw_registry = r, nw_ops = nw_ops w @ accept_conn_ops es\<rparr>)"

definition net_update ::
  "('r, 's, 'q, 'a) net_env \<Rightarrow> updater \<Rightarrow> ('r, 's) net_world \<Rightarrow> ('r, 's) net_world result" where
  "net_update N u w =
     andThen (updateOnRegistryThread (ne_sockets N) (ne_ws_is_open N) (ne_registry N) (ne_excluded N)
         (ne_relations N) \<lparr>disable_unused_system = False, disable_cleanup_system = False\<rparr>
         (on_registry (ne_build N)) u (nw_registry w)) (\<lambda>(u, r, es).
       Inr \<lparr>nw_registry = r, nw_ops = nw_ops w @ net_conn_ops es\<rparr>)"

inductive net_step ::
  "('r, 's, 'q, 'a) net_env \<Rightarrow> ('r, 's) net_world result \<Rightarrow> ('r, 's) net_world result \<Rightarrow> bool"
  for N :: "('r, 's, 'q, 'a) net_env" where
  step_allocate: "net_step N (Inr w) (net_allocate N w)"
| step_operation: "nw_ops w = ops1 @ (e, op) # ops2 \<Longrightarrow> completion_ok N c \<Longrightarrow>
    net_step N (Inr w) (andThen (conn_complete N c e op (nw_registry w)) (\<lambda>(r, new).
      Inr \<lparr>nw_registry = r, nw_ops = ops1 @ ops2 @ new\<rparr>))"
| step_update: "net_step N (Inr w) (net_update N u w)"

inductive_cases net_stepE: "net_step N s t"

definition net_start :: "('r, 's, 'q, 'a) net_env \<Rightarrow> ('r, 's) net_world result \<Rightarrow> bool" where
  "net_start N s = (\<exists>r. (\<forall>x. \<not> reg_valid (ne_registry N) r x) \<and> s = Inr \<lparr>nw_registry = r, nw_ops = []\<rparr>)"

abbreviation net_reach :: "('r, 's, 'q, 'a) net_env \<Rightarrow> ('r, 's) net_world result \<Rightarrow> bool" where
  "net_reach N \<equiv> reach (net_start N) (net_step N)"

text \<open>
  What the library code promises. An entity that is handed out again is under construction and no
  longer marked as unused (\<open>populateDelayedConstructionComponents\<close>), and the two white lists name
  every component and variable that a connection without received data has.
\<close>

definition helpers_reset :: "('r, 's, 'q) registry_api \<Rightarrow> 'r ecs_helpers \<Rightarrow> bool" where
  "helpers_reset R H =
     ((\<forall>r e t. reg_valid R r e \<and> t \<in> {UnusedTag, DelayedConstructionJustDone} \<longrightarrow>
         \<not> reg_has R (populateDelayed H e r) e (KTag t)) \<and>
      (\<forall>r e. whitelisted_vars H r e) \<and>
      (\<forall>r e. \<not> reg_has R r e KRecieved \<longrightarrow> whitelisted_components H r e))"

definition net_env_ok :: "('r, 's, 'q, 'a) net_env \<Rightarrow> bool" where
  "net_env_ok N =
     (registry (ne_registry N) \<and> socket_laws (ne_sockets N) \<and> set (ne_excluded N) \<subseteq> construction_tags \<and>
      helpers_ok (ne_registry N) (ne_helpers N) \<and> helpers_reset (ne_registry N) (ne_helpers N) \<and>
      (\<forall>r e. \<not> has_first_child (ne_relations N) r e) \<and>
      (\<forall>r x. reg_valid (ne_registry N) (removeTopLevelChildrenFromView (ne_relations N) r) x = reg_valid (ne_registry N) r x) \<and>
      (\<forall>r x k. reg_find (ne_registry N) (removeTopLevelChildrenFromView (ne_relations N) r) x k =
         reg_find (ne_registry N) r x k))"

subsection \<open>The phases of a connection\<close>

datatype conn_phase =
    Gone             \<comment> \<open>no such entity\<close>
  | Allocated
  | Accepting
  | Dropped          \<comment> \<open>allocated when the listener was stopped: nothing will ever happen to it\<close>
  | Accepted
  | AcceptWaiting    \<comment> \<open>for \<open>updateNewConnections\<close>\<close>
  | Detecting
  | Detected
  | DetectWaiting    \<comment> \<open>for \<open>updateSSLDetection\<close>\<close>
  | InHttp
  | HttpEnded
  | Upgrading
  | InWebsocket
  | NoLongerUsed     \<comment> \<open>for the next update, or to be handed out again\<close>

fun phase_edge :: "conn_phase \<Rightarrow> conn_phase \<Rightarrow> bool" where
  "phase_edge Gone q = (q = Allocated)"
| "phase_edge Allocated q = (q \<in> {Accepting, Dropped})"
| "phase_edge Accepting q = (q = Accepted)"
| "phase_edge Dropped q = False"
| "phase_edge Accepted q = (q = AcceptWaiting)"
| "phase_edge AcceptWaiting q = (q \<in> {Detecting, Gone})"
| "phase_edge Detecting q = (q = Detected)"
| "phase_edge Detected q = (q = DetectWaiting)"
| "phase_edge DetectWaiting q = (q \<in> {InHttp, Gone})"
| "phase_edge InHttp q = (q \<in> {HttpEnded, Upgrading})"
| "phase_edge HttpEnded q = (q = NoLongerUsed)"
| "phase_edge Upgrading q = (q = InWebsocket)"
| "phase_edge InWebsocket q = False"
| "phase_edge NoLongerUsed q = (q \<in> {Gone, Allocated})"

text \<open>The abstract server: every connection is in a phase, and a step takes some of them along an edge.\<close>

definition phases_start :: "(entity \<Rightarrow> conn_phase) \<Rightarrow> bool" where
  "phases_start ph = (\<forall>e. ph e = Gone)"

definition phases_step :: "(entity \<Rightarrow> conn_phase) \<Rightarrow> (entity \<Rightarrow> conn_phase) \<Rightarrow> bool" where
  "phases_step ph ph' = (\<forall>e. ph' e = ph e \<or> phase_edge (ph e) (ph' e))"

text \<open>The components of one entity, as the registry answers for it.\<close>

type_synonym ('s, 'q) view = "kind \<Rightarrow> ('s, 'q) component option"

definition accept_used :: "('s, 'q) view \<Rightarrow> bool" where
  "accept_used f = (f KAccept \<noteq> None \<longrightarrow> f (KTag UnusedAcceptResultTag) \<noteq> None)"

definition detect_used :: "('s, 'q) view \<Rightarrow> bool" where
  "detect_used f = (f KSSL \<noteq> None \<longrightarrow> f (KTag UnusedSSLDetectResultTag) \<noteq> None)"

text \<open>No channel of the connection would fail the checks of its destructor.\<close>

definition channels_done :: "'s socket_api \<Rightarrow> ('s, 'q) TcpConnection \<Rightarrow> bool" where
  "channels_done A tcp = (ctx_ws_channel tcp = None \<and>
     (\<forall>h. ctx_http_channel tcp = Some h \<longrightarrow> \<not> hc_is_stream_valid h \<or>
       (\<exists>st. hc_stream h = Here st \<and> \<not> is_open A (socket st))))"

text \<open>
  What a phase has outstanding, and where the stream of the connection is: in the posted task, in
  the component that waits for its system, or in the one channel that runs.
\<close>

fun in_phase :: "entity \<Rightarrow> ('s, 'q) view \<Rightarrow> ('s, 'q) TcpConnection \<Rightarrow> 's conn_op list \<Rightarrow> conn_phase \<Rightarrow> bool" where
  "in_phase e f tcp ops Gone = False"
| "in_phase e f tcp ops Allocated = (ops = [ConnAsyncAccept])"
| "in_phase e f tcp ops Accepting = (ops = [ConnAccept])"
| "in_phase e f tcp ops Dropped = (ops = [])"
| "in_phase e f tcp ops Accepted = (\<exists>ec s. ops = [ConnSetAccept ec s])"
| "in_phase e f tcp ops AcceptWaiting = (ops = [] \<and> f (KTag UnusedAcceptResultTag) = None \<and>
     (\<exists>ar s. f KAccept = Some (CAccept ar) \<and> ar_socket ar = Here s))"
| "in_phase e f tcp ops Detecting =
     (((\<exists>n. ops = [ConnRunDetector n]) \<or> ops = [ConnDetect]) \<and>
      (\<exists>d st buf. ctx_detect_channel tcp = Some d \<and> fresh_detector d st buf))"
| "in_phase e f tcp ops Detected = (\<exists>ec hs st buf close. ops = [ConnSetDetect ec hs st buf close])"
| "in_phase e f tcp ops DetectWaiting = (ops = [] \<and> f (KTag UnusedSSLDetectResultTag) = None \<and>
     (\<exists>dr st buf. f KSSL = Some (CSSL dr) \<and> dr_stream dr = Here st \<and> dr_buffer dr = Here buf))"
| "in_phase e f tcp ops InHttp = (ctx_ws_channel tcp = None \<and>
     (\<exists>op h. ops = [ConnHttp op] \<and> ctx_http_channel tcp = Some h \<and>
       http_live e \<lparr>hm_channel = h, hm_ops = [op], hm_log = []\<rparr>))"
| "in_phase e f tcp ops HttpEnded = (ops = [ConnMarkUnused])"
| "in_phase e f tcp ops Upgrading = (\<exists>st req. ops = [ConnUpgrade st req])"
| "in_phase e f tcp ops InWebsocket =
     (\<exists>req ws. ops = [ConnWsAccept req] \<and> ctx_ws_channel tcp = Some ws \<and> wc_entity_id ws = e)"
| "in_phase e f tcp ops NoLongerUsed = (ops = [])"

definition conn_ok ::
  "'s socket_api \<Rightarrow> entity \<Rightarrow> ('s, 'q) view \<Rightarrow> 's conn_op list \<Rightarrow> conn_phase \<Rightarrow> bool" where
  "conn_ok A e f ops p =
     (f (KTag NeedToDestroyTag) = None \<and> f (KTag ChildrenToDestroy) = None \<and> f KRecieved = None \<and>
      (f (KTag DelayedConstruction) = None \<or> f (KTag DelayedConstructionJustDone) = None) \<and>
      (f (KTag UnusedTag) \<noteq> None \<longleftrightarrow> p = NoLongerUsed) \<and>
      (p \<noteq> AcceptWaiting \<longrightarrow> accept_used f) \<and> (p \<noteq> DetectWaiting \<longrightarrow> detect_used f) \<and>
      (\<exists>tcp. f KTcp = Some (CTcp tcp) \<and> ctx_strand tcp \<and>
        (p \<noteq> InHttp \<and> p \<noteq> InWebsocket \<longrightarrow> channels_done A tcp) \<and> in_phase e f tcp ops p))"

definition conn_at :: "('r, 's, 'q, 'a) net_env \<Rightarrow> ('r, 's) net_world \<Rightarrow> entity \<Rightarrow> conn_phase \<Rightarrow> bool" where
  "conn_at N w e p =
     (if p = Gone then \<not> reg_valid (ne_registry N) (nw_registry w) e \<and> ops_for e (nw_ops w) = []
      else reg_valid (ne_registry N) (nw_registry w) e \<and>
        conn_ok (ne_sockets N) e (reg_find (ne_registry N) (nw_registry w) e) (ops_for e (nw_ops w)) p)"

text \<open>The phase can be read off the registry and the operations.\<close>

fun op_phase :: "'s conn_op \<Rightarrow> conn_phase" where
  "op_phase ConnAsyncAccept = Allocated"
| "op_phase ConnAccept = Accepting"
| "op_phase (ConnSetAccept _ _) = Accepted"
| "op_phase (ConnRunDetector _) = Detecting"
| "op_phase ConnDetect = Detecting"
| "op_phase (ConnSetDetect _ _ _ _ _) = Detected"
| "op_phase (ConnHttp _) = InHttp"
| "op_phase ConnMarkUnused = HttpEnded"
| "op_phase (ConnUpgrade _ _) = Upgrading"
| "op_phase (ConnWsAccept _) = InWebsocket"

definition conn_phase_of :: "('s, 'q) view \<Rightarrow> 's conn_op list \<Rightarrow> conn_phase" where
  "conn_phase_of f ops = (case ops of
     op # _ \<Rightarrow> op_phase op
   | [] \<Rightarrow> (if f (KTag UnusedTag) \<noteq> None then NoLongerUsed else if \<not> accept_used f then AcceptWaiting
       else if \<not> detect_used f then DetectWaiting else Dropped))"

lemma conn_ok_phase: "conn_ok A e f ops p \<Longrightarrow> p = conn_phase_of f ops"
proof -
  assume ok: "conn_ok A e f ops p"
  then obtain tcp where i: "in_phase e f tcp ops p" by (auto simp: conn_ok_def)
  show ?thesis
  proof (cases ops)
    case Nil
    with i ok show ?thesis
      by (cases p) (auto simp: conn_phase_of_def conn_ok_def accept_used_def detect_used_def)
  next
    case (Cons op ops')
    with i show ?thesis by (cases p) (auto simp: conn_phase_of_def)
  qed
qed

lemma conn_at_unique: "conn_at N w e p \<Longrightarrow> conn_at N w e q \<Longrightarrow> p = q"
  by (auto simp: conn_at_def dest: conn_ok_phase split: if_splits)

lemma conn_ok_not_gone [simp]: "conn_ok A e f ops p \<Longrightarrow> p \<noteq> Gone"
  by (auto simp: conn_ok_def)

lemma conn_atI: "reg_valid (ne_registry N) (nw_registry w) e \<Longrightarrow>
    conn_ok (ne_sockets N) e (reg_find (ne_registry N) (nw_registry w) e) (ops_for e (nw_ops w)) p \<Longrightarrow> conn_at N w e p"
  by (auto simp: conn_at_def)

lemma conn_at_frame:
  assumes "conn_at N w e p" and "reg_valid (ne_registry N) (nw_registry w') e = reg_valid (ne_registry N) (nw_registry w) e"
    and "reg_find (ne_registry N) (nw_registry w') e = reg_find (ne_registry N) (nw_registry w) e"
    and "ops_for e (nw_ops w') = ops_for e (nw_ops w)"
  shows "conn_at N w' e p"
  using assms by (simp add: conn_at_def)

text \<open>A change of the construction tags alone does not matter to a phase.\<close>

lemma conn_ok_tags:
  assumes "conn_ok A e f ops p" and "\<And>k. k \<notin> delayed_tags \<Longrightarrow> f' k = f k"
    and "f' (KTag DelayedConstruction) = None \<or> f' (KTag DelayedConstructionJustDone) = None"
  shows "conn_ok A e f' ops p"
proof -
  have eq: "f' k = f k" if "k \<noteq> KTag DelayedConstruction" "k \<noteq> KTag DelayedConstructionJustDone" for k
    using assms(2) that by (simp add: delayed_tags_def)
  have "in_phase e f' tcp ops p = in_phase e f tcp ops p" for tcp
    by (cases p) (simp_all add: eq)
  with assms(1,3) show ?thesis
    by (simp add: conn_ok_def accept_used_def detect_used_def eq)
qed

end
