(* ===== verification/Connection_Steps.thy ===== *)
theory Connection_Steps
  imports Connection_Run
begin

text \<open>
  Every operation of a connection, completed in any way, returns, touches its own entity only, and takes it along an edge of
  \<open>phase_edge\<close> (\<open>complete_advances\<close>).
\<close>

subsection \<open>Completed operations\<close>

text \<open>Two phases take two operations; what is left of the phase after the operation that is outstanding.\<close>

definition op_rest :: "'s conn_op list \<Rightarrow> nat" where
  "op_rest ops = (case ops of
     op # _ \<Rightarrow> (case op of ConnRunDetector _ \<Rightarrow> 1 | ConnHttp OpPostedRead \<Rightarrow> 1 | _ \<Rightarrow> 0) | [] \<Rightarrow> 0)"

text \<open>The completions after which a connection may go on in its phase as before: a request or a response without an error.\<close>

definition goes_on :: "('s, 'a) completion \<Rightarrow> 's conn_op \<Rightarrow> bool" where
  "goes_on c op = (case op of ConnHttp op' \<Rightarrow> op' \<noteq> OpPostedRead \<and> \<not> failed (cp_ec c) | ConnWsAccept _ \<Rightarrow> True | _ \<Rightarrow> False)"

text \<open>What an operation of a connection does: it touches its own entity and takes it along an edge, or on in its phase.\<close>

definition advances ::
  "('r, 's, 'q, 'a) net_env \<Rightarrow> ('s, 'a) completion \<Rightarrow> entity \<Rightarrow> 's conn_op \<Rightarrow> conn_phase \<Rightarrow> 'r \<Rightarrow> bool" where
  "advances N c e op p r = (\<exists>r' new q. conn_complete N c e op r = Inr (r', new) \<and>
     same_elsewhere (ne_registry N) r r' {e} \<and> fst ` set new \<subseteq> {e} \<and>
     (phase_edge p q \<or> q = p \<and> (goes_on c op \<or> op_rest (map snd new) < op_rest [op])) \<and>
     (q = Upgrading \<longrightarrow> \<not> failed (cp_ec c)) \<and>
     conn_ok (ne_sockets N) e (reg_find (ne_registry N) r' e) (map snd new) q)"

lemma advancesI:
  "conn_complete N c e op r = Inr (r', new) \<Longrightarrow> same_elsewhere (ne_registry N) r r' {e} \<Longrightarrow> fst ` set new \<subseteq> {e} \<Longrightarrow>
   phase_edge p q \<or> q = p \<and> (goes_on c op \<or> op_rest (map snd new) < op_rest [op]) \<Longrightarrow>
   q = Upgrading \<longrightarrow> \<not> failed (cp_ec c) \<Longrightarrow>
   conn_ok (ne_sockets N) e (reg_find (ne_registry N) r' e) (map snd new) q \<Longrightarrow> advances N c e op p r"
  unfolding advances_def by blast

lemma same_elsewhere_set: "registry R \<Longrightarrow> reg_valid R r e \<Longrightarrow> same_elsewhere R r (reg_set R r e c) {e}"
  by (simp add: same_elsewhere_def registry.valid_set registry.find_set)

lemma same_elsewhere_find: "same_elsewhere R r r' es \<Longrightarrow> x \<notin> es \<Longrightarrow> reg_find R r' x = reg_find R r x"
  by (auto simp: same_elsewhere_def)

text \<open>The operations of the accept.\<close>

lemma async_accept_advances:
  assumes "completion_ok N c" and "conn_ok (ne_sockets N) e (reg_find (ne_registry N) r e) [ConnAsyncAccept] p"
  shows "advances N c e ConnAsyncAccept p r"
proof -
  have p: "p = Allocated" using assms(2) by (cases p) (auto simp: conn_ok_def)
  show ?thesis
  proof (cases "acc_is_open (ne_acceptor N) (ls_acceptor (cp_listener c))")
    case True
    with assms(1) have "conn_complete N c e ConnAsyncAccept r = Inr (r, [(e, ConnAccept)])"
      by (simp add: asyncAccept_def if_open_def isAcceptorOpen_def check_state_def completion_ok_def)
    then show ?thesis
      by (rule advancesI [where q = Accepting]) (use assms(2) in \<open>simp_all add: p conn_ok_def\<close>)
  next
    case False
    then have "conn_complete N c e ConnAsyncAccept r = Inr (r, [])"
      by (simp add: asyncAccept_def if_open_def isAcceptorOpen_def)
    then show ?thesis
      by (rule advancesI [where q = Dropped]) (use assms(2) in \<open>simp_all add: p conn_ok_def\<close>)
  qed
qed

lemma accept_advances:
  assumes "completion_ok N c" and "conn_ok (ne_sockets N) e (reg_find (ne_registry N) r e) [ConnAccept] p"
  shows "advances N c e ConnAccept p r"
proof -
  have p: "p = Accepting" using assms(2) by (cases p) (auto simp: conn_ok_def)
  have log: "accept_conn_ops (logFailure ec what @ es) = accept_conn_ops es" for ec what and es :: "'b listener_effect list"
    by (simp add: logFailure_def)
  have "\<exists>ec. conn_complete N c e ConnAccept r = Inr (r, [(e, ConnSetAccept ec (cp_socket c))])"
    using assms(1)
    by (auto simp: Listener_onAccept_def ioc_guard_def completion_ok_def log Let_def throws_unless_def)
  then obtain ec where "conn_complete N c e ConnAccept r = Inr (r, [(e, ConnSetAccept ec (cp_socket c))])" ..
  then show ?thesis
    by (rule advancesI [where q = Accepted]) (use assms(2) in \<open>simp_all add: p conn_ok_def\<close>)
qed

text \<open>The tasks on the registry.\<close>

lemma net_env_registry: "net_env_ok N \<Longrightarrow> registry (ne_registry N)"
  by (simp add: net_env_ok_def)

lemma set_accept_advances:
  assumes "net_env_ok N" and "reg_valid (ne_registry N) r e"
    and "conn_ok (ne_sockets N) e (reg_find (ne_registry N) r e) [ConnSetAccept ec s] p"
  shows "advances N c e (ConnSetAccept ec s) p r"
proof -
  note R = net_env_registry [OF assms(1)]
  note [simp] = registry.valid_remove [OF R] registry.find_remove [OF R] registry.valid_set [OF R] registry.find_set [OF R]
  have p: "p = Accepted" using assms(3) by (cases p) (auto simp: conn_ok_def)
  obtain tcp where tcp: "reg_find (ne_registry N) r e KTcp = Some (CTcp tcp)" "ctx_strand tcp"
    "channels_done (ne_sockets N) tcp" using assms(3) by (auto simp: conn_ok_def p)
  let ?r = "reg_set (ne_registry N) (reg_remove (ne_registry N) r e (KTag UnusedAcceptResultTag)) e
    (CAccept \<lparr>ar_ec = ec, ar_socket = Here s, ar_need_close = \<not> is_open (ne_sockets N) s\<rparr>)"
  have "conn_complete N c e (ConnSetAccept ec s) r = Inr (?r, [])"
    by (simp add: setAcceptConnectionResult_def assms(2) with_tcp_def tcp Let_def)
  then show ?thesis
    by (rule advancesI [where q = AcceptWaiting])
       (use assms(2,3) tcp in \<open>simp_all add: same_elsewhere_def conn_ok_def p detect_used_def\<close>)
qed

lemma set_detect_advances:
  assumes "net_env_ok N" and "reg_valid (ne_registry N) r e"
    and "conn_ok (ne_sockets N) e (reg_find (ne_registry N) r e) [ConnSetDetect ec hs st buf close] p"
  shows "advances N c e (ConnSetDetect ec hs st buf close) p r"
proof -
  note R = net_env_registry [OF assms(1)]
  note [simp] = registry.valid_remove [OF R] registry.find_remove [OF R] registry.valid_set [OF R] registry.find_set [OF R]
  have p: "p = Detected" using assms(3) by (cases p) (auto simp: conn_ok_def)
  let ?r = "reg_set (ne_registry N) (reg_remove (ne_registry N) r e (KTag UnusedSSLDetectResultTag)) e
    (CSSL \<lparr>dr_ec = ec, dr_handshakeResult = hs, dr_stream = Here st, dr_buffer = Here buf, dr_need_close = close\<rparr>)"
  have "conn_complete N c e (ConnSetDetect ec hs st buf close) r = Inr (?r, [])"
    by (simp add: setSSLDetectResult_def assms(2) Let_def)
  then show ?thesis
    by (rule advancesI [where q = DetectWaiting])
       (use assms(2,3) in \<open>auto simp: same_elsewhere_def conn_ok_def p accept_used_def\<close>)
qed

lemma mark_unused_advances:
  assumes "net_env_ok N" and "reg_valid (ne_registry N) r e"
    and "conn_ok (ne_sockets N) e (reg_find (ne_registry N) r e) [ConnMarkUnused] p"
  shows "advances N c e ConnMarkUnused p r"
proof -
  note R = net_env_registry [OF assms(1)]
  note [simp] = registry.valid_set [OF R] registry.find_set [OF R]
  have p: "p = HttpEnded" using assms(3) by (cases p) (auto simp: conn_ok_def)
  let ?r = "reg_set (ne_registry N) r e (CTag UnusedTag)"
  have "conn_complete N c e ConnMarkUnused r = Inr (?r, [])"
    using assms(2,3) by (simp add: HttpChannel_markUnused_def reg_emplace_def reg_has_def conn_ok_def p)
  then show ?thesis
    by (rule advancesI [where q = NoLongerUsed])
       (use assms(2,3) in \<open>simp_all add: same_elsewhere_def conn_ok_def p accept_used_def detect_used_def\<close>)
qed

text \<open>A handler that has replaced the connection's context.\<close>

lemma conn_ok_context:
  assumes "conn_ok A e (f :: ('s, 'q) view) ops p" and "p \<notin> {AcceptWaiting, DetectWaiting, NoLongerUsed}"
    and "q \<notin> {Gone, AcceptWaiting, DetectWaiting, NoLongerUsed}"
    and "ctx_strand tcp" and "q \<noteq> InHttp \<and> q \<noteq> InWebsocket \<longrightarrow> channels_done A tcp"
    and "in_phase e (f(KTcp \<mapsto> CTcp tcp)) tcp ops' q"
  shows "conn_ok A e (f(KTcp \<mapsto> CTcp tcp)) ops' q"
  using assms by (auto simp: conn_ok_def accept_used_def detect_used_def)

lemma find_set_context:
  "registry R \<Longrightarrow> reg_valid R r e \<Longrightarrow> reg_find R (reg_set R r e (CTcp tcp)) e = (reg_find R r e)(KTcp \<mapsto> CTcp tcp)"
  by (auto simp: registry.find_set)

lemma upgrade_advances:
  assumes "net_env_ok N" and "reg_valid (ne_registry N) r e"
    and "conn_ok (ne_sockets N) e (reg_find (ne_registry N) r e) [ConnUpgrade st req] p"
  shows "advances N c e (ConnUpgrade st req) p r"
proof -
  note R = net_env_registry [OF assms(1)]
  have p: "p = Upgrading" using assms(3) by (cases p) (auto simp: conn_ok_def)
  obtain tcp where tcp: "reg_find (ne_registry N) r e KTcp = Some (CTcp tcp)" "ctx_strand tcp"
    using assms(3) by (auto simp: conn_ok_def p)
  have "\<exists>tcp' ws. conn_complete N c e (ConnUpgrade st req) r =
      Inr (reg_set (ne_registry N) r e (CTcp tcp'), [(e, ConnWsAccept req)]) \<and>
    ctx_strand tcp' \<and> ctx_ws_channel tcp' = Some ws \<and> wc_entity_id ws = e"
    by (intro exI) (auto simp: handleWebsocketUpgrade_def with_tcp_def tcp WsChannel_new_def kMaxMessageSizeByte_def
        Ws_Channel.startAcceptAsync_def Let_def)
  then obtain tcp' ws where t: "conn_complete N c e (ConnUpgrade st req) r =
      Inr (reg_set (ne_registry N) r e (CTcp tcp'), [(e, ConnWsAccept req)])"
    "ctx_strand tcp'" "ctx_ws_channel tcp' = Some ws" "wc_entity_id ws = e" by blast
  show ?thesis
  proof (rule advancesI [OF t(1), where q = InWebsocket])
    show "conn_ok (ne_sockets N) e (reg_find (ne_registry N) (reg_set (ne_registry N) r e (CTcp tcp')) e)
        (map snd [(e, ConnWsAccept req)]) InWebsocket"
      unfolding find_set_context [OF R assms(2)]
      by (rule conn_ok_context [OF assms(3)]) (simp_all add: p t)
  qed (simp_all add: p same_elsewhere_set [OF R assms(2)])
qed

text \<open>The two channels.\<close>

lemma run_detector_advances:
  assumes "net_env_ok N" and "reg_valid (ne_registry N) r e"
    and "conn_ok (ne_sockets N) e (reg_find (ne_registry N) r e) [ConnRunDetector n] p"
  shows "advances N c e (ConnRunDetector n) p r"
proof -
  note R = net_env_registry [OF assms(1)]
  have p: "p = Detecting" using assms(3) by (cases p) (auto simp: conn_ok_def)
  obtain tcp d st buf where tcp: "reg_find (ne_registry N) r e KTcp = Some (CTcp tcp)" "ctx_strand tcp"
    "channels_done (ne_sockets N) tcp" "ctx_detect_channel tcp = Some d" "fresh_detector d st buf"
    using assms(3) by (auto simp: conn_ok_def p)
  from runDetector_fresh [OF at_simps(2) tcp(5), of "ne_build N" n] obtain d' st' where
    d': "runDetector (at (ne_build N) ConnectionStrand) n d =
      Inr (d', (if ne_build N = Debug then [DetectStartTimeout 7] else []) @ [DetectAsync])"
    "fresh_detector d' st' buf" by auto
  let ?tcp = "tcp\<lparr>ctx_detect_channel := Some d'\<rparr>"
  have o: "conn_complete N c e (ConnRunDetector n) r =
      Inr (reg_set (ne_registry N) r e (CTcp ?tcp), [(e, ConnDetect)])"
    by (simp add: detector_step_def with_tcp_def tcp with_detector_def d')
  show ?thesis
  proof (rule advancesI [OF o, where q = Detecting])
    show "conn_ok (ne_sockets N) e (reg_find (ne_registry N) (reg_set (ne_registry N) r e (CTcp ?tcp)) e)
        (map snd [(e, ConnDetect)]) Detecting"
      unfolding find_set_context [OF R assms(2)]
      by (rule conn_ok_context [OF assms(3)])
         (use tcp(2,3) d'(2) in \<open>auto simp: p channels_done_def\<close>)
  qed (simp_all add: p op_rest_def same_elsewhere_set [OF R assms(2)])
qed

lemma detect_advances:
  assumes "net_env_ok N" and "reg_valid (ne_registry N) r e"
    and "conn_ok (ne_sockets N) e (reg_find (ne_registry N) r e) [ConnDetect] p"
  shows "advances N c e ConnDetect p r"
proof -
  note R = net_env_registry [OF assms(1)]
  have p: "p = Detecting" using assms(3) by (cases p) (auto simp: conn_ok_def)
  obtain tcp d st buf where tcp: "reg_find (ne_registry N) r e KTcp = Some (CTcp tcp)" "ctx_strand tcp"
    "channels_done (ne_sockets N) tcp" "ctx_detect_channel tcp = Some d" "fresh_detector d st buf"
    using assms(3) by (auto simp: conn_ok_def p)
  from onDetected_fresh [OF at_simps(2) tcp(5), of "ne_sockets N" "cp_fail_point c" "ne_build N" "cp_ec c" "cp_handshake c"
      "cp_received c"] obtain d' close where
    d': "onDetected (ne_sockets N) (cp_fail_point c) (at (ne_build N) ConnectionStrand) (cp_ec c) (cp_handshake c)
        (cp_received c) d =
      Inr (d', (if ne_build N = Debug then [DetectStopTimeout] else []) @
        [DetectPostResult (cp_ec c) (cp_handshake c) st (buf @ cp_received c) close])" by auto
  let ?tcp = "tcp\<lparr>ctx_detect_channel := Some d'\<rparr>"
  let ?op = "ConnSetDetect (cp_ec c) (cp_handshake c) st (buf @ cp_received c) close"
  have o: "conn_complete N c e ConnDetect r = Inr (reg_set (ne_registry N) r e (CTcp ?tcp), [(e, ?op)])"
    by (simp add: detector_step_def with_tcp_def tcp with_detector_def d')
  show ?thesis
  proof (rule advancesI [OF o, where q = Detected])
    show "conn_ok (ne_sockets N) e (reg_find (ne_registry N) (reg_set (ne_registry N) r e (CTcp ?tcp)) e)
        (map snd [(e, ?op)]) Detected"
      unfolding find_set_context [OF R assms(2)]
      by (rule conn_ok_context [OF assms(3)]) (use tcp(2,3) in \<open>auto simp: p channels_done_def\<close>)
  qed (simp_all add: p same_elsewhere_set [OF R assms(2)])
qed

lemma http_conn_ops_counts:
  "marks es = [] \<Longrightarrow> upgrades es = [] \<Longrightarrow> http_conn_ops e es = map (\<lambda>op. (e, ConnHttp op)) (ops_of es)"
  "ops_of es = [] \<Longrightarrow> upgrades es = [] \<Longrightarrow> http_conn_ops e es = map (\<lambda>x. (x, ConnMarkUnused)) (marks es)"
  "ops_of es = [] \<Longrightarrow> marks es = [] \<Longrightarrow> upgrades es = [st] \<Longrightarrow> \<exists>req. http_conn_ops e es = [(e, ConnUpgrade st req)]"
proof -
  have none: "ops_of es = [] \<Longrightarrow> marks es = [] \<Longrightarrow> upgrades es = [] \<Longrightarrow> http_conn_ops e es = []" for es
    by (induction es rule: ops_of.induct) (auto split: http_effect.splits)
  show "marks es = [] \<Longrightarrow> upgrades es = [] \<Longrightarrow> http_conn_ops e es = map (\<lambda>op. (e, ConnHttp op)) (ops_of es)"
    by (induction es rule: ops_of.induct) (auto split: http_effect.splits)
  show "ops_of es = [] \<Longrightarrow> upgrades es = [] \<Longrightarrow> http_conn_ops e es = map (\<lambda>x. (x, ConnMarkUnused)) (marks es)"
    by (induction es rule: ops_of.induct) (auto split: http_effect.splits)
  show "ops_of es = [] \<Longrightarrow> marks es = [] \<Longrightarrow> upgrades es = [st] \<Longrightarrow> \<exists>req. http_conn_ops e es = [(e, ConnUpgrade st req)]"
    by (induction es rule: ops_of.induct) (auto simp: none split: http_effect.splits)
qed

text \<open>A completion after which the channel is still live: the posted read has started, or there was no error.\<close>

lemma http_goes_on:
  assumes "socket_laws A" and "http_live e \<lparr>hm_channel = h, hm_ops = [op], hm_log = []\<rparr>"
    and "http_complete A H need_eof (at b ConnectionStrand) ec req op h = Inr (h', es)"
  shows "op = OpPostedRead \<and> ops_of es = [OpRead] \<or> op \<noteq> OpPostedRead \<and> (failed ec \<longrightarrow> marks es \<noteq> [])"
proof -
  have E: "on_strand (at b ConnectionStrand)" by (simp add: on_strand_def)
  have l: "live_channel e h" using assms(2) by (simp add: http_live_def)
  note g = on_strand_guards [OF E l]
  have eof: "HttpChannel_doEof A (at b ConnectionStrand) h = Inr (h', es) \<Longrightarrow> marks es \<noteq> []"
    using doEof_live [OF assms(1) E l] by auto
  have fail: "HttpChannel_onFail A (at b ConnectionStrand) ec what h = Inr (h', es) \<Longrightarrow> marks es \<noteq> []" for what
    using onFail_live [OF assms(1) E l, of ec what] by auto
  show ?thesis
  proof (cases op)
    case OpPostedRead
    then show ?thesis using doRead_live [OF E l] assms(3) by auto
  next
    case OpRead
    have "marks es \<noteq> []" if "failed ec"
      using assms(3) that eof fail by (simp add: OpRead HttpChannel_onRead_def g split: if_splits)
    with OpRead show ?thesis by blast
  next
    case (OpWrite resp)
    have "marks es \<noteq> []" if "failed ec"
      using assms(3) that fail l
      by (simp add: OpWrite processWrittenResponse_def HttpChannel_onWrite_def g live_channel_def)
    with OpWrite show ?thesis by blast
  qed
qed

lemma http_advances:
  fixes N :: "('r, 's, 'q, 'a) net_env"
  assumes "net_env_ok N" and "reg_valid (ne_registry N) r e"
    and "conn_ok (ne_sockets N) e (reg_find (ne_registry N) r e) [ConnHttp op] p"
  shows "advances N c e (ConnHttp op) p r"
proof -
  note R = net_env_registry [OF assms(1)]
  have A: "socket_laws (ne_sockets N)" using assms(1) by (simp add: net_env_ok_def)
  have p: "p = InHttp" using assms(3) by (cases p) (auto simp: conn_ok_def)
  obtain tcp h where tcp: "reg_find (ne_registry N) r e KTcp = Some (CTcp tcp)" "ctx_strand tcp"
    "ctx_ws_channel tcp = None" "ctx_http_channel tcp = Some h"
    and live: "http_live e \<lparr>hm_channel = h, hm_ops = [op], hm_log = []\<rparr>"
    using assms(3) by (auto simp: conn_ok_def p)
  let ?out = "http_complete (ne_sockets N) (ne_host N) (ne_need_eof N) (at (ne_build N) ConnectionStrand)
    (cp_ec c) (cp_request c) op h"
  have "http_inv (ne_sockets N) e (hm_next \<lparr>hm_channel = h, hm_ops = [op], hm_log = []\<rparr> [] ?out)"
    using complete_next [OF A _ live, of "at (ne_build N) ConnectionStrand" op] by (simp add: on_strand_def)
  then obtain h' es where out: "?out = Inr (h', es)"
    and inv: "http_inv (ne_sockets N) e (Inr \<lparr>hm_channel = h', hm_ops = ops_of es, hm_log = es\<rparr>)"
    by (cases ?out) (auto simp: hm_next_def http_inv_def)
  let ?tcp = "tcp\<lparr>ctx_http_channel := Some h'\<rparr>"
  have o: "conn_complete N c e (ConnHttp op) r = Inr (reg_set (ne_registry N) r e (CTcp ?tcp), http_conn_ops e es)"
    by (simp add: http_channel_step_def with_tcp_def tcp with_http_def out)
  have moves: "advances N c e (ConnHttp op) p r"
    if q: "q \<in> {InHttp, HttpEnded, Upgrading}" and "http_conn_ops e es = [(e, op')]"
      and "q = Upgrading \<longrightarrow> \<not> failed (cp_ec c)"
      and "q = InHttp \<longrightarrow> goes_on c (ConnHttp op) \<or> op_rest [op'] < op_rest [ConnHttp op :: 's conn_op]"
      and "q \<noteq> InHttp \<longrightarrow> channels_done (ne_sockets N) ?tcp"
      and "in_phase e ((reg_find (ne_registry N) r e)(KTcp \<mapsto> CTcp ?tcp)) ?tcp [op'] q" for q op'
  proof (rule advancesI [OF o, where q = q])
    show "conn_ok (ne_sockets N) e (reg_find (ne_registry N) (reg_set (ne_registry N) r e (CTcp ?tcp)) e)
        (map snd (http_conn_ops e es)) q"
      unfolding find_set_context [OF R assms(2)] that(2)
      by (rule conn_ok_context [OF assms(3)]) (use that(1,5,6) tcp(2) in \<open>auto simp: p\<close>)
  qed (use that in \<open>auto simp: p same_elsewhere_set [OF R assms(2)]\<close>)
  from inv consider "http_live e \<lparr>hm_channel = h', hm_ops = ops_of es, hm_log = es\<rparr>"
    | "http_closed (ne_sockets N) e \<lparr>hm_channel = h', hm_ops = ops_of es, hm_log = es\<rparr>"
    | "http_handed_over \<lparr>hm_channel = h', hm_ops = ops_of es, hm_log = es\<rparr>"
    by (auto simp: http_inv_def)
  then show ?thesis
  proof cases
    case 1
    then obtain op' where op': "ops_of es = [op']" by (auto simp: http_live_def length_Suc_conv)
    have rest: "goes_on c (ConnHttp op) \<or> op_rest [ConnHttp op' :: 's conn_op] < op_rest [ConnHttp op :: 's conn_op]"
      using http_goes_on [OF A live out] 1 op' by (auto simp: http_live_def goes_on_def op_rest_def)
    show ?thesis
      by (rule moves [of InHttp "ConnHttp op'"])
         (use 1 op' rest tcp(3) http_conn_ops_counts(1) [of es e] in \<open>auto simp: http_live_def\<close>)
  next
    case 2
    show ?thesis
      by (rule moves [of HttpEnded ConnMarkUnused])
         (use 2 tcp(3) http_conn_ops_counts(2) [of es e] in \<open>auto simp: http_closed_def channels_done_def\<close>)
  next
    case 3
    then obtain st req where "http_conn_ops e es = [(e, ConnUpgrade st req)]"
      using http_conn_ops_counts(3) [of es _ e] by (auto simp: http_handed_over_def)
    moreover have "\<not> failed (cp_ec c)"
      using http_goes_on [OF A live out] 3 by (auto simp: http_handed_over_def)
    ultimately show ?thesis
      by (intro moves [of Upgrading "ConnUpgrade st req"]) (use 3 tcp(3) in \<open>auto simp: http_handed_over_def channels_done_def\<close>)
  qed
qed

lemma complete_advances:
  assumes "net_env_ok N" and "completion_ok N c" and "reg_valid (ne_registry N) r e"
    and "conn_ok (ne_sockets N) e (reg_find (ne_registry N) r e) [op] p"
  shows "advances N c e op p r"
proof (cases op)
  case (ConnWsAccept req)
  then show ?thesis
    using assms(4) by (cases p) (auto intro!: advancesI [where q = p] simp: goes_on_def conn_ok_def)
qed (use assms async_accept_advances accept_advances set_accept_advances run_detector_advances detect_advances
    set_detect_advances http_advances mark_unused_advances upgrade_advances in \<open>simp_all\<close>)

end
