(* ===== verification/Connection_Update.thy ===== *)
theory Connection_Update
  imports Connection_Steps
begin

text \<open>
  An update of the network entities, on any number of connections: what each of its systems does to their phases, and the
  update as a whole (\<open>update_advances\<close>).
\<close>

subsection \<open>An update\<close>

text \<open>A loop whose body touches its own entity, with what it leaves outstanding.\<close>

lemma each_local:
  assumes "distinct es"
    and "\<And>e r'. e \<in> set es \<Longrightarrow> reg_valid R r' e = reg_valid R r e \<Longrightarrow> reg_find R r' e = reg_find R r e \<Longrightarrow>
      \<exists>r'' log. f e r' = Inr (r'', log) \<and> same_elsewhere R r' r'' {e} \<and> fst ` set (net_conn_ops log) \<subseteq> {e} \<and>
        Q e (reg_find R r'' e) (map snd (net_conn_ops log))"
  shows "\<exists>r' log. each_entity f es r = Inr (r', log) \<and> same_elsewhere R r r' (set es) \<and>
    (\<forall>x. x \<notin> set es \<longrightarrow> ops_for x (net_conn_ops log) = []) \<and>
    (\<forall>x \<in> set es. Q x (reg_find R r' x) (ops_for x (net_conn_ops log)))"
  using assms
proof (induction es arbitrary: r)
  case Nil
  then show ?case by simp
next
  case (Cons e es)
  from Cons.prems(2) [of e r] obtain r1 log1 where
    1: "f e r = Inr (r1, log1)" "same_elsewhere R r r1 {e}" "fst ` set (net_conn_ops log1) \<subseteq> {e}"
    "Q e (reg_find R r1 e) (map snd (net_conn_ops log1))" by auto
  have e: "e \<notin> set es" "distinct es" using Cons.prems(1) by simp_all
  have same: "reg_valid R r1 x = reg_valid R r x \<and> reg_find R r1 x = reg_find R r x" if "x \<in> set es" for x
    using 1(2) that e(1) same_elsewhere_find [OF 1(2), of x] by (auto simp: same_elsewhere_def)
  have "\<exists>r' log. each_entity f es r1 = Inr (r', log) \<and> same_elsewhere R r1 r' (set es) \<and>
    (\<forall>x. x \<notin> set es \<longrightarrow> ops_for x (net_conn_ops log) = []) \<and>
    (\<forall>x \<in> set es. Q x (reg_find R r' x) (ops_for x (net_conn_ops log)))"
    by (rule Cons.IH [OF e(2)], rule Cons.prems(2)) (use same in auto)
  then obtain r2 log2 where 2: "each_entity f es r1 = Inr (r2, log2)" "same_elsewhere R r1 r2 (set es)"
    "\<forall>x. x \<notin> set es \<longrightarrow> ops_for x (net_conn_ops log2) = []"
    "\<forall>x \<in> set es. Q x (reg_find R r2 x) (ops_for x (net_conn_ops log2))" by blast
  have o: "ops_for x (net_conn_ops log1) = (if x = e then map snd (net_conn_ops log1) else [])" for x
    by (rule ops_for_one [OF 1(3)])
  have "reg_find R r2 e = reg_find R r1 e" using same_elsewhere_find [OF 2(2) e(1)] .
  with 1 2 e(1) same_elsewhere_trans [OF 1(2) 2(2)] show ?case by (auto simp: o)
qed

text \<open>A body that handles a waiting result: on to \<open>next\<close>, or given up.\<close>

definition handled_conn ::
  "('r, 's, 'q) registry_api \<Rightarrow> 's socket_api \<Rightarrow> (entity \<Rightarrow> 'r \<Rightarrow> ('r \<times> 's net_effect list) result) \<Rightarrow> conn_phase \<Rightarrow> entity \<Rightarrow> 'r \<Rightarrow> bool" where
  "handled_conn R A body next e r = (\<exists>r' log. body e r = Inr (r', log) \<and> same_elsewhere R r r' {e} \<and>
     fst ` set (net_conn_ops log) \<subseteq> {e} \<and>
     (\<exists>q \<in> {next, NoLongerUsed}. conn_ok A e (reg_find R r' e) (map snd (net_conn_ops log)) q) \<and>
     (\<forall>k \<in> delayed_tags. reg_find R r' e k = reg_find R r e k))"

text \<open>
  A system that handles the results of the connections in phase \<open>waiting\<close>: those that \<open>nc\<close> does not hide go on to
  \<open>next\<close> or are given up, the others are not touched.
\<close>

definition conns_ok ::
  "('r, 's, 'q) registry_api \<Rightarrow> 's socket_api \<Rightarrow> 'r \<Rightarrow> (entity \<Rightarrow> 's conn_op list) \<Rightarrow> (entity \<Rightarrow> conn_phase) \<Rightarrow> bool" where
  "conns_ok R A r ops ph = (\<forall>x. if reg_valid R r x then conn_ok A x (reg_find R r x) (ops x) (ph x)
     else ops x = [] \<and> ph x = Gone)"

definition system_moves ::
  "('r, 's, 'q) registry_api \<Rightarrow> 's socket_api \<Rightarrow> kind list \<Rightarrow> conn_phase \<Rightarrow> conn_phase \<Rightarrow> 'r \<Rightarrow> (entity \<Rightarrow> 's conn_op list) \<Rightarrow>
   (entity \<Rightarrow> conn_phase) \<Rightarrow> 'r \<Rightarrow> 's net_effect list \<Rightarrow> (entity \<Rightarrow> conn_phase) \<Rightarrow> bool" where
  "system_moves R A nc wait next r ops ph r' log ph' =
     (conns_ok R A r' (\<lambda>x. ops x @ ops_for x (net_conn_ops log)) ph' \<and>
      (\<forall>x. reg_valid R r' x = reg_valid R r x) \<and>
      (\<forall>x. \<forall>k \<in> delayed_tags. reg_find R r' x k = reg_find R r x k) \<and>
      (\<forall>x. if ph x = wait \<and> (\<forall>k \<in> set nc. reg_find R r x k = None) then ph' x \<in> {next, NoLongerUsed} else ph' x = ph x))"

text \<open>What the two systems of the delayed construction do to the tags of an entity.\<close>

definition construction_moves :: "('s, 'q) view \<Rightarrow> ('s, 'q) view \<Rightarrow> bool" where
  "construction_moves f f' = (f' (KTag DelayedConstruction) = None \<and>
     (f' (KTag DelayedConstructionJustDone) \<noteq> None \<longleftrightarrow> f (KTag DelayedConstruction) \<noteq> None))"

lemma channels_done_delete: "channels_done A tcp \<Longrightarrow> delete_channels A ws_open b tcp = Inr ()"
  by (cases "ctx_http_channel tcp") (auto simp: channels_done_def delete_channels_def HttpChannel_delete_def)

context registry
begin

text \<open>A result that is handled and tagged as used.\<close>

lemma handled_tagged:
  assumes "handle e r = Inr (r1, log)" and "reg_valid R r e" and "same_elsewhere R r r1 {e}"
  shows "\<exists>r2. handle_and_tag R b used handle e r = Inr (r2, log) \<and> same_elsewhere R r r2 {e} \<and>
    reg_find R r2 e (KTag used) \<noteq> None \<and> (\<forall>k. k \<noteq> KTag used \<longrightarrow> reg_find R r2 e k = reg_find R r1 e k)"
proof -
  have "reg_valid R r1 e" using assms(2,3) by (simp add: same_elsewhere_def)
  from ensure_tag_effect [OF this, of used] obtain r2 where
    t: "ensure_tag R e used r1 = Inr r2" "\<And>x. reg_valid R r2 x = reg_valid R r1 x"
    "\<And>x k. reg_has R r2 x k \<longleftrightarrow> x = e \<and> k = KTag used \<or> reg_has R r1 x k"
    "\<And>x k. \<not> (x = e \<and> k = KTag used) \<Longrightarrow> reg_find R r2 x k = reg_find R r1 x k" by blast
  then have "reg_has R r2 e (KTag used)" by simp
  then have "reg_find R r2 e (KTag used) \<noteq> None" by (simp add: reg_has_def)
  with assms t show ?thesis by (auto simp: handle_and_tag_def same_elsewhere_def)
qed

lemma accept_handled:
  assumes "reg_valid R r e" and ok: "conn_ok A e (reg_find R r e) [] AcceptWaiting"
  shows "handled_conn R A (handle_and_tag R b UnusedAcceptResultTag (handleAcceptResult A R (on_registry b))) Detecting e r"
proof -
  obtain tcp ar s where f: "reg_find R r e KTcp = Some (CTcp tcp)" "ctx_strand tcp"
    "reg_find R r e KAccept = Some (CAccept ar)" "ar_socket ar = Here s" and d: "channels_done A tcp"
    using ok by (auto simp: conn_ok_def)
  show ?thesis
  proof (cases "failed (ar_ec ar) \<or> ar_need_close ar")
    case True
    from accept_close [OF assms(1) f True, of A b] obtain r1 where r1:
      "handleAcceptResult A R (on_registry b) e r = Inr (r1, map (NetCloseLog e) (snd (closeSocketUnsafe A s)))"
      "same_elsewhere R r r1 {e}"
      "\<And>k. k \<noteq> KAccept \<Longrightarrow> k \<noteq> KTag UnusedTag \<Longrightarrow> reg_find R r1 e k = reg_find R r e k"
      "reg_has R r1 e (KTag UnusedTag)" by blast
    from handled_tagged [where handle = "handleAcceptResult A R (on_registry b)",
        OF r1(1) assms(1) r1(2), of b UnusedAcceptResultTag] obtain r2 where
      r2: "handle_and_tag R b UnusedAcceptResultTag (handleAcceptResult A R (on_registry b)) e r =
        Inr (r2, map (NetCloseLog e) (snd (closeSocketUnsafe A s)))" "same_elsewhere R r r2 {e}"
      "reg_find R r2 e (KTag UnusedAcceptResultTag) \<noteq> None"
      "\<And>k. k \<noteq> KTag UnusedAcceptResultTag \<Longrightarrow> reg_find R r2 e k = reg_find R r1 e k" by blast
    have "conn_ok A e (reg_find R r2 e) [] NoLongerUsed"
      using ok f d r1(4) r2(3)
      by (simp add: conn_ok_def r2(4) r1(3) accept_used_def detect_used_def reg_has_def)
    with r2(1,2) show ?thesis by (simp add: handled_conn_def delayed_tags_def r2(4) r1(3))
  next
    case False
    then have nf: "\<not> failed (ar_ec ar)" "\<not> ar_need_close ar" by simp_all
    from accept_detect [OF assms(1) f nf, of A b] obtain r1 where r1:
      "handleAcceptResult A R (on_registry b) e r = Inr (r1, [NetPostRunDetector e 3])"
      "same_elsewhere R r r1 {e}"
      "reg_find R r1 e KTcp = Some (CTcp (tcp\<lparr>ctx_detect_channel := Some (DetectChannel_new s e)\<rparr>))"
      "\<And>k. k \<noteq> KAccept \<Longrightarrow> k \<noteq> KTcp \<Longrightarrow> reg_find R r1 e k = reg_find R r e k" by blast
    from handled_tagged [where handle = "handleAcceptResult A R (on_registry b)",
        OF r1(1) assms(1) r1(2), of b UnusedAcceptResultTag] obtain r2 where
      r2: "handle_and_tag R b UnusedAcceptResultTag (handleAcceptResult A R (on_registry b)) e r =
        Inr (r2, [NetPostRunDetector e 3])" "same_elsewhere R r r2 {e}"
      "reg_find R r2 e (KTag UnusedAcceptResultTag) \<noteq> None"
      "\<And>k. k \<noteq> KTag UnusedAcceptResultTag \<Longrightarrow> reg_find R r2 e k = reg_find R r1 e k" by blast
    have "conn_ok A e (reg_find R r2 e) [ConnRunDetector 3] Detecting"
      using ok f(2) d r2(3)
      by (simp add: conn_ok_def r2(4) r1(3,4) accept_used_def detect_used_def channels_done_def
          fresh_detector_def DetectChannel_new_def)
    with r2(1,2) show ?thesis by (simp add: handled_conn_def delayed_tags_def r2(4) r1(4))
  qed
qed

lemma detect_handled:
  assumes "reg_valid R r e" and ok: "conn_ok A e (reg_find R r e) [] DetectWaiting" and laws: "socket_laws A"
  shows "handled_conn R A (handle_and_tag R b UnusedSSLDetectResultTag (handleSSLDetectResult A R (on_registry b))) InHttp e r"
proof -
  obtain tcp dr st buf where f: "reg_find R r e KTcp = Some (CTcp tcp)" "ctx_strand tcp" and d: "channels_done A tcp"
    and g: "reg_find R r e KSSL = Some (CSSL dr)" "dr_stream dr = Here st" "dr_buffer dr = Here buf"
    using ok by (auto simp: conn_ok_def)
  show ?thesis
  proof (cases "failed (dr_ec dr) \<or> dr_need_close dr")
    case True
    from ssl_close [OF assms(1) laws g(1,2) True, of b] obtain r1 where r1:
      "handleSSLDetectResult A R (on_registry b) e r = Inr (r1, [NetCloseLog e AlreadyClosed])"
      "same_elsewhere R r r1 {e}"
      "\<And>k. k \<noteq> KSSL \<Longrightarrow> k \<noteq> KTag UnusedTag \<Longrightarrow> reg_find R r1 e k = reg_find R r e k"
      "reg_has R r1 e (KTag UnusedTag)" by blast
    from handled_tagged [where handle = "handleSSLDetectResult A R (on_registry b)",
        OF r1(1) assms(1) r1(2), of b UnusedSSLDetectResultTag] obtain r2 where
      r2: "handle_and_tag R b UnusedSSLDetectResultTag (handleSSLDetectResult A R (on_registry b)) e r =
        Inr (r2, [NetCloseLog e AlreadyClosed])" "same_elsewhere R r r2 {e}"
      "reg_find R r2 e (KTag UnusedSSLDetectResultTag) \<noteq> None"
      "\<And>k. k \<noteq> KTag UnusedSSLDetectResultTag \<Longrightarrow> reg_find R r2 e k = reg_find R r1 e k" by blast
    have "conn_ok A e (reg_find R r2 e) [] NoLongerUsed"
      using ok f d r1(4) r2(3)
      by (simp add: conn_ok_def r2(4) r1(3) accept_used_def detect_used_def reg_has_def)
    with r2(1,2) show ?thesis by (simp add: handled_conn_def delayed_tags_def r2(4) r1(3))
  next
    case False
    then have nf: "\<not> failed (dr_ec dr)" "\<not> dr_need_close dr" by simp_all
    from ssl_http [OF assms(1) f(1) g nf, of A b] obtain r1 where r1:
      "handleSSLDetectResult A R (on_registry b) e r = Inr (r1, [NetHttp e HttpPostRead])"
      "same_elsewhere R r r1 {e}"
      "reg_find R r1 e KTcp = Some (CTcp (tcp\<lparr>ctx_http_channel := Some (HttpChannel_new st buf e)\<rparr>))"
      "\<And>k. k \<noteq> KSSL \<Longrightarrow> k \<noteq> KTcp \<Longrightarrow> reg_find R r1 e k = reg_find R r e k" by blast
    from handled_tagged [where handle = "handleSSLDetectResult A R (on_registry b)",
        OF r1(1) assms(1) r1(2), of b UnusedSSLDetectResultTag] obtain r2 where
      r2: "handle_and_tag R b UnusedSSLDetectResultTag (handleSSLDetectResult A R (on_registry b)) e r =
        Inr (r2, [NetHttp e HttpPostRead])" "same_elsewhere R r r2 {e}"
      "reg_find R r2 e (KTag UnusedSSLDetectResultTag) \<noteq> None"
      "\<And>k. k \<noteq> KTag UnusedSSLDetectResultTag \<Longrightarrow> reg_find R r2 e k = reg_find R r1 e k" by blast
    have "conn_ok A e (reg_find R r2 e) [ConnHttp OpPostedRead] InHttp"
      using ok f(2) d r2(3)
      by (simp add: conn_ok_def r2(4) r1(3,4) accept_used_def detect_used_def channels_done_def
          http_live_def live_channel_def HttpChannel_new_def)
    with r2(1,2) show ?thesis by (simp add: handled_conn_def delayed_tags_def r2(4) r1(4))
  qed
qed

lemma results_advance:
  assumes handled: "\<And>r e. reg_valid R r e \<Longrightarrow> conn_ok A e (reg_find R r e) [] wait \<Longrightarrow>
      handled_conn R A (handle_and_tag R b used handle) next e r"
    and waits: "\<And>e (f :: ('s, 'q) view) ops p. conn_ok A e f ops p \<Longrightarrow> f k \<noteq> None \<and> f (KTag used) = None \<longleftrightarrow> p = wait"
    and no_ops: "\<And>e (f :: ('s, 'q) view) ops. conn_ok A e f ops wait \<Longrightarrow> ops = []"
    and conns: "conns_ok R A r ops ph" and wait: "wait \<noteq> Gone"
  shows "\<exists>r' log ph'. process_results R b k used nc handle r = Inr (r', log) \<and>
    system_moves R A nc wait next r ops ph r' log ph'"
proof -
  let ?v = "reg_view R r [k] (KTag used # nc)"
  have v: "x \<in> set ?v \<longleftrightarrow> reg_valid R r x \<and> ph x = wait \<and> (\<forall>k \<in> set nc. reg_find R r x k = None)" for x
    using conns waits [of x "reg_find R r x" "ops x" "ph x"] by (auto simp: set_view_find conns_ok_def)
  let ?Q = "\<lambda>x f os. (\<exists>q \<in> {next, NoLongerUsed}. conn_ok A x f os q) \<and> (\<forall>k \<in> delayed_tags. f k = reg_find R r x k)"
  have "\<exists>r' log. each_entity (handle_and_tag R b used handle) ?v r = Inr (r', log) \<and> same_elsewhere R r r' (set ?v) \<and>
    (\<forall>x. x \<notin> set ?v \<longrightarrow> ops_for x (net_conn_ops log) = []) \<and>
    (\<forall>x \<in> set ?v. ?Q x (reg_find R r' x) (ops_for x (net_conn_ops log)))"
  proof (rule each_local [OF distinct_view])
    fix e r' assume e: "e \<in> set ?v" and same: "reg_valid R r' e = reg_valid R r e" "reg_find R r' e = reg_find R r e"
    from e v have "reg_valid R r e" "ph e = wait" by auto
    with conns have ok: "conn_ok A e (reg_find R r e) (ops e) wait" by (auto simp: conns_ok_def)
    have none: "ops e = []" by (rule no_ops [OF ok])
    have "reg_valid R r' e" "conn_ok A e (reg_find R r' e) [] wait"
      using same \<open>reg_valid R r e\<close> ok [unfolded none] by simp_all
    from handled [OF this] show "\<exists>r'' log. handle_and_tag R b used handle e r' = Inr (r'', log) \<and>
        same_elsewhere R r' r'' {e} \<and> fst ` set (net_conn_ops log) \<subseteq> {e} \<and>
        ?Q e (reg_find R r'' e) (map snd (net_conn_ops log))"
      unfolding handled_conn_def same .
  qed
  then obtain r' log where r': "process_results R b k used nc handle r = Inr (r', log)" "same_elsewhere R r r' (set ?v)"
    "\<And>x. x \<notin> set ?v \<Longrightarrow> ops_for x (net_conn_ops log) = []"
    "\<And>x. x \<in> set ?v \<Longrightarrow> ?Q x (reg_find R r' x) (ops_for x (net_conn_ops log))"
    unfolding process_results_def by blast
  let ?ph = "\<lambda>x. if x \<in> set ?v then SOME q. q \<in> {next, NoLongerUsed} \<and>
    conn_ok A x (reg_find R r' x) (ops_for x (net_conn_ops log)) q else ph x"
  have in_v: "?ph x \<in> {next, NoLongerUsed} \<and> conn_ok A x (reg_find R r' x) (ops_for x (net_conn_ops log)) (?ph x)"
    if "x \<in> set ?v" for x
    using r'(4) [OF that] that someI_ex [of "\<lambda>q. q \<in> {next, NoLongerUsed} \<and>
      conn_ok A x (reg_find R r' x) (ops_for x (net_conn_ops log)) q"] by auto
  have "conns_ok R A r' (\<lambda>x. ops x @ ops_for x (net_conn_ops log)) ?ph"
    unfolding conns_ok_def
  proof
    fix x
    show "if reg_valid R r' x then conn_ok A x (reg_find R r' x) (ops x @ ops_for x (net_conn_ops log)) (?ph x)
      else ops x @ ops_for x (net_conn_ops log) = [] \<and> ?ph x = Gone"
    proof (cases "x \<in> set ?v")
      case True
      with v have "reg_valid R r x" "ph x = wait" by auto
      with conns have "conn_ok A x (reg_find R r x) (ops x) wait" by (auto simp: conns_ok_def)
      from no_ops [OF this] have "ops x = []" .
      with in_v [OF True] r'(2) \<open>reg_valid R r x\<close> show ?thesis by (simp add: same_elsewhere_def)
    next
      case False
      with conns r'(2) r'(3) same_elsewhere_find [OF r'(2) False] show ?thesis
        by (simp add: conns_ok_def same_elsewhere_def)
    qed
  qed
  moreover have "\<forall>x. reg_valid R r' x = reg_valid R r x" using r'(2) by (simp add: same_elsewhere_def)
  moreover have "\<forall>x. \<forall>k \<in> delayed_tags. reg_find R r' x k = reg_find R r x k"
    using r'(4) same_elsewhere_find [OF r'(2)] by metis
  moreover have "\<forall>x. if ph x = wait \<and> (\<forall>k \<in> set nc. reg_find R r x k = None) then ?ph x \<in> {next, NoLongerUsed}
      else ?ph x = ph x"
  proof
    fix x
    have "ph x = wait \<Longrightarrow> reg_valid R r x" using conns wait by (auto simp: conns_ok_def split: if_splits)
    then show "if ph x = wait \<and> (\<forall>k \<in> set nc. reg_find R r x k = None) then ?ph x \<in> {next, NoLongerUsed}
      else ?ph x = ph x"
      using in_v [of x] v [of x] by (cases "x \<in> set ?v") (simp_all split del: if_split, auto)
  qed
  ultimately show ?thesis using r'(1) unfolding system_moves_def by blast
qed

lemma accept_system:
  assumes "conns_ok R A r ops ph"
  shows "\<exists>r' log ph'. updateNewConnections A R nc (on_registry b) r = Inr (r', log) \<and>
    system_moves R A nc AcceptWaiting Detecting r ops ph r' log ph'"
  unfolding updateNewConnections_def on_registry_simps run_on_same [OF on_registry_simps(2)]
proof (rule results_advance [OF accept_handled _ _ assms])
  show "f KAccept \<noteq> None \<and> f (KTag UnusedAcceptResultTag) = None \<longleftrightarrow> p = AcceptWaiting"
    if "conn_ok A e f os p" for e os p and f :: "('s, 'q) view"
    using that by (cases "p = AcceptWaiting") (auto simp: conn_ok_def accept_used_def)
qed (auto simp: conn_ok_def)

lemma detect_system:
  assumes "conns_ok R A r ops ph" and "socket_laws A"
  shows "\<exists>r' log ph'. updateSSLDetection A R nc (on_registry b) r = Inr (r', log) \<and>
    system_moves R A nc DetectWaiting InHttp r ops ph r' log ph'"
  unfolding updateSSLDetection_def on_registry_simps run_on_same [OF on_registry_simps(2)]
proof (rule results_advance [OF detect_handled [OF _ _ assms(2)] _ _ assms(1)])
  show "f KSSL \<noteq> None \<and> f (KTag UnusedSSLDetectResultTag) = None \<longleftrightarrow> p = DetectWaiting"
    if "conn_ok A e f os p" for e os p and f :: "('s, 'q) view"
    using that by (cases "p = DetectWaiting") (auto simp: conn_ok_def detect_used_def)
qed (auto simp: conn_ok_def)

lemma rest_of_update:
  assumes conns: "conns_ok R A r ops ph"
    and no_child: "\<And>r e. \<not> has_first_child L r e"
    and unlink: "\<And>r x. reg_valid R (removeTopLevelChildrenFromView L r) x = reg_valid R r x"
      "\<And>r x k. reg_find R (removeTopLevelChildrenFromView L r) x k = reg_find R r x k"
  shows "\<exists>r3 r4 r5 r6 r7. updateUnusedChildList R L (on_registry b) r = Inr r3 \<and>
    updateDelayedConstructionJustDone R (on_registry b) r3 = Inr r4 \<and>
    updateDelayedConstruction R (on_registry b) r4 = Inr r5 \<and>
    updateUnusedSystem R False (on_registry b) r5 = Inr r6 \<and>
    updateCleanupSystem A ws_is_open R False (on_registry b) r6 = Inr r7 \<and>
    (\<forall>x. reg_valid R r7 x \<longleftrightarrow> reg_valid R r x \<and> ph x \<noteq> NoLongerUsed) \<and>
    conns_ok R A r7 ops (\<lambda>x. if ph x = NoLongerUsed then Gone else ph x) \<and>
    (\<forall>x. reg_valid R r7 x \<longrightarrow> construction_moves (reg_find R r x) (reg_find R r7 x))"
proof -
  have conn: "if reg_valid R r x then conn_ok A x (reg_find R r x) (ops x) (ph x) else ops x = [] \<and> ph x = Gone" for x
    using conns by (simp add: conns_ok_def)
  have f: "reg_find R r x (KTag ChildrenToDestroy) = None" "reg_find R r x (KTag NeedToDestroyTag) = None"
    "reg_find R r x (KTag DelayedConstruction) = None \<or> reg_find R r x (KTag DelayedConstructionJustDone) = None"
    "reg_find R r x (KTag UnusedTag) \<noteq> None \<longleftrightarrow> reg_valid R r x \<and> ph x = NoLongerUsed" for x
    using conn [of x] invalid_find [of r x] by (auto simp: conn_ok_def split: if_splits)
  let ?r3 = "removeTopLevelChildrenFromView L r"
  have 3: "updateUnusedChildList R L (on_registry b) r = Inr ?r3"
    using no_child f(1) by (intro no_children_spec) (auto simp: reg_has_def)
  have "phases_ok R ?r3" using f(3) by (auto simp: phases_ok_def reg_has_def unlink)
  from just_done_spec [OF this, of b] obtain r4 where
    4: "updateDelayedConstructionJustDone R (on_registry b) ?r3 = Inr r4"
    "\<And>x. reg_valid R r4 x = reg_valid R ?r3 x"
    "\<And>x k. reg_find R r4 x k = (if just_done R ?r3 x \<and> k = KTag DelayedConstructionJustDone then None
       else reg_find R ?r3 x k)" by blast
  have jd: "reg_find R r4 x (KTag DelayedConstructionJustDone) = None" for x
    using f(2) by (auto simp: 4(3) just_done_def reg_has_def unlink)
  then have "\<forall>x. constructing R r4 x \<longrightarrow> \<not> reg_has R r4 x (KTag DelayedConstructionJustDone)"
    by (simp add: reg_has_def)
  from constructing_spec [OF this, of b] obtain r5 where
    5: "updateDelayedConstruction R (on_registry b) r4 = Inr r5"
    "\<And>x. reg_valid R r5 x = reg_valid R r4 x"
    "\<And>x k. reg_find R r5 x k = (if constructing R r4 x then
         (if k = KTag DelayedConstruction then None
          else if k = KTag DelayedConstructionJustDone then Some (CTag DelayedConstructionJustDone)
          else reg_find R r4 x k)
       else reg_find R r4 x k)" by blast
  have c4: "constructing R r4 x \<longleftrightarrow> reg_find R r x (KTag DelayedConstruction) \<noteq> None" for x
    using f(2) by (simp add: constructing_def reg_has_def 4(3) unlink)
  have keep: "reg_find R r5 x k = reg_find R r x k" if "k \<notin> delayed_tags" for x k
    using that by (simp add: 5(3) 4(3) unlink delayed_tags_def)
  have tags: "construction_moves (reg_find R r x) (reg_find R r5 x)" for x
    by (simp add: construction_moves_def 5(3) c4 jd) (simp add: 4(3) unlink)
  from unused_spec [of b r5] obtain r6 where
    6: "updateUnusedSystem R False (on_registry b) r5 = Inr r6"
    "\<And>x. reg_valid R r6 x = reg_valid R r5 x"
    "\<And>x k. reg_find R r6 x k = (if k = KTag NeedToDestroyTag \<and> reg_has R r5 x (KTag UnusedTag)
       then Some (CTag NeedToDestroyTag) else reg_find R r5 x k)" by blast
  have v6: "reg_valid R r6 x = reg_valid R r x" for x by (simp add: 6(2) 5(2) 4(2) unlink)
  have gone: "reg_has R r6 x (KTag NeedToDestroyTag) \<longleftrightarrow> reg_valid R r x \<and> ph x = NoLongerUsed" for x
    using f(2,4) by (simp add: reg_has_def 6(3) keep delayed_tags_def)
  have "deletable A ws_is_open R b r6 x" if "reg_has R r6 x (KTag NeedToDestroyTag)" for x
  proof -
    have "conn_ok A x (reg_find R r x) (ops x) NoLongerUsed" using that conn [of x] by (simp add: gone)
    then show ?thesis
      by (auto simp: deletable_def 6(3) keep delayed_tags_def conn_ok_def channels_done_delete)
  qed
  from cleanup_spec [OF allI [OF impI [OF this]]] obtain r7 where
    7: "updateCleanupSystem A ws_is_open R False (on_registry b) r6 = Inr r7"
    "\<And>x. reg_valid R r7 x = (reg_valid R r6 x \<and> \<not> reg_has R r6 x (KTag NeedToDestroyTag))"
    "\<And>x k. reg_find R r7 x k = (if reg_has R r6 x (KTag NeedToDestroyTag) then None else reg_find R r6 x k)"
    by blast
  have v7: "reg_valid R r7 x \<longleftrightarrow> reg_valid R r x \<and> ph x \<noteq> NoLongerUsed" for x
    by (auto simp: 7(2) v6 gone)
  have f7: "reg_find R r7 x = reg_find R r5 x" if "reg_valid R r7 x" for x
  proof -
    have "\<not> reg_has R r5 x (KTag UnusedTag)"
      using that v7 [of x] f(4) [of x] by (simp add: reg_has_def keep delayed_tags_def)
    with that v7 [of x] show ?thesis by (simp add: fun_eq_iff 7(3) gone 6(3))
  qed
  have "conns_ok R A r7 ops (\<lambda>x. if ph x = NoLongerUsed then Gone else ph x)"
    unfolding conns_ok_def
  proof
    fix x
    show "if reg_valid R r7 x then conn_ok A x (reg_find R r7 x) (ops x) (if ph x = NoLongerUsed then Gone else ph x)
      else ops x = [] \<and> (if ph x = NoLongerUsed then Gone else ph x) = Gone"
    proof (cases "reg_valid R r7 x")
      case True
      with v7 conn [of x] have ok: "conn_ok A x (reg_find R r x) (ops x) (ph x)" "ph x \<noteq> NoLongerUsed" by auto
      have "conn_ok A x (reg_find R r7 x) (ops x) (ph x)"
        by (rule conn_ok_tags [OF ok(1)]) (use keep tags [of x] in \<open>auto simp: f7 [OF True] construction_moves_def\<close>)
      with True ok(2) show ?thesis by simp
    next
      case False
      with v7 conn [of x] show ?thesis by (auto simp: conn_ok_def split: if_splits)
    qed
  qed
  with 3 4(1) 5(1) 6(1) 7(1) v7 tags show ?thesis by (auto simp: f7)
qed

end

text \<open>The world and its phases.\<close>

lemma conns_ok_at:
  "conns_ok (ne_registry N) (ne_sockets N) (nw_registry w) (\<lambda>x. ops_for x (nw_ops w)) ph \<longleftrightarrow> (\<forall>x. conn_at N w x (ph x))"
proof -
  have "(if reg_valid (ne_registry N) (nw_registry w) x
     then conn_ok (ne_sockets N) x (reg_find (ne_registry N) (nw_registry w) x) (ops_for x (nw_ops w)) (ph x)
     else ops_for x (nw_ops w) = [] \<and> ph x = Gone) \<longleftrightarrow> conn_at N w x (ph x)" for x
    by (cases "ph x = Gone") (auto simp: conn_at_def conn_ok_def)
  then show ?thesis by (simp add: conns_ok_def)
qed

definition hidden :: "kind list \<Rightarrow> ('s, 'q) view \<Rightarrow> bool" where
  "hidden nc f = (\<exists>k \<in> set nc. f k \<noteq> None)"

definition update_moves :: "kind list \<Rightarrow> ('s, 'q) view \<Rightarrow> conn_phase \<Rightarrow> conn_phase \<Rightarrow> bool" where
  "update_moves nc f p q =
     (if p = NoLongerUsed then q = Gone
      else if p = AcceptWaiting \<and> \<not> hidden nc f then q \<in> {Detecting, Gone}
      else if p = DetectWaiting \<and> \<not> hidden nc f then q \<in> {InHttp, Gone}
      else q = p)"

lemma update_moves_edge: "update_moves nc f p q \<Longrightarrow> q = p \<or> phase_edge p q"
  by (auto simp: update_moves_def split: if_splits)

lemma update_advances:
  assumes N: "net_env_ok N" and at: "\<forall>x. conn_at N w x (ph x)"
  shows "\<exists>w' ph'. net_update N u w = Inr w' \<and> (\<forall>x. conn_at N w' x (ph' x)) \<and>
    (\<forall>x. update_moves (ne_excluded N) (reg_find (ne_registry N) (nw_registry w) x) (ph x) (ph' x)) \<and>
    (\<forall>x. ph' x \<noteq> Gone \<longrightarrow> construction_moves (reg_find (ne_registry N) (nw_registry w) x)
       (reg_find (ne_registry N) (nw_registry w') x))"
proof -
  let ?R = "ne_registry N" and ?A = "ne_sockets N" and ?nc = "ne_excluded N" and ?b = "ne_build N" and ?r = "nw_registry w"
  note R = net_env_registry [OF N]
  have nc: "set ?nc \<subseteq> construction_tags" and laws: "socket_laws ?A"
    and rel: "\<And>r e. \<not> has_first_child (ne_relations N) r e"
      "\<And>r x. reg_valid ?R (removeTopLevelChildrenFromView (ne_relations N) r) x = reg_valid ?R r x"
      "\<And>r x k. reg_find ?R (removeTopLevelChildrenFromView (ne_relations N) r) x k = reg_find ?R r x k"
    using N by (simp_all add: net_env_ok_def)
  have c0: "conns_ok ?R ?A ?r (\<lambda>x. ops_for x (nw_ops w)) ph" using at by (simp add: conns_ok_at)
  from registry.accept_system [OF R c0, of ?nc ?b] obtain r1 log1 ph1 where
    1: "updateNewConnections ?A ?R ?nc (on_registry ?b) ?r = Inr (r1, log1)"
    "system_moves ?R ?A ?nc AcceptWaiting Detecting ?r (\<lambda>x. ops_for x (nw_ops w)) ph r1 log1 ph1" by blast
  note m1 = 1(2) [unfolded system_moves_def]
  from registry.detect_system [OF R m1 [THEN conjunct1] laws, of ?nc ?b] obtain r2 log2 ph2 where
    2: "updateSSLDetection ?A ?R ?nc (on_registry ?b) r1 = Inr (r2, log2)"
    "system_moves ?R ?A ?nc DetectWaiting InHttp r1
      (\<lambda>x. ops_for x (nw_ops w) @ ops_for x (net_conn_ops log1)) ph1 r2 log2 ph2" by blast
  note m2 = 2(2) [unfolded system_moves_def]
  from registry.rest_of_update [OF R m2 [THEN conjunct1] rel, of ?b "ne_ws_is_open N"] obtain r3 r4 r5 r6 r7 where
    3: "updateUnusedChildList ?R (ne_relations N) (on_registry ?b) r2 = Inr r3"
    "updateDelayedConstructionJustDone ?R (on_registry ?b) r3 = Inr r4"
    "updateDelayedConstruction ?R (on_registry ?b) r4 = Inr r5"
    "updateUnusedSystem ?R False (on_registry ?b) r5 = Inr r6"
    "updateCleanupSystem ?A (ne_ws_is_open N) ?R False (on_registry ?b) r6 = Inr r7"
    and v7: "\<And>x. reg_valid ?R r7 x \<longleftrightarrow> reg_valid ?R r2 x \<and> ph2 x \<noteq> NoLongerUsed"
    and c7: "conns_ok ?R ?A r7 (\<lambda>x. (ops_for x (nw_ops w) @ ops_for x (net_conn_ops log1)) @ ops_for x (net_conn_ops log2))
      (\<lambda>x. if ph2 x = NoLongerUsed then Gone else ph2 x)"
    and t7: "\<And>x. reg_valid ?R r7 x \<Longrightarrow> construction_moves (reg_find ?R r2 x) (reg_find ?R r7 x)" by blast
  let ?w = "\<lparr>nw_registry = r7, nw_ops = nw_ops w @ net_conn_ops (log1 @ log2)\<rparr>"
  let ?ph = "\<lambda>x. if ph2 x = NoLongerUsed then Gone else ph2 x"
  have up: "net_update N u w = Inr ?w"
    by (simp add: net_update_def updateOnRegistryThread_def 1(1) 2(1) 3 Let_def)
  have at': "\<forall>x. conn_at N ?w x (?ph x)"
    using c7 by (simp add: conns_ok_at [symmetric])
  have same1: "reg_find ?R r1 x k = reg_find ?R ?r x k" if "k \<in> delayed_tags" for x k
    using m1 that by blast
  have same2: "reg_find ?R r2 x k = reg_find ?R r1 x k" if "k \<in> delayed_tags" for x k
    using m2 that by blast
  have doomed: "reg_find ?R r x (KTag NeedToDestroyTag) = None" if "conns_ok ?R ?A r os p" for r os p x
    using that [unfolded conns_ok_def, rule_format, of x] registry.invalid_find [OF R, of r x]
    by (auto simp: conn_ok_def split: if_splits)
  have hid0: "(\<forall>k \<in> set ?nc. reg_find ?R ?r x k = None) \<longleftrightarrow> \<not> hidden ?nc (reg_find ?R ?r x)" for x
    by (auto simp: hidden_def)
  have hid: "(\<forall>k \<in> set ?nc. reg_find ?R r1 x k = None) \<longleftrightarrow> \<not> hidden ?nc (reg_find ?R ?r x)" for x
  proof -
    have "reg_find ?R r1 x k = reg_find ?R ?r x k" if "k \<in> set ?nc" for k
      using that nc same1 [of k x] doomed [OF c0, of x] doomed [OF m1 [THEN conjunct1], of x]
      by (auto simp: construction_tags_def delayed_tags_def)
    then show ?thesis by (auto simp: hidden_def)
  qed
  have "update_moves ?nc (reg_find ?R ?r x) (ph x) (?ph x)" for x
  proof -
    have s1: "if ph x = AcceptWaiting \<and> \<not> hidden ?nc (reg_find ?R ?r x) then ph1 x \<in> {Detecting, NoLongerUsed} else ph1 x = ph x"
      using m1 [THEN conjunct2, THEN conjunct2, THEN conjunct2, THEN spec, of x] by (simp add: hid0)
    have s2: "if ph1 x = DetectWaiting \<and> \<not> hidden ?nc (reg_find ?R ?r x) then ph2 x \<in> {InHttp, NoLongerUsed} else ph2 x = ph1 x"
      using m2 [THEN conjunct2, THEN conjunct2, THEN conjunct2, THEN spec, of x] by (simp add: hid)
    show ?thesis using s1 s2 by (auto simp: update_moves_def split: if_splits)
  qed
  moreover have "construction_moves (reg_find ?R ?r x) (reg_find ?R r7 x)" if "?ph x \<noteq> Gone" for x
  proof -
    have "reg_valid ?R r7 x" using at' that by (auto simp: conn_at_def split: if_splits)
    from t7 [OF this] same1 same2 show ?thesis by (simp add: construction_moves_def delayed_tags_def)
  qed
  ultimately show ?thesis using up at' by (intro exI [of _ ?w] exI [of _ ?ph]) simp
qed

end
