(* ===== verification/Connection_Lifecycle.thy ===== *)
theory Connection_Lifecycle
  imports Connection_Update
begin

text \<open>
  The life of all connections: allocation, the simulation of the phases by the machine of \<open>Connection_Run\<close>, and the way to
  the end of every connection.
\<close>

subsection \<open>Allocation\<close>

lemma conn_reusable:
  assumes N: "net_env_ok N" and at: "\<forall>x. conn_at N w x (ph x)"
  shows "reusable (ne_registry N) (ne_helpers N) b (nw_registry w)"
  unfolding reusable_def
proof (intro allI impI)
  fix e
  let ?R = "ne_registry N" and ?H = "ne_helpers N"
  assume c: "cached ?R (nw_registry w) e"
  note R = net_env_registry [OF N]
  have H: "helpers_ok ?R ?H" "helpers_reset ?R ?H" using N by (simp_all add: net_env_ok_def)
  have v: "reg_valid ?R (nw_registry w) e" using c registry.has_valid [OF R] by (auto simp: cached_def)
  with at have "conn_at N w e (ph e)" "ph e \<noteq> Gone" by (auto simp: conn_at_def split: if_splits)
  then have ok: "conn_ok (ne_sockets N) e (reg_find ?R (nw_registry w) e) (ops_for e (nw_ops w)) (ph e)"
    by (simp add: conn_at_def)
  with c have "ph e = NoLongerUsed" by (auto simp: conn_ok_def cached_def reg_has_def)
  with ok have "results_used ?R (nw_registry w) e"
    by (auto simp: conn_ok_def results_used_def accept_used_def detect_used_def reg_has_def)
  moreover have "\<not> reg_has ?R (populateDelayed ?H e (nw_registry w)) e KRecieved"
    using ok registry.helpers_delayed(2) [OF R H(1), of e e KRecieved] by (simp add: reg_has_def delayed_tags_def conn_ok_def)
  ultimately show "results_used ?R (nw_registry w) e \<and>
      (b = Debug \<longrightarrow> whitelisted_components ?H (populateDelayed ?H e (nw_registry w)) e \<and>
        whitelisted_vars ?H (populateDelayed ?H e (nw_registry w)) e)"
    using H(2) by (simp add: helpers_reset_def)
qed

text \<open>The listener's half of an allocation, on an entity with a connection.\<close>

lemma accept_allocated:
  assumes "registry R" and "alloc r = Inr (e, r1)" and "reg_find R r1 e KTcp = Some (CTcp tcp)"
  shows "allocateTcpResourceAndAccept R alloc (at b RegistrySequence) False r =
    Inr (reg_set R r1 e (CTcp (tcp\<lparr>ctx_strand := True\<rparr>)), [PostAsyncAccept e])"
  using assms registry.find_valid [OF assms(1,3)] registry.valid_set [OF assms(1)]
  by (simp add: allocateTcpResourceAndAccept_def ioc_guard_def with_tcp_def reg_has_def Let_def)

text \<open>The entity that the allocator answers with is new or no longer used, and clean once it has its strand.\<close>

definition allocates ::
  "('r, 's, 'q, 'a) net_env \<Rightarrow> ('r, 's) net_world \<Rightarrow> conn_phase \<Rightarrow> entity \<Rightarrow> 'r \<Rightarrow> ('s, 'q) TcpConnection \<Rightarrow> bool" where
  "allocates N w p e r tcp =
     (allocateTcpEntity (ne_registry N) (ne_helpers N) (at (ne_build N) RegistrySequence) (nw_registry w) = Inr (e, r) \<and>
      p \<in> {Gone, NoLongerUsed} \<and> ops_for e (nw_ops w) = [] \<and> reg_find (ne_registry N) r e KTcp = Some (CTcp tcp) \<and>
      (\<forall>x. x \<noteq> e \<longrightarrow> reg_valid (ne_registry N) r x = reg_valid (ne_registry N) (nw_registry w) x \<and>
         reg_find (ne_registry N) r x = reg_find (ne_registry N) (nw_registry w) x) \<and>
      conn_ok (ne_sockets N) e ((reg_find (ne_registry N) r e)(KTcp \<mapsto> CTcp (tcp\<lparr>ctx_strand := True\<rparr>)))
        [ConnAsyncAccept] Allocated)"

lemma allocates_cached:
  assumes N: "net_env_ok N" and at: "\<forall>x. conn_at N w x (ph x)"
    and some: "findEntity (ne_helpers N) (nw_registry w) [KTcp, KTag UnusedTag] [KTag NeedToDestroyTag] = Some e"
  shows "\<exists>r tcp. allocates N w (ph e) e r tcp"
proof -
  let ?R = "ne_registry N" and ?H = "ne_helpers N" and ?r = "nw_registry w"
  note R = net_env_registry [OF N]
  have H: "helpers_ok ?R ?H" "helpers_reset ?R ?H" using N by (simp_all add: net_env_ok_def)
  note d = registry.helpers_delayed [OF R H(1)]
  have c: "cached ?R ?r e" using registry.helpers_find [OF R H(1), of ?r] some by simp
  then have v: "reg_valid ?R ?r e" using registry.has_valid [OF R] by (auto simp: cached_def)
  with at [THEN spec, of e] have ok: "conn_ok (ne_sockets N) e (reg_find ?R ?r e) (ops_for e (nw_ops w)) (ph e)"
    by (auto simp: conn_at_def split: if_splits)
  with c have p: "ph e = NoLongerUsed" by (auto simp: conn_ok_def cached_def reg_has_def)
  let ?r1 = "populateDelayed ?H e ?r"
  have keep: "reg_find ?R ?r1 e k = reg_find ?R ?r e k" if "k \<notin> insert (KTag UnusedTag) delayed_tags" for k
    using d(2) that by blast
  have reset: "reg_find ?R ?r1 e (KTag UnusedTag) = None" "reg_find ?R ?r1 e (KTag DelayedConstructionJustDone) = None"
    using H(2) v by (auto simp: helpers_reset_def reg_has_def)
  obtain tcp where tcp: "reg_find ?R ?r e KTcp = Some (CTcp tcp)" "channels_done (ne_sockets N) tcp"
    using ok p by (auto simp: conn_ok_def)
  have "conn_ok (ne_sockets N) e ((reg_find ?R ?r1 e)(KTcp \<mapsto> CTcp (tcp\<lparr>ctx_strand := True\<rparr>))) [ConnAsyncAccept] Allocated"
    using ok p tcp(2)
    by (simp add: conn_ok_def reset keep delayed_tags_def accept_used_def detect_used_def channels_done_def)
  moreover have "ops_for e (nw_ops w) = []" using ok p by (auto simp: conn_ok_def)
  moreover have "reg_find ?R ?r1 e KTcp = Some (CTcp tcp)" using tcp(1) by (simp add: keep delayed_tags_def)
  moreover have "reg_find ?R ?r1 x = reg_find ?R ?r x" if "x \<noteq> e" for x using d(2) that by blast
  ultimately have "allocates N w (ph e) e ?r1 tcp"
    using registry.allocate_cached [OF R H(1) some conn_reusable [OF N at, of "ne_build N"]] p d(1)
    by (simp add: allocates_def)
  then show ?thesis by blast
qed

lemma allocates_fresh:
  assumes N: "net_env_ok N" and at: "\<forall>x. conn_at N w x (ph x)"
    and none: "findEntity (ne_helpers N) (nw_registry w) [KTcp, KTag UnusedTag] [KTag NeedToDestroyTag] = None"
    and cr: "reg_create (ne_registry N) (nw_registry w) = (e, r1)"
  shows "\<exists>r tcp. allocates N w (ph e) e r tcp"
proof -
  let ?R = "ne_registry N" and ?H = "ne_helpers N" and ?r = "nw_registry w"
  note R = net_env_registry [OF N]
  have H: "helpers_ok ?R ?H" "helpers_reset ?R ?H" using N by (simp_all add: net_env_ok_def)
  note d = registry.helpers_delayed [OF R H(1)]
  note f = registry.allocate_fresh [OF R H(1) none cr]
  let ?r2 = "reg_set ?R r1 e (CTcp TcpConnection_new)"
  let ?r3 = "populateDelayed ?H e ?r2"
  have g: "ph e = Gone" "ops_for e (nw_ops w) = []"
    using at [THEN spec, of e] f(2) by (auto simp: conn_at_def split: if_splits)
  have find2: "reg_find ?R ?r2 x k = (if x = e \<and> k = KTcp then Some (CTcp TcpConnection_new) else reg_find ?R r1 x k)" for x k
    using registry.find_set [OF R f(3)] by simp
  have v2: "reg_valid ?R ?r2 e" using registry.valid_set [OF R f(3)] f(3) by simp
  have keep: "reg_find ?R ?r3 e k = (if k = KTcp then Some (CTcp TcpConnection_new) else None)"
    if "k \<notin> insert (KTag UnusedTag) delayed_tags" for k
    using d(2) [of e e k ?r2] that f(4) by (simp add: find2)
  have reset: "reg_find ?R ?r3 e (KTag UnusedTag) = None" "reg_find ?R ?r3 e (KTag DelayedConstructionJustDone) = None"
    using H(2) v2 by (auto simp: helpers_reset_def reg_has_def)
  have clean: "channels_done (ne_sockets N) (TcpConnection_new\<lparr>ctx_strand := True\<rparr>)"
    by (simp add: channels_done_def TcpConnection_new_def)
  have "conn_ok (ne_sockets N) e ((reg_find ?R ?r3 e)(KTcp \<mapsto> CTcp (TcpConnection_new\<lparr>ctx_strand := True\<rparr>)))
      [ConnAsyncAccept] Allocated"
    using clean by (simp add: conn_ok_def reset keep delayed_tags_def accept_used_def detect_used_def)
  moreover have "reg_find ?R ?r3 e KTcp = Some (CTcp TcpConnection_new)" by (simp add: keep delayed_tags_def)
  moreover have "reg_find ?R ?r3 x = reg_find ?R ?r x" if "x \<noteq> e" for x
    using d(2) that by (auto simp: fun_eq_iff find2 registry.create_find [OF R cr])
  moreover have "reg_valid ?R ?r3 x = reg_valid ?R ?r x" if "x \<noteq> e" for x
    using that d(1) registry.valid_set [OF R f(3)] registry.create_valid [OF R cr] by simp
  ultimately have "allocates N w (ph e) e ?r3 TcpConnection_new" using f(1) g by (simp add: allocates_def)
  then show ?thesis by blast
qed

lemma allocate_advances:
  assumes N: "net_env_ok N" and at: "\<forall>x. conn_at N w x (ph x)"
  shows "\<exists>w' e. net_allocate N w = Inr w' \<and> ph e \<in> {Gone, NoLongerUsed} \<and> (\<forall>x. conn_at N w' x ((ph(e := Allocated)) x))"
proof -
  let ?R = "ne_registry N" and ?r = "nw_registry w" and ?b = "ne_build N"
  let ?alloc = "allocateTcpEntity ?R (ne_helpers N) (at ?b RegistrySequence)"
  note R = net_env_registry [OF N]
  obtain e r1 tcp where a: "allocates N w (ph e) e r1 tcp"
    using allocates_cached [OF N at] allocates_fresh [OF N at]
    by (cases "findEntity (ne_helpers N) ?r [KTcp, KTag UnusedTag] [KTag NeedToDestroyTag]"; cases "reg_create ?R ?r") blast+
  note a' = a [unfolded allocates_def]
  have tcp: "reg_find ?R r1 e KTcp = Some (CTcp tcp)" using a' by blast
  have v: "reg_valid ?R r1 e" by (rule registry.find_valid [OF R tcp])
  let ?r2 = "reg_set ?R r1 e (CTcp (tcp\<lparr>ctx_strand := True\<rparr>))"
  let ?w = "\<lparr>nw_registry = ?r2, nw_ops = nw_ops w @ [(e, ConnAsyncAccept)]\<rparr>"
  have "net_allocate N w = Inr ?w"
    using accept_allocated [where alloc = ?alloc, OF R _ tcp, of ?r ?b] a' by (simp add: net_allocate_def)
  moreover have "conn_at N ?w x ((ph(e := Allocated)) x)" for x
  proof (cases "x = e")
    case True
    with a' registry.valid_set [OF R v] v find_set_context [OF R v] show ?thesis by (simp add: conn_at_def)
  next
    case False
    have "conn_at N ?w x (ph x)"
      by (rule conn_at_frame [OF at [THEN spec, of x]])
         (use False a' registry.valid_set [OF R v] registry.find_set [OF R v] in \<open>auto simp: fun_eq_iff\<close>)
    with False show ?thesis by simp
  qed
  ultimately show ?thesis using a' by blast
qed

subsection \<open>Operations\<close>

lemma conn_ok_one_op: "conn_ok A e f ops p \<Longrightarrow> length ops \<le> 1"
  by (cases p) (auto simp: conn_ok_def)

text \<open>Where an outstanding operation stands: its entity is alive and has no other.\<close>

lemma operation_alone:
  assumes "conn_at N w e p" and "nw_ops w = ops1 @ (e, op) # ops2"
  shows "reg_valid (ne_registry N) (nw_registry w) e"
    and "conn_ok (ne_sockets N) e (reg_find (ne_registry N) (nw_registry w) e) [op] p"
    and "ops_for e ops1 = []" and "ops_for e ops2 = []"
proof -
  have p: "p \<noteq> Gone" using assms by (auto simp: conn_at_def)
  with assms have ok: "conn_ok (ne_sockets N) e (reg_find (ne_registry N) (nw_registry w) e) (ops_for e ops1 @ op # ops_for e ops2) p"
    and v: "reg_valid (ne_registry N) (nw_registry w) e" by (simp_all add: conn_at_def)
  from conn_ok_one_op [OF ok] have "ops_for e ops1 = [] \<and> ops_for e ops2 = []" by simp
  with ok v show "reg_valid (ne_registry N) (nw_registry w) e" "ops_for e ops1 = []" "ops_for e ops2 = []"
    "conn_ok (ne_sockets N) e (reg_find (ne_registry N) (nw_registry w) e) [op] p" by simp_all
qed

lemma operation_advances:
  assumes N: "net_env_ok N" and at: "\<forall>x. conn_at N w x (ph x)" and ops: "nw_ops w = ops1 @ (e, op) # ops2"
    and c: "completion_ok N c"
  shows "\<exists>r new q. conn_complete N c e op (nw_registry w) = Inr (r, new) \<and>
    (phase_edge (ph e) q \<or> q = ph e \<and> (goes_on c op \<or> op_rest (map snd new) < op_rest [op])) \<and>
    (q = Upgrading \<longrightarrow> \<not> failed (cp_ec c)) \<and> ops_for e new = map snd new \<and>
    (\<forall>x. conn_at N \<lparr>nw_registry = r, nw_ops = ops1 @ ops2 @ new\<rparr> x ((ph(e := q)) x)) \<and>
    (\<forall>x. x \<noteq> e \<longrightarrow> ops_for x (ops1 @ ops2 @ new) = ops_for x (nw_ops w) \<and>
       reg_find (ne_registry N) r x = reg_find (ne_registry N) (nw_registry w) x)"
proof -
  note alone = operation_alone [OF at [THEN spec] ops]
  from complete_advances [OF N c alone(1,2)] obtain r new q where
    a: "conn_complete N c e op (nw_registry w) = Inr (r, new)" "same_elsewhere (ne_registry N) (nw_registry w) r {e}"
    "fst ` set new \<subseteq> {e}" "phase_edge (ph e) q \<or> q = ph e \<and> (goes_on c op \<or> op_rest (map snd new) < op_rest [op])"
    "conn_ok (ne_sockets N) e (reg_find (ne_registry N) r e) (map snd new) q" "q = Upgrading \<longrightarrow> \<not> failed (cp_ec c)"
    unfolding advances_def by blast
  let ?w = "\<lparr>nw_registry = r, nw_ops = ops1 @ ops2 @ new\<rparr>"
  have other: "ops_for x (ops1 @ ops2 @ new) = ops_for x (nw_ops w)" if "x \<noteq> e" for x
    using that by (simp add: ops ops_for_one [OF a(3)])
  have find: "reg_find (ne_registry N) r x = reg_find (ne_registry N) (nw_registry w) x" if "x \<noteq> e" for x
    using same_elsewhere_find [OF a(2)] that by simp
  have "conn_at N ?w x ((ph(e := q)) x)" for x
  proof (cases "x = e")
    case True
    have "reg_valid (ne_registry N) r e" using a(2) alone(1) by (simp add: same_elsewhere_def)
    with True a(5) alone(3,4) show ?thesis by (auto intro!: conn_atI simp: ops_for_one [OF a(3)])
  next
    case False
    have "conn_at N ?w x (ph x)"
      by (rule conn_at_frame [OF at [THEN spec, of x]])
         (use a(2) find [OF False] other [OF False] in \<open>simp_all add: same_elsewhere_def\<close>)
    with False show ?thesis by simp
  qed
  moreover have "ops_for e new = map snd new" using ops_for_one [OF a(3), of e] by simp
  ultimately show ?thesis
    by (intro exI [of _ r] exI [of _ new] exI [of _ q] conjI a(1,4,6) allI impI other find) assumption+
qed

subsection \<open>The simulation\<close>

lemma net_simulation:
  assumes N: "net_env_ok N"
  shows "simulation (net_start N) (net_step N) phases_start phases_step
    (\<lambda>s ph. \<exists>w. s = Inr w \<and> (\<forall>e. conn_at N w e (ph e)))"
proof unfold_locales
  fix s assume "net_start N s"
  then show "\<exists>ph. phases_start ph \<and> (\<exists>w. s = Inr w \<and> (\<forall>e. conn_at N w e (ph e)))"
    by (intro exI [of _ "\<lambda>_. Gone"]) (auto simp: net_start_def phases_start_def conn_at_def)
next
  fix s ph t assume "\<exists>w. s = Inr w \<and> (\<forall>e. conn_at N w e (ph e))" and step: "net_step N s t"
  then obtain w where w: "s = Inr w" and at: "\<forall>e. conn_at N w e (ph e)" by blast
  from step show "\<exists>ph'. phases_step ph ph' \<and> (\<exists>w. t = Inr w \<and> (\<forall>e. conn_at N w e (ph' e)))"
  proof (rule net_stepE)
    fix w' assume "s = Inr w'" "t = net_allocate N w'"
    with w allocate_advances [OF N at] obtain w1 e where
      "t = Inr w1" "ph e \<in> {Gone, NoLongerUsed}" "\<forall>x. conn_at N w1 x ((ph(e := Allocated)) x)" by auto
    then show ?thesis by (intro exI [of _ "ph(e := Allocated)"]) (auto simp: phases_step_def)
  next
    fix w' ops1 e op ops2 c
    assume 1: "s = Inr w'" "t = andThen (conn_complete N c e op (nw_registry w')) (\<lambda>(r, new).
        Inr \<lparr>nw_registry = r, nw_ops = ops1 @ ops2 @ new\<rparr>)" "nw_ops w' = ops1 @ (e, op) # ops2" "completion_ok N c"
    with w have "w' = w" by simp
    with operation_advances [OF N at _ 1(4)] 1(3) obtain r new q where
      "conn_complete N c e op (nw_registry w) = Inr (r, new)" "phase_edge (ph e) q \<or> q = ph e"
      "\<forall>x. conn_at N \<lparr>nw_registry = r, nw_ops = ops1 @ ops2 @ new\<rparr> x ((ph(e := q)) x)" by blast
    with 1(2) \<open>w' = w\<close> show ?thesis by (intro exI [of _ "ph(e := q)"]) (auto simp: phases_step_def)
  next
    fix w' u assume "s = Inr w'" "t = net_update N u w'"
    with w update_advances [OF N at, of u] obtain w1 ph1 where
      "t = Inr w1" "\<forall>x. conn_at N w1 x (ph1 x)"
      "\<forall>x. update_moves (ne_excluded N) (reg_find (ne_registry N) (nw_registry w) x) (ph x) (ph1 x)" by auto
    then show ?thesis using update_moves_edge by (intro exI [of _ ph1]) (fastforce simp: phases_step_def)
  qed
qed

end
