(* ===== verification/Connection_End.thy ===== *)
theory Connection_End
  imports Connection_Lifecycle
begin

text \<open>
  Every connection can come to its end, whatever state the server is in: a rank of the connections that completed operations
  and updates lower, and the two properties of the machine of \<open>Connection_Run\<close>.
\<close>

subsection \<open>The rank of a connection\<close>

fun phase_rank :: "conn_phase \<Rightarrow> nat" where
  "phase_rank Gone = 0"
| "phase_rank Allocated = 12"
| "phase_rank Accepting = 11"
| "phase_rank Dropped = 0"
| "phase_rank Accepted = 10"
| "phase_rank AcceptWaiting = 9"
| "phase_rank Detecting = 7"
| "phase_rank Detected = 6"
| "phase_rank DetectWaiting = 5"
| "phase_rank InHttp = 3"
| "phase_rank HttpEnded = 2"
| "phase_rank Upgrading = 2"
| "phase_rank InWebsocket = 0"
| "phase_rank NoLongerUsed = 1"

text \<open>The updates that the construction of an entity still takes.\<close>

definition tag_rank :: "('s, 'q) view \<Rightarrow> nat" where
  "tag_rank f = (if f (KTag DelayedConstruction) \<noteq> None then 2
     else if f (KTag DelayedConstructionJustDone) \<noteq> None then 1 else 0)"

definition conn_rank :: "conn_phase \<Rightarrow> 's conn_op list \<Rightarrow> ('s, 'q) view \<Rightarrow> nat" where
  "conn_rank p ops f = 3 * (phase_rank p + op_rest ops) + tag_rank f"

definition net_rank ::
  "('r, 's, 'q, 'a) net_env \<Rightarrow> entity set \<Rightarrow> ('r, 's) net_world \<Rightarrow> (entity \<Rightarrow> conn_phase) \<Rightarrow> nat" where
  "net_rank N V w ph =
     (\<Sum>x \<in> V. conn_rank (ph x) (ops_for x (nw_ops w)) (reg_find (ne_registry N) (nw_registry w) x))"

lemma tag_rank_bound: "tag_rank f \<le> 2"
  by (simp add: tag_rank_def)

lemma construction_lowers:
  "construction_moves f f' \<Longrightarrow> tag_rank f' \<le> tag_rank f \<and> (tag_rank f \<noteq> 0 \<longrightarrow> tag_rank f' < tag_rank f)"
  by (auto simp: construction_moves_def tag_rank_def)

lemma op_rest_bound: "conn_at N w e p \<Longrightarrow> op_rest (ops_for e (nw_ops w)) \<le> (if p \<in> {Detecting, InHttp} then 1 else 0)"
  by (cases p) (auto simp: conn_at_def conn_ok_def op_rest_def split: http_op.split)

text \<open>A connection with an operation: an edge lowers the rank by more than the tags can raise it.\<close>

lemma edge_lowers:
  assumes "conn_ok A e f [op] p" and "phase_edge p q" and "k \<le> (if q \<in> {Detecting, InHttp} then 1 else 0)"
  shows "phase_rank q + k < phase_rank p + op_rest [op]"
  using assms by (cases p) (auto simp: conn_ok_def split: if_splits)

subsection \<open>Operations and updates lower it\<close>

text \<open>Without allocations and requests, only what is allocated may be dropped, and only what is upgraded already becomes a websocket.\<close>

definition comes_from :: "conn_phase \<Rightarrow> conn_phase \<Rightarrow> bool" where
  "comes_from p q = ((q \<in> {Allocated, Dropped} \<longrightarrow> p \<in> {Allocated, Dropped}) \<and>
     (q \<in> {Upgrading, InWebsocket} \<longrightarrow> p \<in> {Upgrading, InWebsocket}))"

lemma comes_from_refl [simp]: "comes_from p p"
  by (simp add: comes_from_def)

lemma comes_from_trans: "comes_from p q \<Longrightarrow> comes_from q r \<Longrightarrow> comes_from p r"
  by (auto simp: comes_from_def)

lemma edge_comes_from:
  "conn_ok A e f [op] p \<Longrightarrow> phase_edge p q \<Longrightarrow> q \<noteq> Upgrading \<Longrightarrow> comes_from p q"
  by (cases p) (auto simp: conn_ok_def comes_from_def)

lemma update_comes_from: "update_moves nc f p q \<Longrightarrow> comes_from p q"
  by (auto simp: update_moves_def comes_from_def split: if_splits)

lemma completion_exists:
  assumes "net_env_ok (N :: ('r, 's, 'q, 'a) net_env)"
  shows "\<exists>c :: ('s, 'a) completion. completion_ok N c \<and> failed (cp_ec c)"
proof -
  have "completion_ok N \<lparr>cp_ec = OperationAborted, cp_fail_point = False, cp_socket = fst (close_fd (ne_sockets N) s),
      cp_listener = \<lparr>ls_acceptor = a, ls_state = Listener_STARTED\<rparr>, cp_handshake = False, cp_received = [],
      cp_request = req\<rparr>" for s :: 's and a :: 'a and req
    using assms by (simp add: completion_ok_def net_env_ok_def socket_laws_def)
  then show ?thesis by (metis completion.select_convs(1) failed_simps(4))
qed

lemma operation_lowers:
  assumes N: "net_env_ok N" and V: "finite V" and at: "\<forall>x. conn_at N w x (ph x)" and gone: "\<forall>x. x \<notin> V \<longrightarrow> ph x = Gone"
    and ops: "nw_ops w = ops1 @ (e, op) # ops2" and op: "\<And>req. op \<noteq> ConnWsAccept req"
  shows "\<exists>w' ph'. net_step N (Inr w) (Inr w') \<and> (\<forall>x. conn_at N w' x (ph' x)) \<and> (\<forall>x. x \<notin> V \<longrightarrow> ph' x = Gone) \<and>
    net_rank N V w' ph' < net_rank N V w ph \<and> (\<forall>x. comes_from (ph x) (ph' x))"
proof -
  obtain c where c: "completion_ok N c" "failed (cp_ec c)" using completion_exists [OF N] by blast
  from operation_advances [OF N at ops c(1)] obtain r new q where
    a: "conn_complete N c e op (nw_registry w) = Inr (r, new)"
    "phase_edge (ph e) q \<or> q = ph e \<and> (goes_on c op \<or> op_rest (map snd new) < op_rest [op])" "ops_for e new = map snd new"
    "\<forall>x. conn_at N \<lparr>nw_registry = r, nw_ops = ops1 @ ops2 @ new\<rparr> x ((ph(e := q)) x)"
    "\<forall>x. x \<noteq> e \<longrightarrow> ops_for x (ops1 @ ops2 @ new) = ops_for x (nw_ops w) \<and>
       reg_find (ne_registry N) r x = reg_find (ne_registry N) (nw_registry w) x"
    "q = Upgrading \<longrightarrow> \<not> failed (cp_ec c)" by blast
  let ?w = "\<lparr>nw_registry = r, nw_ops = ops1 @ ops2 @ new\<rparr>"
  note alone = operation_alone [OF at [THEN spec] ops]
  have eV: "e \<in> V" using gone conn_ok_not_gone [OF alone(2)] by blast
  have o: "ops_for e (nw_ops w) = [op]" "ops_for e (nw_ops ?w) = map snd new" using ops alone(3,4) a(3) by simp_all
  have stays: "\<not> goes_on c op" using op c(2) by (simp add: goes_on_def split: conn_op.split)
  have "phase_rank q + op_rest (map snd new) < phase_rank (ph e) + op_rest [op]"
    using a(2) stays edge_lowers [OF alone(2), of q "op_rest (map snd new)"] op_rest_bound [OF a(4) [THEN spec, of e]] o(2)
    by auto
  then have less: "conn_rank q (map snd new) f' < conn_rank (ph e) [op] f" for f' f :: "('b, 'c) view"
    using tag_rank_bound [of f'] by (simp add: conn_rank_def)
  have "net_rank N V ?w (ph(e := q)) < net_rank N V w ph"
    unfolding net_rank_def
  proof (rule sum_strict_mono_ex1 [OF V])
    show "\<forall>x \<in> V. conn_rank ((ph(e := q)) x) (ops_for x (nw_ops ?w)) (reg_find (ne_registry N) (nw_registry ?w) x)
        \<le> conn_rank (ph x) (ops_for x (nw_ops w)) (reg_find (ne_registry N) (nw_registry w) x)"
    proof
      fix x
      show "conn_rank ((ph(e := q)) x) (ops_for x (nw_ops ?w)) (reg_find (ne_registry N) (nw_registry ?w) x)
        \<le> conn_rank (ph x) (ops_for x (nw_ops w)) (reg_find (ne_registry N) (nw_registry w) x)"
        using less a(5) o by (cases "x = e") (auto intro: less_imp_le)
    qed
    show "\<exists>x \<in> V. conn_rank ((ph(e := q)) x) (ops_for x (nw_ops ?w)) (reg_find (ne_registry N) (nw_registry ?w) x)
        < conn_rank (ph x) (ops_for x (nw_ops w)) (reg_find (ne_registry N) (nw_registry w) x)"
      using less o by (intro bexI [OF _ eV]) auto
  qed
  moreover have "net_step N (Inr w) (Inr ?w)" using step_operation [OF ops c(1)] a(1) by simp
  moreover have "comes_from (ph e) q" using a(2,6) c(2) edge_comes_from [OF alone(2)] by auto
  ultimately show ?thesis using a(4) gone eV by (intro exI [of _ ?w] exI [of _ "ph(e := q)"]) auto
qed

text \<open>Without operations but those of websockets, a connection waits for an update, or for nothing.\<close>

lemma idle_phase:
  assumes "conn_at N w e p" and "\<forall>(x, op) \<in> set (nw_ops w). \<exists>req. op = ConnWsAccept req"
  shows "p \<in> {Gone, Dropped, InWebsocket, AcceptWaiting, DetectWaiting, NoLongerUsed}"
proof -
  have "\<forall>op \<in> set (ops_for e (nw_ops w)). \<exists>req. op = ConnWsAccept req" using assms(2) by (auto simp: ops_for_def)
  with assms(1) show ?thesis by (cases p) (auto simp: conn_at_def conn_ok_def)
qed

lemma gone_rank:
  assumes "net_env_ok N" and "conn_at N w e Gone"
  shows "conn_rank Gone (ops_for e (nw_ops w)) (reg_find (ne_registry N) (nw_registry w) e) = 0"
  using assms(2) registry.invalid_find [OF net_env_registry [OF assms(1)]]
  by (simp add: conn_at_def conn_rank_def op_rest_def tag_rank_def)

lemma update_lowers_one:
  assumes N: "net_env_ok N" and at: "conn_at N w e p" "conn_at N w' e q"
    and p: "p \<in> {Gone, Dropped, InWebsocket, AcceptWaiting, DetectWaiting, NoLongerUsed}"
    and moves: "update_moves (ne_excluded N) (reg_find (ne_registry N) (nw_registry w) e) p q"
    and tags: "q \<noteq> Gone \<longrightarrow> construction_moves (reg_find (ne_registry N) (nw_registry w) e)
      (reg_find (ne_registry N) (nw_registry w') e)"
  shows "conn_rank q (ops_for e (nw_ops w')) (reg_find (ne_registry N) (nw_registry w') e)
      \<le> conn_rank p (ops_for e (nw_ops w)) (reg_find (ne_registry N) (nw_registry w) e)"
    and "p \<in> {AcceptWaiting, DetectWaiting, NoLongerUsed} \<Longrightarrow>
      conn_rank q (ops_for e (nw_ops w')) (reg_find (ne_registry N) (nw_registry w') e)
      < conn_rank p (ops_for e (nw_ops w)) (reg_find (ne_registry N) (nw_registry w) e)"
proof -
  let ?f = "reg_find (ne_registry N) (nw_registry w) e" and ?f' = "reg_find (ne_registry N) (nw_registry w') e"
  let ?le = "conn_rank q (ops_for e (nw_ops w')) ?f' \<le> conn_rank p (ops_for e (nw_ops w)) ?f \<and>
    (p \<in> {AcceptWaiting, DetectWaiting, NoLongerUsed} \<longrightarrow>
      conn_rank q (ops_for e (nw_ops w')) ?f' < conn_rank p (ops_for e (nw_ops w)) ?f)"
  have busy: "tag_rank ?f \<noteq> 0" if "hidden (ne_excluded N) ?f" "p \<noteq> Gone"
  proof -
    have "?f (KTag NeedToDestroyTag) = None" using at(1) that(2) by (simp add: conn_at_def conn_ok_def)
    with that(1) N show ?thesis by (auto simp: hidden_def net_env_ok_def construction_tags_def tag_rank_def)
  qed
  have ?le
  proof (cases "q = Gone")
    case True
    have "conn_rank q (ops_for e (nw_ops w')) ?f' = 0" using gone_rank [OF N] at(2) True by simp
    then show ?thesis using p by (auto simp: conn_rank_def)
  next
    case False
    note t = construction_lowers [OF tags [rule_format, OF False]]
    note b = op_rest_bound [OF at(1)] op_rest_bound [OF at(2)]
    show ?thesis
    proof (cases "q = p")
      case True
      then have "op_rest (ops_for e (nw_ops w')) = 0" "op_rest (ops_for e (nw_ops w)) = 0" using b p by auto
      moreover have "p \<in> {AcceptWaiting, DetectWaiting, NoLongerUsed} \<Longrightarrow> tag_rank ?f \<noteq> 0"
        using moves busy True False by (auto simp: update_moves_def split: if_splits)
      ultimately show ?thesis using t True by (auto simp: conn_rank_def)
    next
      case False
      then have "phase_rank q + op_rest (ops_for e (nw_ops w')) < phase_rank p"
        using moves b(2) \<open>q \<noteq> Gone\<close> by (auto simp: update_moves_def split: if_splits)
      with t show ?thesis by (simp add: conn_rank_def)
    qed
  qed
  then show "conn_rank q (ops_for e (nw_ops w')) ?f' \<le> conn_rank p (ops_for e (nw_ops w)) ?f"
    "p \<in> {AcceptWaiting, DetectWaiting, NoLongerUsed} \<Longrightarrow>
      conn_rank q (ops_for e (nw_ops w')) ?f' < conn_rank p (ops_for e (nw_ops w)) ?f" by blast+
qed

lemma update_lowers:
  assumes N: "net_env_ok N" and V: "finite V" and at: "\<forall>x. conn_at N w x (ph x)" and gone: "\<forall>x. x \<notin> V \<longrightarrow> ph x = Gone"
    and idle: "\<forall>(x, op) \<in> set (nw_ops w). \<exists>req. op = ConnWsAccept req"
    and e: "ph e \<notin> {Gone, Dropped, InWebsocket}"
  shows "\<exists>w' ph'. net_step N (Inr w) (Inr w') \<and> (\<forall>x. conn_at N w' x (ph' x)) \<and> (\<forall>x. x \<notin> V \<longrightarrow> ph' x = Gone) \<and>
    net_rank N V w' ph' < net_rank N V w ph \<and> (\<forall>x. comes_from (ph x) (ph' x))"
proof -
  let ?u = "NetworkEntityUpdater_new (\<lambda>_. None) (\<lambda>_. None) 1"
  from update_advances [OF N at, of ?u] obtain w' ph' where
    u: "net_update N ?u w = Inr w'" "\<forall>x. conn_at N w' x (ph' x)"
    "\<forall>x. update_moves (ne_excluded N) (reg_find (ne_registry N) (nw_registry w) x) (ph x) (ph' x)"
    "\<forall>x. ph' x \<noteq> Gone \<longrightarrow> construction_moves (reg_find (ne_registry N) (nw_registry w) x)
       (reg_find (ne_registry N) (nw_registry w') x)" by blast
  note p = idle_phase [OF at [THEN spec] idle]
  note one = update_lowers_one [OF N at [THEN spec] u(2) [THEN spec] p u(3) [THEN spec] u(4) [THEN spec]]
  have "ph e \<in> {AcceptWaiting, DetectWaiting, NoLongerUsed}" using p [of e] e by auto
  note less = one(2) [OF this]
  have eV: "e \<in> V" using gone e by auto
  have "net_rank N V w' ph' < net_rank N V w ph"
    unfolding net_rank_def by (rule sum_strict_mono_ex1 [OF V]) (use one(1) less eV in blast)+
  moreover have "\<forall>x. x \<notin> V \<longrightarrow> ph' x = Gone"
    using gone u(3) by (auto simp: update_moves_def)
  moreover have "net_step N (Inr w) (Inr w')" using step_update [of N w ?u] u(1) by simp
  moreover have "\<forall>x. comes_from (ph x) (ph' x)" using u(3) update_comes_from by blast
  ultimately show ?thesis using u(2) by blast
qed

lemma connections_come_to_an_end:
  assumes N: "net_env_ok N" and V: "finite V" and at: "\<forall>x. conn_at N w x (ph x)" and gone: "\<forall>x. x \<notin> V \<longrightarrow> ph x = Gone"
  shows "\<exists>w' ph'. (net_step N)\<^sup>*\<^sup>* (Inr w) (Inr w') \<and> (\<forall>x. conn_at N w' x (ph' x)) \<and>
    (\<forall>x. ph' x \<in> {Gone, Dropped, InWebsocket} \<and> comes_from (ph x) (ph' x))"
  using at gone
proof (induction "net_rank N V w ph" arbitrary: w ph rule: less_induct)
  case less
  show ?case
  proof (cases "\<forall>x. ph x \<in> {Gone, Dropped, InWebsocket}")
    case True
    with less.prems(1) show ?thesis by (intro exI [of _ w] exI [of _ ph]) simp
  next
    case False
    then obtain e where e: "ph e \<notin> {Gone, Dropped, InWebsocket}" by blast
    have "\<exists>w' ph'. net_step N (Inr w) (Inr w') \<and> (\<forall>x. conn_at N w' x (ph' x)) \<and> (\<forall>x. x \<notin> V \<longrightarrow> ph' x = Gone) \<and>
      net_rank N V w' ph' < net_rank N V w ph \<and> (\<forall>x. comes_from (ph x) (ph' x))"
    proof (cases "\<forall>(x, op) \<in> set (nw_ops w). \<exists>req. op = ConnWsAccept req")
      case True
      show ?thesis by (rule update_lowers [OF N V less.prems True e])
    next
      case False
      then obtain x op where "(x, op) \<in> set (nw_ops w)" "\<And>req. op \<noteq> ConnWsAccept req" by blast
      then show ?thesis using operation_lowers [OF N V less.prems] by (metis split_list)
    qed
    then obtain w1 ph1 where 1: "net_step N (Inr w) (Inr w1)" "\<forall>x. conn_at N w1 x (ph1 x)" "\<forall>x. x \<notin> V \<longrightarrow> ph1 x = Gone"
      "net_rank N V w1 ph1 < net_rank N V w ph" "\<forall>x. comes_from (ph x) (ph1 x)" by blast
    from less.hyps [OF 1(4,2,3)] obtain w' ph' where
      "(net_step N)\<^sup>*\<^sup>* (Inr w1) (Inr w')" "\<forall>x. conn_at N w' x (ph' x)" 
      "\<forall>x. ph' x \<in> {Gone, Dropped, InWebsocket} \<and> comes_from (ph1 x) (ph' x)" by blast
    with 1(1,5) show ?thesis by (meson converse_rtranclp_into_rtranclp comes_from_trans)
  qed
qed

end
