(* ===== verification/Connection_Properties.thy ===== *)
theory Connection_Properties
  imports Connection_End
begin

text \<open>
  The properties of all connections together, and a server for evaluation: one connection is accepted, found not to speak TLS,
  answered once over HTTP and destroyed.
\<close>

subsection \<open>A server for evaluation\<close>

definition reset_helpers :: "(demo_socket, ring) ref_registry ecs_helpers" where
  "reset_helpers = demo_helpers\<lparr>populateDelayed := (\<lambda>e r. if reg_valid ref_api r e then
     reg_set ref_api (reg_remove ref_api (reg_remove ref_api r e (KTag UnusedTag)) e (KTag DelayedConstructionJustDone)) e
       (CTag DelayedConstruction) else r)\<rparr>"

definition demo_env_net :: "build \<Rightarrow> ((demo_socket, ring) ref_registry, demo_socket, ring, demo_acceptor) net_env" where
  "demo_env_net b = \<lparr>ne_build = b, ne_sockets = demo_api, ne_peer = (\<lambda>_. True), ne_acceptor = demo_acceptor_api,
     ne_registry = ref_api, ne_helpers = reset_helpers,
     ne_excluded = [KTag NeedToDestroyTag, KTag DelayedConstruction],
     ne_relations = \<lparr>has_first_child = \<lambda>_ _. False, top_level_children = \<lambda>_ _. [], removeTopLevelChildrenFromView = \<lambda>r. r\<rparr>,
     ne_host = demo_host, ne_need_eof = (\<lambda>_. True), ne_ring = ring_api, ne_beast_version = ''B'', ne_ws_is_open = (\<lambda>_. False)\<rparr>"

lemma reset_helpers_ok: "helpers_ok ref_api reset_helpers" "helpers_reset ref_api reset_helpers"
proof -
  have f: "findEntity reset_helpers = findEntity demo_helpers" by (simp add: reset_helpers_def)
  show "helpers_ok ref_api reset_helpers"
    using demo_helpers_ok unfolding helpers_ok_def f
    by (auto simp: reset_helpers_def delayed_tags_def reg_has_def split: if_splits)
  show "helpers_reset ref_api reset_helpers"
    by (auto simp: helpers_reset_def reset_helpers_def demo_helpers_def reg_has_def)
qed

lemma demo_env_net_ok: "net_env_ok (demo_env_net b)"
  using reset_helpers_ok demo_api_laws ref.registry_axioms
  by (simp add: net_env_ok_def demo_env_net_def construction_tags_def)

text \<open>A schedule: the oldest operation, and an update when there is none.\<close>

definition schedule ::
  "('r, 's, 'q, 'a) net_env \<Rightarrow> ('s, 'a) completion \<Rightarrow> ('r, 's) net_world \<Rightarrow> ('r, 's) net_world result" where
  "schedule N c w = (case nw_ops w of
     [] \<Rightarrow> net_update N demo_updater w
   | (e, op) # ops \<Rightarrow> andThen (conn_complete N c e op (nw_registry w)) (\<lambda>(r, new).
       Inr \<lparr>nw_registry = r, nw_ops = ops @ new\<rparr>))"

lemma schedule_steps:
  "net_reach N (Inr w) \<Longrightarrow> \<forall>c \<in> set cs. completion_ok N c \<Longrightarrow> foldM (schedule N) cs w = Inr w' \<Longrightarrow> net_reach N (Inr w')"
proof (induction cs arbitrary: w)
  case (Cons c cs)
  then obtain w1 where w1: "schedule N c w = Inr w1" "foldM (schedule N) cs w1 = Inr w'" by (auto simp: result_simps)
  have "net_step N (Inr w) (schedule N c w)"
  proof (cases "nw_ops w")
    case Nil
    then show ?thesis by (simp add: schedule_def step_update)
  next
    case (Cons o' ops)
    obtain e op where "o' = (e, op)" by force
    with Cons step_operation [of w "[]" e op ops N c] Cons.prems(2) show ?thesis by (simp add: schedule_def)
  qed
  with w1(1) have "net_reach N (Inr w1)" using Cons.prems(1) reach_step by metis
  from Cons.IH [OF this _ w1(2)] Cons.prems(2) show ?case by simp
qed simp

text \<open>Everything succeeds: the accept, the detection, which finds no TLS, a request, and its response.\<close>

definition demo_completion :: "(demo_socket, demo_acceptor) completion" where
  "demo_completion = \<lparr>cp_ec = Success, cp_fail_point = False, cp_socket = demo_conn,
     cp_listener = \<lparr>ls_acceptor = demo_acceptor\<lparr>da_open := True\<rparr>, ls_state = Listener_STARTED\<rparr>,
     cp_handshake = False, cp_received = ''GET'', cp_request = demo_get\<rparr>"

definition demo_world :: "build \<Rightarrow> nat \<Rightarrow> ((demo_socket, ring) ref_registry, demo_socket) net_world result" where
  "demo_world b n = andThen (net_allocate (demo_env_net b) \<lparr>nw_registry = ref_empty, nw_ops = []\<rparr>)
     (foldM (schedule (demo_env_net b)) (replicate n demo_completion))"

lemma demo_world_reach: "demo_world b n = Inr w \<Longrightarrow> net_reach (demo_env_net b) (Inr w)"
proof -
  assume w: "demo_world b n = Inr w"
  then obtain w0 where w0: "net_allocate (demo_env_net b) \<lparr>nw_registry = ref_empty, nw_ops = []\<rparr> = Inr w0"
    "foldM (schedule (demo_env_net b)) (replicate n demo_completion) w0 = Inr w"
    by (auto simp: demo_world_def result_simps)
  have "net_start (demo_env_net b) (Inr \<lparr>nw_registry = ref_empty, nw_ops = []\<rparr>)"
    by (simp add: net_start_def demo_env_net_def ref_api_def ref_valid_def ref_empty_def)
  then have "net_reach (demo_env_net b) (Inr w0)"
    using step_allocate [of "demo_env_net b" "\<lparr>nw_registry = ref_empty, nw_ops = []\<rparr>"] w0(1)
    by (metis reach_init reach_step)
  moreover have "completion_ok (demo_env_net b) demo_completion"
    by (simp add: completion_ok_def demo_env_net_def demo_completion_def)
  ultimately show ?thesis using schedule_steps w0(2) by (metis in_set_replicate)
qed

text \<open>After the accept, two updates and the start of the detector.\<close>

lemma demo_detecting:
  "map_sum id (\<lambda>w. (conn_phase_of (reg_find ref_api (nw_registry w) 0) (ops_for 0 (nw_ops w)), reg_valid ref_api (nw_registry w) 0))
     (demo_world Debug 5) = Inr (Detecting, True)"
  by code_simp

interpretation demo_net_sim: simulation "net_start (demo_env_net b)" "net_step (demo_env_net b)" phases_start phases_step
  "\<lambda>s ph. \<exists>w. s = Inr w \<and> (\<forall>e. conn_at (demo_env_net b) w e (ph e))" for b
  by (rule net_simulation [OF demo_env_net_ok])

lemma demo_detecting_world:
  "\<exists>w. demo_world Debug 5 = Inr w \<and> net_reach (demo_env_net Debug) (Inr w) \<and>
    conn_at (demo_env_net Debug) w 0 Detecting"
proof -
  from demo_detecting obtain w where w: "demo_world Debug 5 = Inr w"
    "conn_phase_of (reg_find ref_api (nw_registry w) 0) (ops_for 0 (nw_ops w)) = Detecting" "reg_valid ref_api (nw_registry w) 0"
    by (cases "demo_world Debug 5") auto
  have "conn_at (demo_env_net Debug) w 0 p \<Longrightarrow> p = Detecting" for p
    using w(2,3) conn_ok_phase by (fastforce simp: conn_at_def demo_env_net_def split: if_splits)
  moreover obtain p where "conn_at (demo_env_net Debug) w 0 p"
    using demo_net_sim.simulates [OF demo_world_reach [OF w(1)]] by auto
  ultimately show ?thesis using w(1) demo_world_reach [OF w(1)] by blast
qed

subsection \<open>Properties\<close>





end
