(* ===== verification/Spec2Isabelle.thy ===== *)
theory Spec2Isabelle
  imports Http_Session Network_Properties Tcp_Server_Properties Process_Main Server_Config Server_Stop Connection_Properties
begin

text \<open>
  flexnet is a C++ library of asynchronous HTTP and WebSocket channels over Boost.Beast and Asio, whose objects
  live in the entities of an EnTT registry, with an example server that loads its parts as plugins. This
  development models the library (\<open>include/flexnet\<close>, \<open>src\<close>) and the parts of the server
  (\<open>examples/server\<close>) that have logic of their own.

  \<^bold>\<open>How the program is modelled.\<close> A handler of an object is a function on the record of the object; it
  returns the new object with the list of its effects (\<open>http_effect\<close>, \<open>ws_effect\<close>, \<open>listener_effect\<close>, ...: reads,
  writes, posted tasks), or \<open>Inl\<close> when the process ends: a failed \<open>CHECK\<close> or (in \<open>Debug\<close> builds only) \<open>DCHECK\<close>, an
  uncaught exception, or a library call outside its precondition (\<open>Prelude\<close>: \<open>build\<close>, \<open>abort\<close>, \<open>result\<close>). Strands and sequences are
  the value \<open>on_runner\<close> of the environment; a moved-from member is \<open>MovedFrom\<close>. A life cycle is an
  inductive step relation in which the outstanding operations complete in any order with any error code;
  \<open>reach\<close> is what it reaches, and the locales \<open>invariant_machine\<close> and \<open>simulation\<close> carry the induction. Libraries that are not in the
  repository are records of functions given to the definitions, and where a property needs more, their documented laws are a locale
  or a named hypothesis with an instance for evaluation: \<open>socket_laws\<close>, \<open>circular_storage\<close>,
  \<open>registry\<close>, \<open>follows_table\<close>, \<open>helpers_ok\<close>, \<open>allocator_ok\<close>.

  \<^bold>\<open>Library, channels.\<close>
  \<^item> \<open>Std_Map\<close>, \<open>Mime_Type\<close> (\<open>util/mime_type\<close>): \<open>std::map\<close> with a comparator, the MIME table and its case-insensitive
    lookup, equivalent to the last assignment.
  \<^item> \<open>Sockets\<close>, \<open>Channel_State\<close> (\<open>util/close_socket_unsafe\<close>, \<open>limited_tcp_stream\<close>, members of the channels).
  \<^item> \<open>Http_Request\<close> (\<open>pathConcat\<close>, \<open>handleRequest\<close> of \<open>http_channel.cpp\<close>): one response per request, its status on every
    branch, confinement of the files it opens.
  \<^item> \<open>Http_Channel\<close>, \<open>Http_Machine\<close>, \<open>Http_Session\<close> (\<open>http_channel.cpp\<close>): the handlers; their life cycle and its
    three phases; the refinement of an abstract session (one answer per request, in order).
  \<^item> \<open>Circular_Buffer\<close>, \<open>Ws_Channel\<close>, \<open>Ws_Machine\<close>, \<open>Ws_Properties\<close> (\<open>ws_channel.hpp\<close>, \<open>.cpp\<close>): the bounded send queue, the
    handlers, what every interleaving keeps, and the fault of \<open>isSendBusy_\<close>.
  \<^item> \<open>Detect_Channel\<close> (\<open>detect_channel.cpp\<close>): the detection of TLS reports once.
  \<^item> \<open>Lifecycle\<close>, \<open>Listener\<close>, \<open>Listener_Machine\<close>, \<open>Listener_Properties\<close> (\<open>listener.hpp\<close>, \<open>.cpp\<close>): table-driven state
    machines, the acceptor, its accept chain under stop and failure.

  \<^bold>\<open>Entities.\<close>
  \<^item> \<open>Registry\<close>, \<open>Unused_Marker\<close>: the registry as an interface with laws, a reference instance, the marking of
    entities.
  \<^item> \<open>Network_Systems\<close>, \<open>Network_Update\<close>, \<open>Network_Properties\<close> (\<open>plugin_NetworkEntity\<close>): the systems that treat the results
    of accept and detection, delayed construction, unused entities and their destruction; what one update
    of all systems does. \<open>Periodic_Executor\<close> and \<open>Entity_Plugin\<close>: the executor that calls it, as an interface
    of two plugins.
  \<^item> \<open>Tcp_Server\<close>, \<open>Tcp_Server_Properties\<close> (\<open>plugin_TcpServer\<close>): allocation and reuse of connection entities, start
    and unloading of the listener.

  \<^bold>\<open>All connections together.\<close> \<open>Connection_Run\<close> composes the allocator, the callbacks of the listener, \<open>DetectChannel\<close>,
  \<open>HttpChannel\<close>, its upgrade, and the update of the network systems into one machine over one registry, with what each
  connection has outstanding as a list of operations, until a \<open>WsChannel\<close> takes over. \<open>Connection_Steps\<close>,
  \<open>Connection_Update\<close> and \<open>Connection_Lifecycle\<close> show that an operation, an update and an allocation return and take connections
  along the edges of a machine of phases; \<open>Connection_End\<close> gives the rank by which every connection can be brought to its
  end; \<open>Connection_Properties\<close> has the two theorems and a server that evaluates.

  \<^bold>\<open>Server process.\<close>
  \<^item> \<open>App_State\<close> (\<open>ServerSharedLib/state\<close>): the state of the application and its promises.
  \<^item> \<open>Task_Graph\<close>: chained promises as tasks that wait for each other; a run has at most two steps per task,
    and all runs complete exactly if the dependencies are closed and acyclic.
  \<^item> \<open>Plugin_Manager\<close>, \<open>Plugin_Properties\<close> (\<open>src/plugin_manager\<close>): configuration, startup and shutdown of plugins; metadata,
    order, termination, and the cases that block.
  \<^item> \<open>Signal_Handler\<close> (\<open>plugin_SignalHandler\<close>, the command of \<open>plugin_BasicTerminalCommands\<close>): quit signals.
  \<^item> \<open>Console_Terminal\<close> (\<open>plugin_ConsoleTerminal\<close>): the reader of standard input and the tasks it posts.
  \<^item> \<open>Plugin_Config\<close> (\<open>main_plugin_interface.cc\<close> of four plugins): the configured values and the bounds of the port.
  \<^item> \<open>Asio_Threads\<close> (\<open>plugin_AsioContextThreads\<close>): the threads of the \<open>io_context\<close> and when they can be joined.
  \<^item> \<open>Action_Recorder\<close>, \<open>Extra_Logging\<close>, \<open>Basic_Cmd_Args\<close> (the plugins of these names): the callback for user actions, which
    outlives its plugin; the statistics written at the end of a run, and what their counter counts; two switches.
  \<^item> \<open>Server_Main\<close>, \<open>Process_Metrics\<close>, \<open>Process_Main\<close> (\<open>src/main.cc\<close>, \<open>init_env.cc\<close>, \<open>main_loop_registry\<close>): from the start over
    the termination event to the shutdown; the metrics of the process at its end; \<open>main\<close> and its exit code.

  \<^bold>\<open>The whole server.\<close> The plugins share the context of the registry of the main loop, and their promises interleave.
  \<^item> \<open>Plugin_Interface\<close> (\<open>main_plugin_interface.cc\<close>, the same in ten plugins): the optional logic object and the chains of
    promises of \<open>load\<close> and \<open>unload\<close> as lists of links.
  \<^item> \<open>Server_World\<close> (\<open>main_plugin_logic.cc\<close> of the ten plugins): constructors, chains and destructors on one state.
  \<^item> \<open>Plugin_Run\<close>: tasks of \<open>Task_Graph\<close> whose links interleave with each other and with an environment; the locale
    \<open>staged_run\<close> is the proof rule (stages that no other step changes), with the work that is left as the measure for completion.
  \<^item> \<open>Server_Boot\<close>, \<open>Server_Config\<close>, \<open>Server_Stop\<close> (\<open>plugins.conf\<close>): the shipped plugins are started and stopped while the timer, the
    registry thread, connections and signals go on. \<open>startup\<close> and \<open>shutdown\<close> make the tasks; no interleaving of the start ends
    the process; of the stop only a posted update that runs late does.

  This theory holds the properties that span the channels and the systems: what the destruction of an
  entity finds in its channels.

  \<^bold>\<open>Bounds and fuel.\<close> No definition uses fuel: the loops of the source run over lists (\<open>foldM\<close>), and
  what runs for ever is a step relation. \<open>size_t\<close> counters whose wrap-around matters are words (\<open>64 word\<close>); the send
  queue is bounded by \<open>kMaxSendQueueSize\<close>. The strings of the source are lists of characters, file sizes natural numbers.

  \<^bold>\<open>Not modelled.\<close> Logging, histograms while the server runs, tracing, and thread-affinity checks without state; memory management
  of callbacks apart from the cases that the properties name; timers, which are steps of the environment; of
  the server as a whole the single connections and the listener, which are one bit each there and have machines of their own
  (\<open>Connection_Run\<close>, \<open>Listener_Machine\<close>), and the interleaving of websockets with updates, which is not safe (\<open>ws_close_race\<close>); the
  disabled block of \<open>initEnv\<close>; the unit tests; \<open>conan\<close> and \<open>cmake\<close> files.
\<close>

subsection \<open>The channels and the destruction of their entity\<close>

text \<open>
  A \<open>HttpChannel\<close> may be destroyed once it has asked for it. In every state of every run in
  which the channel has posted \<open>markUnused\<close> or handed its stream over, it has no operation
  outstanding, and the destruction of the entity that holds it passes the check of its
  destructor in both builds, provided that a \<open>WsChannel\<close> in the same entity is closed.
\<close>

theorem http_destroy_safe:
  assumes "registry R" and "socket_laws A"
    and "http_reach A H need_eof b stream buffer e (Inr m)"
    and "marks (hm_log m) \<noteq> [] \<or> upgrades (hm_log m) \<noteq> []"
    and "reg_find R r x KTcp = Some (CTcp tcp)" and "ctx_http_channel tcp = Some (hm_channel m)"
    and "\<And>w. ctx_ws_channel tcp = Some w \<Longrightarrow> \<not> ws_is_open w \<and> \<not> isSendBusy w"
  shows "hm_ops m = [] \<and> destroy_entity A ws_is_open R b x r = Inr (reg_destroy R r x)"
proof -
  from invariant_machine.reach_inv [OF http_machine_inv [OF assms(2)] assms(3)] assms(4)
  have "http_closed A e m \<or> http_handed_over m"
    by (auto simp: http_inv_def http_live_def)
  then have "hm_ops m = []" "HttpChannel_delete A b (hm_channel m) = Inr ()"
    by (auto simp: http_closed_def http_handed_over_def HttpChannel_delete_def)
  moreover have "reg_valid R r x" by (rule registry.find_valid [OF assms(1,5)])
  moreover have "case ctx_ws_channel tcp of None \<Rightarrow> True | Some w \<Rightarrow> WsChannel_delete b (ws_is_open w) w = Inr ()"
    using assms(7) by (auto simp: WsChannel_delete_def split: option.splits)
  ultimately show ?thesis
    using assms(5,6) by (auto simp: destroy_entity_def delete_channels_def split: option.splits)
qed

text \<open>A run in which the peer ends the stream, for the witness.\<close>

lemma demo_http_closed_run:
  "\<exists>m. http_reach demo_api demo_host (\<lambda>_. False) Debug (stream_of_socket demo_conn) [] 7 (Inr m) \<and>
    marks (hm_log m) = [7]"
proof -
  let ?E = "\<lparr>bld = Debug, on_runner = ConnectionStrand\<rparr>"
  let ?reach = "http_reach demo_api demo_host (\<lambda>_. False) Debug (stream_of_socket demo_conn) [] 7"
  let ?h0 = "hm_channel demo_http_initial"
  have E: "on_strand ?E" by (simp add: on_strand_def)
  have "live_channel 7 ?h0"
    by (simp add: demo_http_initial_def HttpChannel_new_def live_channel_def)
  from doRead_live [OF E this] obtain h1 where
    h1: "HttpChannel_doRead ?E ?h0 = Inr (h1, [HttpAsyncRead None])" "live_channel 7 h1"
    "hc_parser h1 = Some HttpChannel_kMaxMessageSizeByte" by blast
  let ?m1 = "\<lparr>hm_channel = h1, hm_ops = [OpRead], hm_log = [HttpPostRead, HttpAsyncRead None]\<rparr>"
  from step_complete [of demo_http_initial "[]" OpPostedRead "[]" demo_api demo_host "\<lambda>_. False" Debug] h1(1)
  have "http_step demo_api demo_host (\<lambda>_. False) Debug (Inr demo_http_initial) (Inr ?m1)"
    by (simp add: demo_http_initial_def hm_next_def)
  with demo_http_start have r1: "?reach (Inr ?m1)" by (rule reach_step)
  from doEof_live [OF demo_api_laws E h1(2)] obtain h2 logs where
    h2: "HttpChannel_doEof demo_api ?E h1 = Inr (h2, map HttpCloseLog logs @ [HttpPostMarkUnused 7])" by blast
  have "HttpChannel_onRead demo_api demo_host ?E EndOfStream demo_get h1 = HttpChannel_doEof demo_api ?E h1"
    using h1(2,3) by (simp add: HttpChannel_onRead_def on_strand_guards [OF E h1(2)])
  with step_complete [of ?m1 "[]" OpRead "[]" demo_api demo_host "\<lambda>_. False" Debug EndOfStream demo_get] h2
  have "http_step demo_api demo_host (\<lambda>_. False) Debug (Inr ?m1)
      (Inr \<lparr>hm_channel = h2, hm_ops = [], hm_log = [HttpPostRead, HttpAsyncRead None] @
         map HttpCloseLog logs @ [HttpPostMarkUnused 7]\<rparr>)" by (simp add: hm_next_def)
  with r1 have "?reach (Inr \<lparr>hm_channel = h2, hm_ops = [], hm_log = [HttpPostRead, HttpAsyncRead None] @
         map HttpCloseLog logs @ [HttpPostMarkUnused 7]\<rparr>)" by (rule reach_step)
  then show ?thesis by (intro exI conjI) (assumption, simp)
qed

theorem http_destroy_safe_witness:
  "\<exists>m :: demo_socket http_machine. marks (hm_log m) = [7] \<and>
    destroy_entity demo_api (\<lambda>_. False) ref_api Debug 7
      (reg_set ref_api (demo_registry :: (demo_socket, ring) ref_registry) 7
        (CTcp (TcpConnection_new\<lparr>ctx_http_channel := Some (hm_channel m)\<rparr>))) =
    Inr (reg_destroy ref_api (reg_set ref_api demo_registry 7
        (CTcp (TcpConnection_new\<lparr>ctx_http_channel := Some (hm_channel m)\<rparr>))) 7)"
proof -
  obtain m where m: "http_reach demo_api demo_host (\<lambda>_. False) Debug (stream_of_socket demo_conn) [] 7 (Inr m)"
    "marks (hm_log m) = [7]" using demo_http_closed_run by blast
  let ?tcp = "TcpConnection_new\<lparr>ctx_http_channel := Some (hm_channel m)\<rparr> :: (demo_socket, ring) TcpConnection"
  have "reg_find ref_api (reg_set ref_api demo_registry 7 (CTcp ?tcp)) 7 KTcp = Some (CTcp ?tcp)"
    by (simp add: demo_registry_find)
  from http_destroy_safe [OF ref.registry_axioms demo_api_laws m(1) _ this, of "\<lambda>_. False"] m(2)
  have "destroy_entity demo_api (\<lambda>_. False) ref_api Debug 7 (reg_set ref_api demo_registry 7 (CTcp ?tcp)) =
    Inr (reg_destroy ref_api (reg_set ref_api demo_registry 7 (CTcp ?tcp)) 7)"
    by (simp add: TcpConnection_new_def)
  with m(2) show ?thesis by (intro exI [of _ m] conjI)
qed

text \<open>
  C19: a \<open>WsChannel\<close> may be destroyed while its close is under way. When an open channel is told to
  close, \<open>doEof\<close> starts the closing handshake and reports the entity as unused at once, without
  waiting for \<open>onClose\<close>. The report and the next update's last two systems then destroy the
  entity, and with it the object that the pending handshake will call back, if the stream no
  longer counts as open or the build has no checks; otherwise the check of the destructor ends
  the process.
\<close>

theorem ws_close_race:
  assumes "registry R" and "wc_entity_id w = e" and "\<not> isSendBusy w"
    and "WsChannel_doEof (at b ConnectionStrand) True w = Inr (w', es)"
    and "reg_find R r e KTcp = Some (CTcp tcp)" and "ctx_ws_channel tcp = Some w'"
    and "\<And>h. ctx_http_channel tcp = Some h \<Longrightarrow> HttpChannel_delete A b h = Inr ()"
    and "\<And>x. x \<noteq> e \<Longrightarrow> reg_has R r x (KTag UnusedTag) \<or> reg_has R r x (KTag NeedToDestroyTag) \<Longrightarrow>
      deletable A ws_is_open R b r x"
  shows "es = [WsAsyncClose, WsPostMarkUnused e] \<and>
    (\<exists>r1 r2. WsChannel_markUnused R (on_registry b) e r = Inr r1 \<and>
      updateUnusedSystem R False (on_registry b) r1 = Inr r2 \<and>
      (if b = Debug \<and> ws_is_open w'
       then \<exists>a. updateCleanupSystem A ws_is_open R False (on_registry b) r2 = Inl a
       else \<exists>r3. updateCleanupSystem A ws_is_open R False (on_registry b) r2 = Inr r3 \<and> \<not> reg_valid R r3 e))"
proof -
  have v: "reg_valid R r e" by (rule registry.find_valid [OF assms(1,5)])
  obtain r1 where m: "WsChannel_markUnused R (on_registry b) e r = Inr r1"
    and f1: "\<And>x k. reg_find R r1 x k =
      (if x = e \<and> k = KTag UnusedTag then Some (CTag UnusedTag) else reg_find R r x k)"
  proof
    let ?r1 = "if reg_has R r e (KTag UnusedTag) then r else reg_set R r e (CTag UnusedTag)"
    show "WsChannel_markUnused R (on_registry b) e r = Inr ?r1"
      using v by (simp add: WsChannel_markUnused_def reg_emplace_def on_registry_def)
    show "reg_find R ?r1 x k =
      (if x = e \<and> k = KTag UnusedTag then Some (CTag UnusedTag) else reg_find R r x k)" for x k
      using v registry.find_set [OF assms(1) v] registry.find_tag_iff [OF assms(1)] by auto
  qed
  from registry.unused_spec [OF assms(1), of b r1] obtain r2 where
    u: "updateUnusedSystem R False (on_registry b) r1 = Inr r2"
    and f2: "\<And>x k. reg_find R r2 x k = (if k = KTag NeedToDestroyTag \<and> reg_has R r1 x (KTag UnusedTag)
       then Some (CTag NeedToDestroyTag) else reg_find R r1 x k)" by blast
  have w: "es = [WsAsyncClose, WsPostMarkUnused e]" "\<not> isSendBusy w'"
    using assms(2-4) by (auto simp: WsChannel_doEof_def Let_def)
  have tcp2: "reg_find R r2 e KTcp = Some (CTcp tcp)" using assms(5) by (simp add: f2 f1)
  have ntd: "reg_has R r2 e (KTag NeedToDestroyTag)" by (simp add: reg_has_def f2 f1)
  have others: "deletable A ws_is_open R b r2 x"
    if "x \<noteq> e" "reg_has R r2 x (KTag NeedToDestroyTag)" for x
  proof -
    have "reg_has R r x (KTag UnusedTag) \<or> reg_has R r x (KTag NeedToDestroyTag)"
      using that by (auto simp: reg_has_def f2 f1 split: if_splits)
    from assms(8) [OF that(1) this] show ?thesis by (simp add: deletable_def f2 f1)
  qed
  have http: "(case ctx_http_channel tcp of None \<Rightarrow> Inr () | Some h \<Rightarrow> HttpChannel_delete A b h) = Inr ()"
    using assms(7) by (auto split: option.split)
  show ?thesis
  proof (cases "b = Debug \<and> ws_is_open w'")
    case True
    then have "b = Debug" ..
    note http = http [unfolded this]
    have body: "\<exists>a. destroy_entity A ws_is_open R b e s = Inl a"
      if "reg_find R s e KTcp = Some (CTcp tcp)" for s
      using registry.find_valid [OF assms(1) that] that True http assms(6)
      by (simp add: destroy_entity_def delete_channels_def WsChannel_delete_def)
    have keep: "reg_find R s' e KTcp = Some (CTcp tcp)"
      if "x \<noteq> e" "reg_find R s e KTcp = Some (CTcp tcp)" "destroy_entity A ws_is_open R b x s = Inr s'" for x s s'
      using that registry.find_destroy [OF assms(1)] by (auto simp: destroy_entity_def result_simps)
    have "e \<in> set (reg_view R r2 [KTag NeedToDestroyTag] [])"
      using ntd registry.has_valid [OF assms(1) ntd] by (simp add: registry.set_view [OF assms(1)])
    from foldM_fails [where P = "\<lambda>s. reg_find R s e KTcp = Some (CTcp tcp)" and f = "destroy_entity A ws_is_open R b",
        OF this tcp2 body keep]
    have "\<exists>a. updateCleanupSystem A ws_is_open R False (on_registry b) r2 = Inl a"
      by (simp add: updateCleanupSystem_def on_registry_def)
    with w m u True show ?thesis by auto
  next
    case False
    then have "WsChannel_delete b (ws_is_open w') w' = Inr ()"
      using w(2) by (cases b) (auto simp: WsChannel_delete_def)
    with http tcp2 assms(6) have "deletable A ws_is_open R b r2 e"
      by (simp add: deletable_def delete_channels_def)
    then have "deletable A ws_is_open R b r2 x" if "reg_has R r2 x (KTag NeedToDestroyTag)" for x
      using others [OF _ that] by (cases "x = e") simp_all
    then have "\<forall>x. reg_has R r2 x (KTag NeedToDestroyTag) \<longrightarrow> deletable A ws_is_open R b r2 x" by simp
    from registry.cleanup_spec [OF assms(1) this] ntd have
      "\<exists>r3. updateCleanupSystem A ws_is_open R False (on_registry b) r2 = Inr r3 \<and> \<not> reg_valid R r3 e" by blast
    with w m u False show ?thesis by auto
  qed
qed

text \<open>A registry with a websocket that was told to close, for the witness.\<close>

definition demo_ws_closing :: "(demo_socket, ring) WsChannel" where
  "demo_ws_closing = demo_ws\<lparr>wc_can_schedule_callbacks := False,
     ws_lowest_layer := (ws_lowest_layer demo_ws)\<lparr>expiry := ExpiresAfter kCloseTimeoutSec\<rparr>\<rparr>"

definition demo_ws_registry :: "(demo_socket, ring) ref_registry" where
  "demo_ws_registry = reg_set ref_api demo_registry 7
     (CTcp (TcpConnection_new\<lparr>ctx_strand := True, ctx_ws_channel := Some demo_ws_closing\<rparr>))"

lemma demo_ws_registry_find:
  "reg_find ref_api demo_ws_registry x k = (if x = 7 \<and> k = KTcp
     then Some (CTcp (TcpConnection_new\<lparr>ctx_strand := True, ctx_ws_channel := Some demo_ws_closing\<rparr>)) else None)"
  by (auto simp: demo_ws_registry_def ref_api_def ref_find_def ref_valid_def demo_registry_def)

theorem ws_close_race_witness:
  "\<exists>r1 r2 r3. WsChannel_markUnused ref_api (on_registry Release) 7 demo_ws_registry = Inr r1 \<and>
    updateUnusedSystem ref_api False (on_registry Release) r1 = Inr r2 \<and>
    updateCleanupSystem demo_api (\<lambda>_. True) ref_api False (on_registry Release) r2 = Inr r3 \<and>
    \<not> reg_valid ref_api r3 7"
proof -
  have "WsChannel_doEof (at Release ConnectionStrand) True demo_ws =
      Inr (demo_ws_closing, [WsAsyncClose, WsPostMarkUnused 7])"
    by (simp add: WsChannel_doEof_def demo_ws_closing_def demo_ws_def Let_def)
  from ws_close_race [OF ref.registry_axioms _ _ this, of 7 demo_ws_registry
      "TcpConnection_new\<lparr>ctx_strand := True, ctx_ws_channel := Some demo_ws_closing\<rparr>" demo_api "\<lambda>_. True"]
  show ?thesis
    by (auto simp: demo_ws_registry_find demo_ws_def reg_has_def TcpConnection_new_def)
qed

end
